theory Spec2Isabelle
  imports Main
begin

section \<open>Values, instances and tables\<close>

text \<open>
  A model instance is its attribute dictionary: attribute name to value. \<open>Null\<close> is
  Python's \<open>None\<close> and SQL's \<open>NULL\<close>. Primary keys, row ids and foreign keys are
  integers; a timestamp is the integer number of microseconds since the epoch on the
  clock of the project's default time zone, which has a fixed offset. The primary key
  attribute is \<open>id\<close>, as in the abstract model of \<open>models.py\<close>, whose \<open>copy\<close> resets
  \<open>pk\<close> and \<open>id\<close> together.
\<close>

datatype val = Null | IntV int | StrV string

type_synonym row = "string \<Rightarrow> val"

datatype error =
    AssertionError
  | ValueError string
  | TypeError string
  | AttributeError string
  | ValidationError string
  | ProtectedError
  | RestrictedError
  | IntegrityError
  | PyException string

text \<open>
  A time argument of a model method or a queryset method: a datetime, a pure date (a
  day number), or an object that is neither. The methods read of a datetime only its
  instant, through the lookups, so here a datetime is its timestamp. An object that is
  neither carries what the \<open>DateTimeField\<close> of a lookup makes of it when it prepares
  it: the exception it raises, whose class depends on the object (\<open>ValidationError\<close>
  for a malformed string, \<open>TypeError\<close> for a number, \<open>ValueError\<close> for \<open>None\<close>), or
  the timestamp it parses it to.
\<close>

datatype pytime = Datetime int | Date int | NotATime "error + int"

definition usec_per_day :: int where
  "usec_per_day = 86400000000"

text \<open>\<open>datetime.datetime.combine(d, datetime.time.max)\<close>: 23:59:59.999999 of day \<open>d\<close>.\<close>

definition combine_time_max :: "int \<Rightarrow> int" where
  "combine_time_max d = d * usec_per_day + (usec_per_day - 1)"

text \<open>\<open>value.date()\<close> and \<open>value.time() == datetime.time.min\<close> of a datetime.\<close>

definition date_of :: "int \<Rightarrow> int" where
  "date_of t = t div usec_per_day"

definition time_is_min :: "int \<Rightarrow> bool" where
  "time_is_min t = (t mod usec_per_day = 0)"

subsection \<open>Field lookups of the query language\<close>

text \<open>The lookups \<open>__gt\<close>, \<open>__gte\<close>, \<open>__lte\<close> and \<open>__isnull=True\<close> on a column
  value. A comparison with \<open>NULL\<close> selects nothing.\<close>

fun lookup_gt :: "val \<Rightarrow> int \<Rightarrow> bool" where
  "lookup_gt (IntV x) t = (t < x)"
| "lookup_gt _ t = False"

fun lookup_gte :: "val \<Rightarrow> int \<Rightarrow> bool" where
  "lookup_gte (IntV x) t = (t \<le> x)"
| "lookup_gte _ t = False"

fun lookup_lte :: "val \<Rightarrow> int \<Rightarrow> bool" where
  "lookup_lte (IntV x) t = (x \<le> t)"
| "lookup_lte _ t = False"

definition isnull :: "val \<Rightarrow> bool" where
  "isnull v = (v = Null)"

section \<open>PointInTimeQuerySet\<close>

text \<open>A queryset is the list of the rows it selects, in table order.\<close>

definition PointInTimeQuerySet_active ::
  "int \<Rightarrow> row list \<Rightarrow> pytime option \<Rightarrow> error + row list" where
  "PointInTimeQuerySet_active now qs active_at =
     (case (case active_at of None \<Rightarrow> Datetime now | Some a \<Rightarrow> a) of
        Datetime t \<Rightarrow>
          Inr (filter (\<lambda>r. (lookup_gt (r ''end_at'') t \<or> isnull (r ''end_at''))
                          \<and> lookup_lte (r ''start_at'') t) qs)
      | Date d \<Rightarrow>
          Inr (filter (\<lambda>r. (lookup_gt (r ''end_at'') (combine_time_max d) \<or> isnull (r ''end_at''))
                          \<and> lookup_lte (r ''start_at'') (combine_time_max d)) qs)
      | NotATime _ \<Rightarrow> Inl (ValueError ''active_at must be datetime or date''))"

definition PointInTimeQuerySet_current :: "row list \<Rightarrow> row list" where
  "PointInTimeQuerySet_current qs = filter (\<lambda>r. isnull (r ''replaced_at'')) qs"

definition PointInTimeQuerySet_version ::
  "row list \<Rightarrow> pytime \<Rightarrow> error + row list" where
  "PointInTimeQuerySet_version qs version_at =
     (case version_at of
        Datetime t \<Rightarrow>
          Inr (filter (\<lambda>r. (lookup_gt (r ''replaced_at'') t \<or> isnull (r ''replaced_at''))
                          \<and> lookup_lte (r ''created_at'') t) qs)
      | Date d \<Rightarrow>
          Inr (filter (\<lambda>r. (lookup_gt (r ''replaced_at'') (combine_time_max d)
                              \<or> isnull (r ''replaced_at''))
                          \<and> lookup_lte (r ''created_at'') (combine_time_max d)) qs)
      | NotATime _ \<Rightarrow> Inl (ValueError ''time must be datetime or date''))"

section \<open>The managers\<close>

text \<open>\<open>records\<close> (PointInTimeBaseManager) starts from every row of the table,
  \<open>objects\<close> (PointInTimeDefaultManager) from the current rows.\<close>

definition PointInTimeBaseManager_get_queryset :: "row list \<Rightarrow> row list" where
  "PointInTimeBaseManager_get_queryset tbl = tbl"

definition PointInTimeBaseManager_active ::
  "int \<Rightarrow> row list \<Rightarrow> pytime option \<Rightarrow> error + row list" where
  "PointInTimeBaseManager_active now tbl active_at =
     (case PointInTimeQuerySet_active now (PointInTimeBaseManager_get_queryset tbl) active_at of
        Inl e \<Rightarrow> Inl e
      | Inr qs \<Rightarrow> Inr (PointInTimeQuerySet_current qs))"

definition PointInTimeBaseManager_current :: "row list \<Rightarrow> row list" where
  "PointInTimeBaseManager_current tbl =
     PointInTimeQuerySet_current (PointInTimeBaseManager_get_queryset tbl)"

definition PointInTimeBaseManager_version ::
  "row list \<Rightarrow> pytime \<Rightarrow> error + row list" where
  "PointInTimeBaseManager_version tbl version_at =
     PointInTimeQuerySet_version (PointInTimeBaseManager_get_queryset tbl) version_at"

definition PointInTimeDefaultManager_get_queryset :: "row list \<Rightarrow> row list" where
  "PointInTimeDefaultManager_get_queryset tbl = PointInTimeQuerySet_current tbl"

definition PointInTimeDefaultManager_current :: "row list \<Rightarrow> row list" where
  "PointInTimeDefaultManager_current tbl = PointInTimeDefaultManager_get_queryset tbl"

definition PointInTimeDefaultManager_active ::
  "int \<Rightarrow> row list \<Rightarrow> pytime option \<Rightarrow> error + row list" where
  "PointInTimeDefaultManager_active now tbl active_at =
     PointInTimeQuerySet_active now (PointInTimeDefaultManager_get_queryset tbl) active_at"

section \<open>Tables and the framework's save and delete\<close>

text \<open>
  A table holds its rows in insertion order, with the next value of its key sequence.
  \<open>Model_save\<close> is the framework's \<open>Model.save\<close>, which \<open>_save\<close> reaches through
  \<open>super().save\<close>: an instance without a key is inserted under the next key of the
  sequence; an instance whose key is in the table overwrites that row; an instance
  whose key is not in the table is inserted under its key.
  The deferred uniqueness constraint on (row_id, created_at) is outside this model:
  only the backing store checks it, at commit.
\<close>

record table =
  rows :: "row list"
  next_id :: int

definition Model_save :: "table \<Rightarrow> row \<Rightarrow> table \<times> row" where
  "Model_save t x =
     (if x ''id'' = Null then
        (t\<lparr>rows := rows t @ [x(''id'' := IntV (next_id t))], next_id := next_id t + 1\<rparr>,
         x(''id'' := IntV (next_id t)))
      else if \<exists>r \<in> set (rows t). r ''id'' = x ''id'' then
        (t\<lparr>rows := map (\<lambda>r. if r ''id'' = x ''id'' then x else r) (rows t)\<rparr>, x)
      else
        (t\<lparr>rows := rows t @ [x],
           next_id := (case x ''id'' of IntV k \<Rightarrow> max (next_id t) (k + 1) | _ \<Rightarrow> next_id t)\<rparr>,
         x))"

section \<open>Model metadata\<close>

text \<open>
  What the code reads of \<open>model._meta\<close>: for each field its name, whether it is the
  primary key and whether it is a \<open>OneToOneField\<close>; and the three field lists
  \<open>get_fields()\<close>, \<open>concrete_fields\<close> and \<open>private_fields\<close>.
\<close>

record field =
  name :: string
  primary_key :: bool
  one_to_one :: bool

record meta =
  get_fields :: "field list"
  concrete_fields :: "field list"
  private_fields :: "field list"

definition get_one_to_one_fields :: "meta \<Rightarrow> string list" where
  "get_one_to_one_fields model = map name (filter one_to_one (get_fields model))"

section \<open>The database\<close>

text \<open>
  The table of the versioned model, and one table for each reverse foreign-key
  relation that points to it: the name of the foreign key, whether the key is a
  \<open>FrozenForeignKey\<close>, whether the referencing model is itself a \<open>PointInTimeModel\<close>,
  the \<open>on_delete\<close> argument of the key, whether the store holds a constraint for the
  key (\<open>db_constraint\<close>), and the referencing rows. \<open>SET_TO v\<close> stands for \<open>SET_NULL\<close>
  (\<open>v\<close> is \<open>Null\<close>), \<open>SET_DEFAULT\<close> and \<open>SET(v)\<close>. The referencing tables are distinct
  from the versioned table and from each other, and no further table refers to them.
\<close>

datatype on_delete = CASCADE | PROTECT | RESTRICT | SET_TO val | DO_NOTHING

record referrer =
  fk_name :: string
  frozen :: bool
  is_pita :: bool
  on_delete :: on_delete
  db_constraint :: bool
  ref_table :: table

record db =
  main :: table
  referrers :: "referrer list"

text \<open>
  \<open>Model_delete\<close> is the framework's \<open>Model.delete\<close> on a row of the versioned table,
  reached by \<open>_delete\<close>. It refuses an instance without a key. Otherwise it collects,
  through the base manager of each referencing model (every row, replaced versions
  too), the rows that refer to the key. It raises \<open>ProtectedError\<close> when a \<open>PROTECT\<close>
  key has such a row, and \<open>RestrictedError\<close> when a \<open>RESTRICT\<close> key has one; under
  \<open>DO_NOTHING\<close> it leaves the rows, and the store refuses the dangling reference when
  it holds the constraint, at the statement or when the transaction commits; the
  atomic method that deletes is taken to be the outermost transaction, so it raises
  \<open>IntegrityError\<close>. When nothing refuses, the rows under \<open>CASCADE\<close>
  are removed, the keys under \<open>SET_TO v\<close> are set to \<open>v\<close>, and the row of the key is
  removed.
\<close>

definition related_objects :: "referrer \<Rightarrow> val \<Rightarrow> row list" where
  "related_objects rf k = filter (\<lambda>r. r (fk_name rf) = k) (rows (ref_table rf))"

definition on_delete_apply :: "val \<Rightarrow> referrer \<Rightarrow> referrer" where
  "on_delete_apply k rf =
     (case on_delete rf of
        CASCADE \<Rightarrow>
          rf\<lparr>ref_table :=
               (ref_table rf)\<lparr>rows := filter (\<lambda>r. r (fk_name rf) \<noteq> k) (rows (ref_table rf))\<rparr>\<rparr>
      | SET_TO v \<Rightarrow>
          rf\<lparr>ref_table :=
               (ref_table rf)\<lparr>rows := map (\<lambda>r. if r (fk_name rf) = k then r(fk_name rf := v) else r)
                                        (rows (ref_table rf))\<rparr>\<rparr>
      | _ \<Rightarrow> rf)"

definition Model_delete :: "db \<Rightarrow> row \<Rightarrow> error + db" where
  "Model_delete d x =
     (if x ''id'' = Null then Inl (ValueError ''object cannot be deleted because its id is None'')
      else if \<exists>rf \<in> set (referrers d).
                on_delete rf = PROTECT \<and> related_objects rf (x ''id'') \<noteq> []
      then Inl ProtectedError
      else if \<exists>rf \<in> set (referrers d).
                on_delete rf = RESTRICT \<and> related_objects rf (x ''id'') \<noteq> []
      then Inl RestrictedError
      else if \<exists>rf \<in> set (referrers d).
                on_delete rf = DO_NOTHING \<and> db_constraint rf
                \<and> related_objects rf (x ''id'') \<noteq> []
      then Inl IntegrityError
      else Inr (d\<lparr>main := (main d)\<lparr>rows := filter (\<lambda>r. r ''id'' \<noteq> x ''id'') (rows (main d))\<rparr>,
                 referrers := map (on_delete_apply (x ''id'')) (referrers d)\<rparr>))"

text \<open>A key refuses the removal of a referenced row when its \<open>on_delete\<close> is \<open>PROTECT\<close>
  or \<open>RESTRICT\<close>, or \<open>DO_NOTHING\<close> under a constraint of the store; the row of key \<open>k\<close>
  is refused removal when a row of such a key refers to \<open>k\<close>.\<close>

definition refuses :: "referrer \<Rightarrow> bool" where
  "refuses rf =
     (on_delete rf = PROTECT \<or> on_delete rf = RESTRICT
      \<or> (on_delete rf = DO_NOTHING \<and> db_constraint rf))"

definition refused :: "db \<Rightarrow> val \<Rightarrow> bool" where
  "refused d k = (\<exists>rf \<in> set (referrers d). refuses rf \<and> related_objects rf k \<noteq> [])"

section \<open>PointInTimeDefaultManager.copy\<close>

definition PointInTimeDefaultManager_copy ::
  "table \<Rightarrow> val \<Rightarrow> string list \<Rightarrow> table \<times> row option" where
  "PointInTimeDefaultManager_copy t pk exclude =
     (case filter (\<lambda>r. r ''id'' = pk) (PointInTimeDefaultManager_current (rows t)) of
        [] \<Rightarrow> (t, None)
      | inst # _ \<Rightarrow>
          (case Model_save t (fold (\<lambda>field_name i. i(field_name := Null)) exclude
                                (inst(''id'' := Null))) of
             (t', new_instance) \<Rightarrow> (t', Some new_instance)))"

section \<open>PointInTimeModel\<close>

text \<open>\<open>u_save\<close>, \<open>u_delete\<close> and \<open>u_rollback_to\<close> are the methods \<open>_save\<close>,
  \<open>_delete\<close> and \<open>_rollback_to\<close>.\<close>

definition u_save :: "table \<Rightarrow> row \<Rightarrow> table \<times> row" where
  "u_save t self = Model_save t self"

definition u_delete :: "db \<Rightarrow> row \<Rightarrow> error + db" where
  "u_delete d self = Model_delete d self"

definition copy :: "table \<Rightarrow> row \<Rightarrow> string list \<Rightarrow> table \<times> row option" where
  "copy t self exclude = PointInTimeDefaultManager_copy t (self ''id'') exclude"

subsection \<open>move_frozen_relationships\<close>

text \<open>
  The reverse manager of a relation is built on the default manager of the referencing
  model: for a referencing \<open>PointInTimeModel\<close> that is \<open>objects\<close>, which selects
  current rows only; for any other model it selects every row. The manager cannot be
  used on an instance without a key. Only the relations of a \<open>FrozenForeignKey\<close> are
  moved.
\<close>

definition related_manager_all :: "referrer \<Rightarrow> row \<Rightarrow> row list" where
  "related_manager_all rf self =
     filter (\<lambda>r. r (fk_name rf) = self ''id'')
       (if is_pita rf then PointInTimeDefaultManager_get_queryset (rows (ref_table rf))
        else rows (ref_table rf))"

text \<open>\<open>repoint_related\<close> is the body of the inner loop, on one related row;
  \<open>move_frozen_relationships_of\<close> is the body of the outer loop, on one reverse
  relation.\<close>

definition repoint_related :: "referrer \<Rightarrow> row \<Rightarrow> table \<Rightarrow> row \<Rightarrow> table" where
  "repoint_related rf target t related =
     (if is_pita rf then fst (u_save t (related(fk_name rf := target ''id'')))
      else fst (Model_save t (related(fk_name rf := target ''id''))))"

definition move_frozen_relationships_of :: "row \<Rightarrow> row \<Rightarrow> referrer \<Rightarrow> referrer" where
  "move_frozen_relationships_of self target rf =
     (if frozen rf then
        rf\<lparr>ref_table :=
             foldl (repoint_related rf target) (ref_table rf) (related_manager_all rf self)\<rparr>
      else rf)"

definition move_frozen_relationships :: "db \<Rightarrow> row \<Rightarrow> row \<Rightarrow> error + db" where
  "move_frozen_relationships d self target =
     (if (\<exists>rf \<in> set (referrers d). frozen rf) \<and> self ''id'' = Null then
        Inl (ValueError ''instance needs a primary key value before this relationship can be used'')
      else Inr (d\<lparr>referrers := map (move_frozen_relationships_of self target) (referrers d)\<rparr>))"

subsection \<open>save, delete, purge\<close>

text \<open>\<open>now\<close> is the value \<open>timezone.now()\<close> returns in the call; \<open>user\<close> is the
  \<open>user\<close> argument, \<open>Null\<close> when it is not given. A raised exception leaves the
  database as it was: the method is atomic.\<close>

text \<open>\<open>save_tail\<close> is the part of \<open>save\<close> after the branch on \<open>self.pk\<close>, shared by
  create and update.\<close>

definition save_tail :: "int \<Rightarrow> val \<Rightarrow> db \<Rightarrow> row \<Rightarrow> db \<times> row" where
  "save_tail current_time user d self =
     (case u_save (main d)
             (self(''created_at'' := IntV current_time,
                   ''replaced_at'' := Null,
                   ''modified_by'' := (if user \<noteq> Null then user else self ''modified_by''),
                   ''start_at'' := (if self ''start_at'' \<noteq> Null then self ''start_at''
                                    else IntV current_time))) of
        (t1, self1) \<Rightarrow>
          if self1 ''row_id'' = Null then
            (case u_save t1 (self1(''row_id'' := self1 ''id'')) of
               (t2, self2) \<Rightarrow> (d\<lparr>main := t2\<rparr>, self2))
          else (d\<lparr>main := t1\<rparr>, self1))"

definition save :: "meta \<Rightarrow> int \<Rightarrow> val \<Rightarrow> db \<Rightarrow> row \<Rightarrow> error + (db \<times> row)" where
  "save model current_time user d self =
     (if self ''id'' \<noteq> Null then
        if self ''replaced_at'' \<noteq> Null then Inl AssertionError
        else
          (case copy (main d) self (get_one_to_one_fields model) of
             (t1, None) \<Rightarrow> Inl AssertionError
           | (t1, Some original) \<Rightarrow>
               (case u_save t1 (original(''replaced_at'' := IntV current_time,
                                         ''row_id'' := self ''id'')) of
                  (t2, original') \<Rightarrow>
                    (case move_frozen_relationships (d\<lparr>main := t2\<rparr>) self original' of
                       Inl e \<Rightarrow> Inl e
                     | Inr d3 \<Rightarrow> Inr (save_tail current_time user d3 self))))
      else
        Inr (save_tail current_time user d (self(''row_id'' := Null, ''replaced_at'' := Null))))"

definition delete :: "int \<Rightarrow> db \<Rightarrow> row \<Rightarrow> db \<times> row" where
  "delete current_time d self =
     (case u_save (main d) (self(''replaced_at'' := IntV current_time)) of
        (t, self') \<Rightarrow> (d\<lparr>main := t\<rparr>, self'))"

text \<open>The loop \<open>for record in ...: record._delete()\<close> over a queryset fetched before
  the loop.\<close>

fun delete_each :: "row list \<Rightarrow> db \<Rightarrow> error + db" where
  "delete_each [] d = Inr d"
| "delete_each (record # records) d =
     (case u_delete d record of Inl e \<Rightarrow> Inl e | Inr d' \<Rightarrow> delete_each records d')"

definition purge :: "db \<Rightarrow> row \<Rightarrow> error + db" where
  "purge d self =
     (case delete_each
             (filter (\<lambda>r. r ''row_id'' = self ''row_id'' \<and> r ''id'' \<noteq> self ''id'')
                (PointInTimeBaseManager_get_queryset (rows (main d))))
             d of
        Inl e \<Rightarrow> Inl e
      | Inr d1 \<Rightarrow> u_delete d1 self)"

definition clean :: "row \<Rightarrow> error + unit" where
  "clean self =
     (case (self ''end_at'', self ''start_at'') of
        (IntV e, IntV s) \<Rightarrow>
          if e \<le> s then Inl (ValidationError ''end_at must be > start_at'') else Inr ()
      | (Null, _) \<Rightarrow> Inr ()
      | _ \<Rightarrow> Inl (TypeError ''not supported between these instances''))"

subsection \<open>Rollback\<close>

text \<open>
  \<open>order_by("-created_at", "-pk").first()\<close>: the row that is greatest by creation
  time, then by key; \<open>None\<close> on an empty queryset.
\<close>

fun val_less :: "val \<Rightarrow> val \<Rightarrow> bool" where
  "val_less (IntV a) (IntV b) = (a < b)"
| "val_less _ _ = False"

definition sorts_before :: "row \<Rightarrow> row \<Rightarrow> bool" where
  "sorts_before x y =
     (val_less (y ''created_at'') (x ''created_at'')
      \<or> (x ''created_at'' = y ''created_at'' \<and> val_less (y ''id'') (x ''id'')))"

definition order_by_desc_first :: "row list \<Rightarrow> row option" where
  "order_by_desc_first qs =
     (case qs of
        [] \<Rightarrow> None
      | r # rs \<Rightarrow> Some (foldl (\<lambda>best x. if sorts_before x best then x else best) r rs))"

text \<open>A \<open>DateTimeField\<close> lookup prepares its argument: a datetime is taken as it is,
  a pure date becomes midnight at the start of that day in the default time zone, and
  any other object gives what the field makes of it.\<close>

definition get_prep_value :: "pytime \<Rightarrow> error + int" where
  "get_prep_value time =
     (case time of
        Datetime t \<Rightarrow> Inr t
      | Date d \<Rightarrow> Inr (d * usec_per_day)
      | NotATime r \<Rightarrow> r)"

text \<open>One pass of the loop of \<open>_rollback_to\<close> over a field \<open>f\<close>.\<close>

definition revert_field ::
  "string list option \<Rightarrow> string list \<Rightarrow> row \<Rightarrow> row \<Rightarrow> field \<Rightarrow> row" where
  "revert_field fields' exclude previous self f =
     (if (case fields' of None \<Rightarrow> False | Some fs \<Rightarrow> name f \<notin> set fs) then self
      else if name f \<in> set exclude then self
      else if primary_key f then self
      else self(name f := previous (name f)))"

definition revert_fields ::
  "meta \<Rightarrow> string list option \<Rightarrow> string list option \<Rightarrow> row \<Rightarrow> row \<Rightarrow> row" where
  "revert_fields model fields' exclude previous self =
     foldl (revert_field fields'
              ((case exclude of None \<Rightarrow> [] | Some ex \<Rightarrow> ex) @ get_one_to_one_fields model)
              previous)
       self (concrete_fields model @ private_fields model)"

definition u_rollback_to ::
  "meta \<Rightarrow> db \<Rightarrow> row \<Rightarrow> row \<Rightarrow> string list option \<Rightarrow> string list option
     \<Rightarrow> error + (db \<times> row)" where
  "u_rollback_to model d self previous fields' exclude =
     (if self ''id'' = previous ''id'' then
        Inl (PyException ''Cannot rollback to the same version of a row'')
      else if self ''replaced_at'' \<noteq> Null then
        Inl (PyException ''Can only rollback a most recent version of a row'')
      else
        (case (self ''created_at'', previous ''created_at'') of
           (IntV c, IntV p) \<Rightarrow>
             if \<not> p < c then Inl AssertionError
             else
               (case move_frozen_relationships d previous
                       ((revert_fields model fields' exclude previous self)
                          (''replaced_at'' := Null, ''created_at'' := IntV p)) of
                  Inl e \<Rightarrow> Inl e
                | Inr d1 \<Rightarrow>
                    (case delete_each
                            (filter
                               (\<lambda>r. lookup_gte (r ''created_at'') p
                                  \<and> r ''row_id'' =
                                      (revert_fields model fields' exclude previous self) ''row_id''
                                  \<and> r ''id'' \<noteq>
                                      (revert_fields model fields' exclude previous self) ''id'')
                               (PointInTimeBaseManager_get_queryset (rows (main d1))))
                            d1 of
                       Inl e \<Rightarrow> Inl e
                     | Inr d2 \<Rightarrow>
                         (case u_save (main d2)
                                 ((revert_fields model fields' exclude previous self)
                                    (''replaced_at'' := Null, ''created_at'' := IntV p)) of
                            (t3, self') \<Rightarrow> Inr (d2\<lparr>main := t3\<rparr>, self'))))
         | _ \<Rightarrow> Inl (TypeError ''not supported between these instances'')))"

definition rollback_to_at ::
  "meta \<Rightarrow> db \<Rightarrow> row \<Rightarrow> pytime \<Rightarrow> string list option \<Rightarrow> string list option
     \<Rightarrow> error + (db \<times> row)" where
  "rollback_to_at model d self time fields' exclude =
     (case self ''created_at'' of
        IntV c \<Rightarrow>
          if length (filter (\<lambda>r. r ''row_id'' = self ''row_id'' \<and> lookup_gte (r ''created_at'') c)
                       (PointInTimeBaseManager_get_queryset (rows (main d)))) \<noteq> 1
          then Inl AssertionError
          else
            (case get_prep_value time of
               Inl e \<Rightarrow> Inl e
             | Inr t \<Rightarrow>
                 (case order_by_desc_first
                         (filter (\<lambda>r. r ''row_id'' = self ''row_id''
                                     \<and> lookup_lte (r ''created_at'') t)
                            (PointInTimeBaseManager_get_queryset (rows (main d)))) of
                    None \<Rightarrow>
                      (case purge d self of Inl e \<Rightarrow> Inl e | Inr d' \<Rightarrow> Inr (d', self))
                  | Some target \<Rightarrow>
                      if target ''id'' = self ''id'' then Inr (d, self)
                      else u_rollback_to model d self target fields' exclude))
      | _ \<Rightarrow> Inl (ValueError ''Cannot use None as a query value''))"

definition rollback_latest ::
  "meta \<Rightarrow> db \<Rightarrow> row \<Rightarrow> string list option \<Rightarrow> string list option
     \<Rightarrow> error + (db \<times> row)" where
  "rollback_latest model d self fields' exclude =
     (case order_by_desc_first
             (filter (\<lambda>r. r ''row_id'' = self ''row_id'' \<and> r ''id'' \<noteq> self ''id'')
                (PointInTimeBaseManager_get_queryset (rows (main d)))) of
        None \<Rightarrow>
          (case u_delete d self of
             Inl e \<Rightarrow> Inl e
           | Inr d' \<Rightarrow> Inr (d', self))
      | Some previous \<Rightarrow> u_rollback_to model d self previous fields' exclude)"

section \<open>utils.py and the rollback action of api.py\<close>

text \<open>
  At the request boundary the code reads a datetime object by its own clock:
  \<open>PyDatetime w off\<close> has the wall-clock reading \<open>w\<close>, in microseconds since the epoch
  of that clock, and the offset \<open>off\<close> of its zone from the default zone, \<open>None\<close> for a
  naive datetime. \<open>value.time()\<close> and \<open>value.date()\<close> are the time of day and the day of
  the reading. An aware datetime denotes the timestamp \<open>w - off\<close>; a naive one is read
  by the lookups in the default zone, so it denotes \<open>w\<close>. An object that is neither a
  datetime nor a date carries what a \<open>DateTimeField\<close> makes of it, as for \<open>NotATime\<close>.
\<close>

datatype pyvalue = PyDatetime int "int option" | PyDate int | PyOther "error + int"

definition instant :: "int \<Rightarrow> int option \<Rightarrow> int" where
  "instant w off = (case off of None \<Rightarrow> w | Some x \<Rightarrow> w - x)"

text \<open>The value as a model method receives it.\<close>

definition as_pytime :: "pyvalue \<Rightarrow> pytime" where
  "as_pytime v =
     (case v of
        PyDatetime w off \<Rightarrow> Datetime (instant w off)
      | PyDate d \<Rightarrow> Date d
      | PyOther r \<Rightarrow> NotATime r)"

definition date_or_datetime :: "pyvalue option \<Rightarrow> error + pyvalue option" where
  "date_or_datetime v =
     (case v of
        None \<Rightarrow> Inr None
      | Some (PyDate d) \<Rightarrow> Inr (Some (PyDate d))
      | Some (PyOther r) \<Rightarrow> Inl (TypeError ''value must be a datetime or date object'')
      | Some (PyDatetime w off) \<Rightarrow>
          if time_is_min w then Inr (Some (PyDate (date_of w)))
          else Inr (Some (PyDatetime w off)))"

text \<open>
  What a request carries for a time parameter: a datetime object (reading and offset),
  a date object, a string, nothing, or any other object. \<open>fromisoformat\<close> is the parser
  of ISO strings: \<open>None\<close> where it raises \<open>ValueError\<close>, else the reading and the offset
  from the default zone of the zone that the string names, \<open>None\<close> when it names no
  zone; it reads a string of the form yyyy-mm-dd as midnight of that day, without zone. \<open>current_tz\<close> is the offset of the
  active time zone from the default zone, 0 unless a zone has been activated.
  \<open>timezone.make_aware\<close> puts a naive datetime into the active zone and raises
  \<open>ValueError\<close> on a datetime that is aware already.
\<close>

datatype web = WebDatetime int "int option" | WebDate int | WebStr string | WebNone | WebOther

definition make_aware :: "int \<Rightarrow> int \<Rightarrow> int option \<Rightarrow> error + pyvalue" where
  "make_aware current_tz w off =
     (case off of
        None \<Rightarrow> Inr (PyDatetime w (Some current_tz))
      | Some x \<Rightarrow> Inl (ValueError ''make_aware expects a naive datetime''))"

definition datetime_from_web ::
  "(string \<Rightarrow> (int \<times> int option) option) \<Rightarrow> int \<Rightarrow> web \<Rightarrow> error + pyvalue option" where
  "datetime_from_web fromisoformat current_tz date =
     (case date of
        WebDatetime w off \<Rightarrow>
          (case make_aware current_tz w off of Inl e \<Rightarrow> Inl e | Inr v \<Rightarrow> Inr (Some v))
      | WebDate d \<Rightarrow>
          (case make_aware current_tz (d * usec_per_day + 0) None of
             Inl e \<Rightarrow> Inl e
           | Inr v \<Rightarrow> Inr (Some v))
      | WebStr s \<Rightarrow>
          (case fromisoformat s of
             None \<Rightarrow> Inr None
           | Some (w, None) \<Rightarrow>
               (case make_aware current_tz w None of Inl e \<Rightarrow> Inl e | Inr v \<Rightarrow> Inr (Some v))
           | Some (w, Some off) \<Rightarrow> Inr (Some (PyDatetime w (Some off))))
      | WebNone \<Rightarrow> Inr None
      | WebOther \<Rightarrow> Inr None)"

text \<open>The \<open>rollback\<close> action on the instance that \<open>get_object\<close> returned, up to the
  call of the model's rollback.\<close>

definition PointInTimeModelViewSet_rollback ::
  "(string \<Rightarrow> (int \<times> int option) option) \<Rightarrow> int \<Rightarrow> meta \<Rightarrow> db \<Rightarrow> row \<Rightarrow> web
     \<Rightarrow> string list option \<Rightarrow> string list option \<Rightarrow> error + (db \<times> row)" where
  "PointInTimeModelViewSet_rollback fromisoformat current_tz model d inst time_param
       fields' exclude =
     (case datetime_from_web fromisoformat current_tz time_param of
        Inl e \<Rightarrow> Inl e
      | Inr v \<Rightarrow>
          (case date_or_datetime v of
             Inl e \<Rightarrow> Inl e
           | Inr None \<Rightarrow> rollback_latest model d inst fields' exclude
           | Inr (Some time) \<Rightarrow> rollback_to_at model d inst (as_pytime time) fields' exclude))"

section \<open>Example data\<close>

text \<open>A model with the fields of the abstract model, a text field \<open>c1\<close> and a
  one-to-one field \<open>partner\<close>; and its rows by key, row group, creation time,
  replacement time, text and partner.\<close>

definition ex_meta :: meta where
  "ex_meta =
     \<lparr>get_fields =
        [\<lparr>name = ''id'', primary_key = True, one_to_one = False\<rparr>,
         \<lparr>name = ''row_id'', primary_key = False, one_to_one = False\<rparr>,
         \<lparr>name = ''created_at'', primary_key = False, one_to_one = False\<rparr>,
         \<lparr>name = ''replaced_at'', primary_key = False, one_to_one = False\<rparr>,
         \<lparr>name = ''modified_by'', primary_key = False, one_to_one = False\<rparr>,
         \<lparr>name = ''start_at'', primary_key = False, one_to_one = False\<rparr>,
         \<lparr>name = ''end_at'', primary_key = False, one_to_one = False\<rparr>,
         \<lparr>name = ''c1'', primary_key = False, one_to_one = False\<rparr>,
         \<lparr>name = ''partner'', primary_key = False, one_to_one = True\<rparr>],
      concrete_fields =
        [\<lparr>name = ''id'', primary_key = True, one_to_one = False\<rparr>,
         \<lparr>name = ''row_id'', primary_key = False, one_to_one = False\<rparr>,
         \<lparr>name = ''created_at'', primary_key = False, one_to_one = False\<rparr>,
         \<lparr>name = ''replaced_at'', primary_key = False, one_to_one = False\<rparr>,
         \<lparr>name = ''modified_by'', primary_key = False, one_to_one = False\<rparr>,
         \<lparr>name = ''start_at'', primary_key = False, one_to_one = False\<rparr>,
         \<lparr>name = ''end_at'', primary_key = False, one_to_one = False\<rparr>,
         \<lparr>name = ''c1'', primary_key = False, one_to_one = False\<rparr>,
         \<lparr>name = ''partner'', primary_key = False, one_to_one = True\<rparr>],
      private_fields = []\<rparr>"

definition ex_row :: "int \<Rightarrow> int \<Rightarrow> int \<Rightarrow> val \<Rightarrow> string \<Rightarrow> val \<Rightarrow> row" where
  "ex_row k g c rep s partner =
     (\<lambda>_. Null)(''id'' := IntV k, ''row_id'' := IntV g, ''created_at'' := IntV c,
                ''replaced_at'' := rep, ''start_at'' := IntV 5, ''c1'' := StrV s,
                ''partner'' := partner)"

definition ex_db :: db where
  "ex_db =
     \<lparr>main = \<lparr>rows = [ex_row 1 1 10 Null ''first'' (IntV 7)], next_id = 2\<rparr>,
      referrers =
        [\<lparr>fk_name = ''frozen'', frozen = True, is_pita = False, on_delete = PROTECT,
          db_constraint = True,
          ref_table = \<lparr>rows = [(\<lambda>_. Null)(''id'' := IntV 1, ''frozen'' := IntV 1)],
                       next_id = 2\<rparr>\<rparr>]\<rparr>"

definition ex_db1 :: db where
  "ex_db1 =
     \<lparr>main = \<lparr>rows = [ex_row 1 1 20 Null ''second'' (IntV 7),
                      ex_row 2 1 10 (IntV 20) ''first'' Null],
              next_id = 3\<rparr>,
      referrers =
        [\<lparr>fk_name = ''frozen'', frozen = True, is_pita = False, on_delete = PROTECT,
          db_constraint = True,
          ref_table = \<lparr>rows = [(\<lambda>_. Null)(''id'' := IntV 1, ''frozen'' := IntV 2)],
                       next_id = 2\<rparr>\<rparr>]\<rparr>"

text \<open>Two more databases: one whose frozen reference points at the current version
  of key 1, and one whose referencing model is itself versioned, with a current and a
  replaced referencing row. The frozen keys are declared with \<open>on_delete=PROTECT\<close>, as
  those of \<open>tests/models.py\<close> are.\<close>

definition ex_db2 :: db where
  "ex_db2 =
     \<lparr>main = \<lparr>rows = [ex_row 1 1 20 Null ''second'' (IntV 7),
                      ex_row 2 1 10 (IntV 20) ''first'' Null],
              next_id = 3\<rparr>,
      referrers =
        [\<lparr>fk_name = ''frozen'', frozen = True, is_pita = False, on_delete = PROTECT,
          db_constraint = True,
          ref_table = \<lparr>rows = [(\<lambda>_. Null)(''id'' := IntV 1, ''frozen'' := IntV 1)],
                       next_id = 2\<rparr>\<rparr>]\<rparr>"

definition ex_db3 :: db where
  "ex_db3 =
     \<lparr>main = \<lparr>rows = [ex_row 1 1 10 Null ''first'' (IntV 7)], next_id = 2\<rparr>,
      referrers =
        [\<lparr>fk_name = ''frozen'', frozen = True, is_pita = True, on_delete = PROTECT,
          db_constraint = True,
          ref_table =
            \<lparr>rows = [(\<lambda>_. Null)(''id'' := IntV 1, ''row_id'' := IntV 1, ''created_at'' := IntV 12,
                               ''frozen'' := IntV 1),
                      (\<lambda>_. Null)(''id'' := IntV 2, ''row_id'' := IntV 1, ''created_at'' := IntV 11,
                               ''replaced_at'' := IntV 12, ''frozen'' := IntV 1)],
             next_id = 3\<rparr>\<rparr>]\<rparr>"

text \<open>Three databases without a protecting key: one with no relation at all; one
  whose two versions of row group 1 are referred to by an ordinary foreign key with
  \<open>on_delete=CASCADE\<close>; and one whose only row is referred to by a frozen key with
  \<open>on_delete=SET_NULL\<close>.\<close>

definition ex_db0 :: db where
  "ex_db0 =
     \<lparr>main = \<lparr>rows = [ex_row 1 1 20 Null ''second'' (IntV 7),
                      ex_row 2 1 10 (IntV 20) ''first'' Null],
              next_id = 3\<rparr>,
      referrers = []\<rparr>"



section \<open>Properties of the query engine\<close>

lemma lookup_lte_iff: "lookup_lte v t \<longleftrightarrow> (\<exists>s. v = IntV s \<and> s \<le> t)"
  by (cases v) auto

lemma lookup_gt_iff: "lookup_gt v t \<longleftrightarrow> (\<exists>e. v = IntV e \<and> t < e)"
  by (cases v) auto

lemma lookup_gte_iff: "lookup_gte v t \<longleftrightarrow> (\<exists>e. v = IntV e \<and> t \<le> e)"
  by (cases v) auto

text \<open>
  C6. For a datetime \<open>at\<close>, \<open>active(at)\<close> of either manager returns exactly the rows
  of the table with \<open>replaced_at\<close> null, \<open>start_at \<le> at\<close>, and \<open>end_at\<close> null or
  strictly greater than \<open>at\<close>. So a row with \<open>start_at = at\<close> is returned and a row
  with \<open>end_at = at\<close> is not.
\<close>

theorem active_exact:
  "PointInTimeBaseManager_active now tbl (Some (Datetime at)) =
     Inr (filter (\<lambda>r. r ''replaced_at'' = Null
                     \<and> (\<exists>s. r ''start_at'' = IntV s \<and> s \<le> at)
                     \<and> (r ''end_at'' = Null \<or> (\<exists>e. r ''end_at'' = IntV e \<and> at < e))) tbl)
   \<and> PointInTimeDefaultManager_active now tbl (Some (Datetime at)) =
     Inr (filter (\<lambda>r. r ''replaced_at'' = Null
                     \<and> (\<exists>s. r ''start_at'' = IntV s \<and> s \<le> at)
                     \<and> (r ''end_at'' = Null \<or> (\<exists>e. r ''end_at'' = IntV e \<and> at < e))) tbl)"
  unfolding PointInTimeBaseManager_active_def PointInTimeDefaultManager_active_def
    PointInTimeQuerySet_active_def PointInTimeBaseManager_get_queryset_def
    PointInTimeDefaultManager_get_queryset_def PointInTimeQuerySet_current_def
  by (auto simp: lookup_lte_iff lookup_gt_iff isnull_def intro!: filter_cong)

lemma date_of_combine_time_max: "date_of (combine_time_max d) = d"
  unfolding date_of_def combine_time_max_def usec_per_day_def by simp

lemma date_of_next_instant: "date_of (combine_time_max d + 1) = d + 1"
  unfolding date_of_def combine_time_max_def usec_per_day_def by simp

text \<open>
  C7. For a datetime \<open>t\<close>, \<open>version(t)\<close> returns exactly the rows with
  \<open>created_at \<le> t\<close> and \<open>replaced_at\<close> null or strictly greater than \<open>t\<close>. For a
  pure date \<open>d\<close>, \<open>version\<close> and \<open>active\<close> answer as for the datetime
  \<open>combine_time_max d\<close>, which is the last instant of day \<open>d\<close>: it lies on day \<open>d\<close>
  and the next microsecond lies on day \<open>d + 1\<close>.
\<close>

theorem version_exact:
  "PointInTimeBaseManager_version tbl (Datetime t) =
     Inr (filter (\<lambda>r. (\<exists>c. r ''created_at'' = IntV c \<and> c \<le> t)
                     \<and> (r ''replaced_at'' = Null \<or> (\<exists>x. r ''replaced_at'' = IntV x \<and> t < x))) tbl)
   \<and> PointInTimeBaseManager_version tbl (Date d) =
       PointInTimeBaseManager_version tbl (Datetime (combine_time_max d))
   \<and> PointInTimeQuerySet_active now tbl (Some (Date d)) =
       PointInTimeQuerySet_active now tbl (Some (Datetime (combine_time_max d)))
   \<and> date_of (combine_time_max d) = d
   \<and> date_of (combine_time_max d + 1) = d + 1"
proof -
  have p: "\<And>r::row. ((lookup_gt (r ''replaced_at'') t \<or> isnull (r ''replaced_at''))
                   \<and> lookup_lte (r ''created_at'') t)
        \<longleftrightarrow> ((\<exists>c. r ''created_at'' = IntV c \<and> c \<le> t)
             \<and> (r ''replaced_at'' = Null \<or> (\<exists>x. r ''replaced_at'' = IntV x \<and> t < x)))"
    by (auto simp: lookup_lte_iff lookup_gt_iff isnull_def)
  show ?thesis
    unfolding PointInTimeBaseManager_version_def PointInTimeQuerySet_version_def
      PointInTimeQuerySet_active_def PointInTimeBaseManager_get_queryset_def
    by (simp add: p date_of_combine_time_max date_of_next_instant)
qed

section \<open>The loop of the core revert step\<close>

lemma revert_field_other: "n \<noteq> name f \<Longrightarrow> revert_field F E p s f n = s n"
  by (simp add: revert_field_def)

lemma foldl_revert_other:
  "n \<notin> name ` set fs \<Longrightarrow> foldl (revert_field F E p) s fs n = s n"
  by (induction fs arbitrary: s) (auto simp: revert_field_other)

lemma foldl_revert_at:
  "distinct (map name fs) \<Longrightarrow> f \<in> set fs \<Longrightarrow>
     foldl (revert_field F E p) s fs (name f) = revert_field F E p s f (name f)"
proof (induction fs arbitrary: s)
  case Nil
  then show ?case by simp
next
  case (Cons g gs)
  show ?case
  proof (cases "f = g")
    case True
    with Cons.prems have "name f \<notin> name ` set gs" by auto
    then show ?thesis using True by (simp add: foldl_revert_other)
  next
    case False
    with Cons.prems have fin: "f \<in> set gs" and d: "distinct (map name gs)" by auto
    have "name g \<notin> set (map name gs)" using Cons.prems(1) by simp
    moreover have "name f \<in> set (map name gs)" using fin by simp
    ultimately have ne: "name f \<noteq> name g" by metis
    have "foldl (revert_field F E p) (revert_field F E p s g) gs (name f)
            = revert_field F E p (revert_field F E p s g) f (name f)"
      using Cons.IH[OF d fin] .
    also have "\<dots> = revert_field F E p s f (name f)"
      using ne by (simp add: revert_field_def)
    finally show ?thesis by simp
  qed
qed

lemma one_to_one_name_iff:
  assumes "distinct (map name fs)" and "f \<in> set fs"
  shows "name f \<in> set (map name (filter one_to_one fs)) \<longleftrightarrow> one_to_one f"
proof
  assume "name f \<in> set (map name (filter one_to_one fs))"
  then obtain g where g: "g \<in> set fs" "one_to_one g" "name g = name f" by auto
  with assms have "g = f" by (meson distinct_map inj_onD)
  with g show "one_to_one f" by simp
next
  assume "one_to_one f"
  with assms(2) show "name f \<in> set (map name (filter one_to_one fs))" by auto
qed

lemma revert_fields_at:
  assumes "distinct (map name (get_fields model))"
    and "set (concrete_fields model) \<subseteq> set (get_fields model)"
    and "distinct (map name (concrete_fields model @ private_fields model))"
    and "f \<in> set (concrete_fields model)"
  shows "revert_fields model fields' exclude previous self (name f) =
           (if \<not> primary_key f \<and> \<not> one_to_one f
               \<and> name f \<notin> set (case exclude of None \<Rightarrow> [] | Some ex \<Rightarrow> ex)
               \<and> (fields' = None \<or> name f \<in> set (the fields'))
            then previous (name f) else self (name f))"
proof -
  have f_all: "f \<in> set (get_fields model)" using assms(2,4) by auto
  have f_chain: "f \<in> set (concrete_fields model @ private_fields model)"
    using assms(4) by simp
  have o: "name f \<in> set (get_one_to_one_fields model) \<longleftrightarrow> one_to_one f"
    unfolding get_one_to_one_fields_def using one_to_one_name_iff[OF assms(1) f_all] .
  show ?thesis
    unfolding revert_fields_def foldl_revert_at[OF assms(3) f_chain]
    using o by (cases fields') (auto simp: revert_field_def)
qed

section \<open>Update by save\<close>

lemma fold_null:
  "fold (\<lambda>field_name i. i(field_name := Null)) ex i n = (if n \<in> set ex then Null else i n)"
  by (induction ex arbitrary: i) auto

lemma filter_key_unique:
  "distinct (map key xs) \<Longrightarrow> x \<in> set xs \<Longrightarrow> filter (\<lambda>r. key r = key x) xs = [x]"
proof (induction xs)
  case Nil
  then show ?case by simp
next
  case (Cons y ys)
  show ?case
  proof (cases "x = y")
    case True
    have "key y \<notin> key ` set ys" using Cons.prems(1) by simp
    then have "\<forall>r \<in> set ys. key r \<noteq> key y" by (metis imageI)
    with True have "\<forall>r \<in> set ys. key r \<noteq> key x" by simp
    then have "filter (\<lambda>r. key r = key x) ys = []" by (simp add: filter_empty_conv)
    with True show ?thesis by simp
  next
    case False
    with Cons.prems have xin: "x \<in> set ys" and d: "distinct (map key ys)" by auto
    have "key y \<notin> set (map key ys)" using Cons.prems(1) by simp
    moreover have "key x \<in> set (map key ys)" using xin by simp
    ultimately have "key y \<noteq> key x" by metis
    with Cons.IH[OF d xin] show ?thesis by simp
  qed
qed

lemma Model_save_insert:
  "x ''id'' = Null \<Longrightarrow>
     Model_save t x =
       (t\<lparr>rows := rows t @ [x(''id'' := IntV (next_id t))], next_id := next_id t + 1\<rparr>,
        x(''id'' := IntV (next_id t)))"
  by (simp add: Model_save_def)

lemma Model_save_update:
  "x ''id'' \<noteq> Null \<Longrightarrow> r \<in> set (rows t) \<Longrightarrow> r ''id'' = x ''id'' \<Longrightarrow>
     Model_save t x = (t\<lparr>rows := map (\<lambda>r. if r ''id'' = x ''id'' then x else r) (rows t)\<rparr>, x)"
  by (auto simp: Model_save_def)

text \<open>The clone that an update of the row \<open>old\<close> writes.\<close>

lemma copy_current:
  assumes "distinct (map (\<lambda>r. r ''id'') (rows t))"
    and "old \<in> set (rows t)" and "old ''id'' = self ''id''" and "old ''replaced_at'' = Null"
  shows "copy t self exclude =
           (t\<lparr>rows := rows t @ [(fold (\<lambda>field_name i. i(field_name := Null)) exclude
                                     (old(''id'' := Null)))(''id'' := IntV (next_id t))],
               next_id := next_id t + 1\<rparr>,
            Some ((fold (\<lambda>field_name i. i(field_name := Null)) exclude
                     (old(''id'' := Null)))(''id'' := IntV (next_id t))))"
proof -
  have a: "filter (\<lambda>r. r ''id'' = self ''id'') (rows t) = [old]"
    using filter_key_unique[OF assms(1,2)] assms(3) by simp
  have "filter (\<lambda>r. r ''id'' = self ''id'') (filter (\<lambda>r. isnull (r ''replaced_at'')) (rows t))
          = filter (\<lambda>r. isnull (r ''replaced_at'')) (filter (\<lambda>r. r ''id'' = self ''id'') (rows t))"
    by (simp add: conj_commute)
  also have "\<dots> = [old]"
    unfolding a using assms(4) by (simp add: isnull_def)
  finally have "filter (\<lambda>r. r ''id'' = self ''id'')
                  (filter (\<lambda>r. isnull (r ''replaced_at'')) (rows t)) = [old]" .
  moreover have "(fold (\<lambda>field_name i. i(field_name := Null)) exclude (old(''id'' := Null))) ''id''
                   = Null"
    by (simp add: fold_null)
  ultimately show ?thesis
    by (simp add: copy_def PointInTimeDefaultManager_copy_def
        PointInTimeDefaultManager_current_def PointInTimeDefaultManager_get_queryset_def
        PointInTimeQuerySet_current_def Model_save_insert)
qed


lemma map_replace_absent:
  "\<forall>r \<in> set xs. key r \<noteq> k \<Longrightarrow> map (\<lambda>r. if key r = k then c else r) xs = xs"
  by (induction xs) auto

lemma map_replace_twice:
  "key a = k \<Longrightarrow>
     map (\<lambda>r. if key r = k then b else r) (map (\<lambda>r. if key r = k then a else r) xs)
       = map (\<lambda>r. if key r = k then b else r) xs"
  by (induction xs) auto

lemma save_tail_update:
  assumes "self ''id'' = IntV k" and "old \<in> set (rows (main d))" and "old ''id'' = IntV k"
  shows "\<exists>v'. save_tail now user d self =
                 (d\<lparr>main := (main d)\<lparr>rows := map (\<lambda>r. if r ''id'' = IntV k then v' else r)
                                                (rows (main d))\<rparr>\<rparr>, v')
            \<and> v' ''id'' = IntV k \<and> v' ''replaced_at'' = Null \<and> v' ''created_at'' = IntV now
            \<and> v' ''row_id'' = (if self ''row_id'' = Null then IntV k else self ''row_id'')"
proof -
  define a where "a = self(''created_at'' := IntV now, ''replaced_at'' := Null,
      ''modified_by'' := (if user \<noteq> Null then user else self ''modified_by''),
      ''start_at'' := (if self ''start_at'' \<noteq> Null then self ''start_at'' else IntV now))"
  have a_id: "a ''id'' = IntV k" using assms(1) by (simp add: a_def)
  have s1: "u_save (main d) a =
              ((main d)\<lparr>rows := map (\<lambda>r. if r ''id'' = IntV k then a else r) (rows (main d))\<rparr>, a)"
    unfolding u_save_def
    using Model_save_update[of a old "main d"] a_id assms(2,3) by simp
  show ?thesis
  proof (cases "a ''row_id'' = Null")
    case False
    then have "save_tail now user d self =
                 (d\<lparr>main := (main d)\<lparr>rows := map (\<lambda>r. if r ''id'' = IntV k then a else r)
                                                (rows (main d))\<rparr>\<rparr>, a)"
      unfolding save_tail_def a_def[symmetric] s1 by simp
    moreover have "a ''replaced_at'' = Null" "a ''created_at'' = IntV now"
      by (simp_all add: a_def)
    moreover have "a ''row_id'' = (if self ''row_id'' = Null then IntV k else self ''row_id'')"
      using False by (simp add: a_def)
    ultimately show ?thesis using a_id by blast
  next
    case True
    define b where "b = a(''row_id'' := a ''id'')"
    have b_id: "b ''id'' = IntV k" using a_id by (simp add: b_def)
    define t1 where "t1 = (main d)\<lparr>rows := map (\<lambda>r. if r ''id'' = IntV k then a else r)
                                              (rows (main d))\<rparr>"
    have "a \<in> set (rows t1)" using assms(2,3) by (force simp: t1_def)
    then have s2: "u_save t1 b =
              (t1\<lparr>rows := map (\<lambda>r. if r ''id'' = IntV k then b else r) (rows t1)\<rparr>, b)"
      unfolding u_save_def
      using Model_save_update[of b a t1] a_id b_id by simp
    have "rows (t1\<lparr>rows := map (\<lambda>r. if r ''id'' = IntV k then b else r) (rows t1)\<rparr>)
            = map (\<lambda>r. if r ''id'' = IntV k then b else r) (rows (main d))"
      using map_replace_twice[of "\<lambda>r. r ''id''" a "IntV k" b "rows (main d)"] a_id
      by (simp add: t1_def)
    then have t2: "t1\<lparr>rows := map (\<lambda>r. if r ''id'' = IntV k then b else r) (rows t1)\<rparr>
            = (main d)\<lparr>rows := map (\<lambda>r. if r ''id'' = IntV k then b else r) (rows (main d))\<rparr>"
      by (simp add: t1_def)
    have "save_tail now user d self =
            (d\<lparr>main := (main d)\<lparr>rows := map (\<lambda>r. if r ''id'' = IntV k then b else r)
                                           (rows (main d))\<rparr>\<rparr>, b)"
      unfolding save_tail_def a_def[symmetric] s1 t1_def[symmetric]
      using True s2 t2 by (simp add: b_def)
    moreover have "b ''replaced_at'' = Null" "b ''created_at'' = IntV now"
      by (simp_all add: a_def b_def)
    moreover have "b ''row_id'' = (if self ''row_id'' = Null then IntV k else self ''row_id'')"
      using True a_id by (simp add: a_def b_def)
    ultimately show ?thesis using b_id by blast
  qed
qed


lemma save_update_eq:
  fixes d :: db and model :: meta and now :: int and self old :: row and k :: int
  defines "clone \<equiv> (fold (\<lambda>field_name i. i(field_name := Null)) (get_one_to_one_fields model)
                        (old(''id'' := Null)))
                     (''id'' := IntV (next_id (main d)), ''replaced_at'' := IntV now,
                      ''row_id'' := IntV k)"
  assumes dk: "distinct (map (\<lambda>r. r ''id'') (rows (main d)))"
    and fresh: "\<forall>r \<in> set (rows (main d)). r ''id'' \<noteq> IntV (next_id (main d))"
    and pk: "self ''id'' = IntV k" and cur: "self ''replaced_at'' = Null"
    and old: "old \<in> set (rows (main d))" "old ''id'' = IntV k" "old ''replaced_at'' = Null"
  shows "\<exists>v'. save model now user d self =
           Inr (d\<lparr>main := (main d)\<lparr>rows := map (\<lambda>r. if r ''id'' = IntV k then v' else r)
                                             (rows (main d)) @ [clone],
                                    next_id := next_id (main d) + 1\<rparr>,
                  referrers := map (move_frozen_relationships_of self clone) (referrers d)\<rparr>, v')
         \<and> v' ''id'' = IntV k \<and> v' ''replaced_at'' = Null \<and> v' ''created_at'' = IntV now
            \<and> v' ''row_id'' = (if self ''row_id'' = Null then IntV k else self ''row_id'')"
proof -
  define c0 where "c0 = (fold (\<lambda>field_name i. i(field_name := Null)) (get_one_to_one_fields model)
                           (old(''id'' := Null)))(''id'' := IntV (next_id (main d)))"
  define t1 where "t1 = (main d)\<lparr>rows := rows (main d) @ [c0], next_id := next_id (main d) + 1\<rparr>"
  define t2 where "t2 = (main d)\<lparr>rows := rows (main d) @ [clone], next_id := next_id (main d) + 1\<rparr>"
  have cp: "copy (main d) self (get_one_to_one_fields model) = (t1, Some c0)"
    using copy_current[OF dk old(1) _ old(3), of self "get_one_to_one_fields model"] old(2) pk
    by (simp add: t1_def c0_def)
  have cl: "c0(''replaced_at'' := IntV now, ''row_id'' := IntV k) = clone"
    by (simp add: c0_def clone_def)
  have clone_id: "clone ''id'' = IntV (next_id (main d))" by (simp add: clone_def)
  have c0_id: "c0 ''id'' = IntV (next_id (main d))" by (simp add: c0_def)
  have "map (\<lambda>r. if r ''id'' = IntV (next_id (main d)) then clone else r) (rows (main d))
          = rows (main d)"
    using map_replace_absent[of "rows (main d)" "\<lambda>r. r ''id''" "IntV (next_id (main d))" clone] fresh
    by simp
  then have us: "u_save t1 clone = (t2, clone)"
    unfolding u_save_def
    using Model_save_update[of clone c0 t1] clone_id c0_id
    by (simp add: t1_def t2_def)
  have nek: "IntV (next_id (main d)) \<noteq> IntV k" using fresh old(1,2) by metis
  define d3 where "d3 = d\<lparr>main := t2,
      referrers := map (move_frozen_relationships_of self clone) (referrers d)\<rparr>"
  have mv: "move_frozen_relationships (d\<lparr>main := t2\<rparr>) self clone = Inr d3"
    using pk by (simp add: move_frozen_relationships_def d3_def)
  have old3: "old \<in> set (rows (main d3))" using old(1) by (simp add: d3_def t2_def)
  from save_tail_update[where self=self and k=k and old=old and d=d3 and now=now and user=user]
    pk old3 old(2)
  obtain v' where tl: "save_tail now user d3 self =
        (d3\<lparr>main := (main d3)\<lparr>rows := map (\<lambda>r. if r ''id'' = IntV k then v' else r)
                                         (rows (main d3))\<rparr>\<rparr>, v')"
    and v: "v' ''id'' = IntV k" "v' ''replaced_at'' = Null" "v' ''created_at'' = IntV now"
      "v' ''row_id'' = (if self ''row_id'' = Null then IntV k else self ''row_id'')"
    by blast
  have sv: "save model now user d self = Inr (save_tail now user d3 self)"
    using pk cur by (simp add: save_def cp cl us mv)
  have "d3\<lparr>main := (main d3)\<lparr>rows := map (\<lambda>r. if r ''id'' = IntV k then v' else r)
                                       (rows (main d3))\<rparr>\<rparr>
        = d\<lparr>main := (main d)\<lparr>rows := map (\<lambda>r. if r ''id'' = IntV k then v' else r)
                                       (rows (main d)) @ [clone],
                              next_id := next_id (main d) + 1\<rparr>,
            referrers := map (move_frozen_relationships_of self clone) (referrers d)\<rparr>"
    using nek clone_id by (simp add: d3_def t2_def)
  with sv tl v show ?thesis by simp
qed

text \<open>
  C1. The table has distinct keys, none of them the next key of the sequence, and the
  one-to-one fields are not \<open>id\<close>, \<open>row_id\<close> or \<open>replaced_at\<close>. Let \<open>self\<close> carry the
  key of a stored current row \<open>old\<close> and have \<open>replaced_at\<close> null. Then \<open>save\<close>
  succeeds; the saved version keeps its key, has \<open>replaced_at\<close> null and \<open>created_at\<close>
  the time of the update, and replaces \<open>old\<close> in the table; and the table gains
  exactly one row, under the fresh key: it holds the stored values of \<open>old\<close> in every
  field but the key, \<open>row_id\<close>, \<open>replaced_at\<close> and the one-to-one fields, its
  \<open>replaced_at\<close> is the time of the update, its \<open>row_id\<close> the key of \<open>self\<close>, and its
  one-to-one fields are null.
\<close>

theorem save_update:
  assumes "distinct (map (\<lambda>r. r ''id'') (rows (main d)))"
    and "\<forall>r \<in> set (rows (main d)). r ''id'' \<noteq> IntV (next_id (main d))"
    and "self ''id'' = IntV k" and "self ''replaced_at'' = Null"
    and "old \<in> set (rows (main d))" and "old ''id'' = IntV k" and "old ''replaced_at'' = Null"
    and "set (get_one_to_one_fields model) \<inter> {''id'', ''row_id'', ''replaced_at''} = {}"
  shows "\<exists>d' v' clone.
      save model now user d self = Inr (d', v')
    \<and> v' ''id'' = IntV k \<and> v' ''replaced_at'' = Null \<and> v' ''created_at'' = IntV now
    \<and> rows (main d') = map (\<lambda>r. if r ''id'' = IntV k then v' else r) (rows (main d)) @ [clone]
    \<and> clone ''id'' = IntV (next_id (main d))
    \<and> clone ''replaced_at'' = IntV now
    \<and> clone ''row_id'' = IntV k
    \<and> (\<forall>n \<in> set (get_one_to_one_fields model). clone n = Null)
    \<and> (\<forall>n. n \<notin> set (get_one_to_one_fields model) \<union> {''id'', ''row_id'', ''replaced_at''}
           \<longrightarrow> clone n = old n)"
proof -
  define clone where "clone = (fold (\<lambda>field_name i. i(field_name := Null))
                        (get_one_to_one_fields model) (old(''id'' := Null)))
                     (''id'' := IntV (next_id (main d)), ''replaced_at'' := IntV now,
                      ''row_id'' := IntV k)"
  from save_update_eq[where d=d and self=self and old=old and k=k and model=model
      and now=now and user=user] assms(1-7)
  obtain v' where sv0: "save model now user d self =
           Inr (d\<lparr>main := (main d)\<lparr>rows := map (\<lambda>r. if r ''id'' = IntV k then v' else r)
                                             (rows (main d)) @ [clone],
                                    next_id := next_id (main d) + 1\<rparr>,
                  referrers := map (move_frozen_relationships_of self clone) (referrers d)\<rparr>, v')"
    and v: "v' ''id'' = IntV k" "v' ''replaced_at'' = Null" "v' ''created_at'' = IntV now"
    unfolding clone_def by blast
  have c1: "clone ''id'' = IntV (next_id (main d))" "clone ''replaced_at'' = IntV now"
    "clone ''row_id'' = IntV k"
    by (simp_all add: clone_def)
  have c2: "\<forall>n \<in> set (get_one_to_one_fields model). clone n = Null"
    using assms(8) by (auto simp: clone_def fold_null)
  have c3: "\<forall>n. n \<notin> set (get_one_to_one_fields model) \<union> {''id'', ''row_id'', ''replaced_at''}
           \<longrightarrow> clone n = old n"
    by (auto simp: clone_def fold_null)
  define d' where "d' = d\<lparr>main := (main d)\<lparr>rows := map (\<lambda>r. if r ''id'' = IntV k then v' else r)
                                             (rows (main d)) @ [clone],
                                    next_id := next_id (main d) + 1\<rparr>,
                  referrers := map (move_frozen_relationships_of self clone) (referrers d)\<rparr>"
  have sv: "save model now user d self = Inr (d', v')" using sv0 by (simp add: d'_def)
  have rw: "rows (main d') = map (\<lambda>r. if r ''id'' = IntV k then v' else r) (rows (main d)) @ [clone]"
    by (simp add: d'_def)
  show ?thesis
    using sv rw v c1 c2 c3 by blast
qed


theorem save_update_witness:
  "distinct (map (\<lambda>r. r ''id'') (rows (main ex_db)))
   \<and> ex_row 1 1 10 Null ''second'' (IntV 7) ''id'' = IntV 1
   \<and> ex_row 1 1 10 Null ''second'' (IntV 7) ''replaced_at'' = Null
   \<and> ex_row 1 1 10 Null ''first'' (IntV 7) \<in> set (rows (main ex_db))
   \<and> set (get_one_to_one_fields ex_meta) \<inter> {''id'', ''row_id'', ''replaced_at''} = {}
   \<and> (\<exists>d' v' clone.
        save ex_meta 20 Null ex_db (ex_row 1 1 10 Null ''second'' (IntV 7)) = Inr (d', v')
      \<and> v' ''id'' = IntV 1 \<and> v' ''created_at'' = IntV 20
      \<and> rows (main d') = [v', clone]
      \<and> clone ''id'' = IntV 2 \<and> clone ''replaced_at'' = IntV 20 \<and> clone ''row_id'' = IntV 1
      \<and> clone ''partner'' = Null \<and> clone ''c1'' = StrV ''first'')"
proof -
  have h1: "distinct (map (\<lambda>r. r ''id'') (rows (main ex_db)))" by (simp add: ex_db_def)
  have h2: "\<forall>r \<in> set (rows (main ex_db)). r ''id'' \<noteq> IntV (next_id (main ex_db))"
    by (simp add: ex_db_def ex_row_def)
  have h3: "ex_row 1 1 10 Null ''second'' (IntV 7) ''id'' = IntV 1" by (simp add: ex_row_def)
  have h4: "ex_row 1 1 10 Null ''second'' (IntV 7) ''replaced_at'' = Null"
    by (simp add: ex_row_def)
  have h5: "ex_row 1 1 10 Null ''first'' (IntV 7) \<in> set (rows (main ex_db))"
    by (simp add: ex_db_def)
  have h6: "ex_row 1 1 10 Null ''first'' (IntV 7) ''id'' = IntV 1" by (simp add: ex_row_def)
  have h7: "ex_row 1 1 10 Null ''first'' (IntV 7) ''replaced_at'' = Null"
    by (simp add: ex_row_def)
  have h8: "set (get_one_to_one_fields ex_meta) \<inter> {''id'', ''row_id'', ''replaced_at''} = {}"
    by (simp add: get_one_to_one_fields_def ex_meta_def)
  have o: "''partner'' \<in> set (get_one_to_one_fields ex_meta)"
    "''c1'' \<notin> set (get_one_to_one_fields ex_meta) \<union> {''id'', ''row_id'', ''replaced_at''}"
    by (simp_all add: get_one_to_one_fields_def ex_meta_def)
  from save_update[OF h1 h2 h3 h4 h5 h6 h7 h8, of 20 Null]
  obtain d' v' clone where r:
    "save ex_meta 20 Null ex_db (ex_row 1 1 10 Null ''second'' (IntV 7)) = Inr (d', v')"
    "v' ''id'' = IntV 1" "v' ''created_at'' = IntV 20"
    "rows (main d') = map (\<lambda>r. if r ''id'' = IntV 1 then v' else r) (rows (main ex_db)) @ [clone]"
    "clone ''id'' = IntV (next_id (main ex_db))" "clone ''replaced_at'' = IntV 20"
    "clone ''row_id'' = IntV 1"
    "\<forall>n \<in> set (get_one_to_one_fields ex_meta). clone n = Null"
    "\<forall>n. n \<notin> set (get_one_to_one_fields ex_meta) \<union> {''id'', ''row_id'', ''replaced_at''}
           \<longrightarrow> clone n = ex_row 1 1 10 Null ''first'' (IntV 7) n"
    by blast
  have "rows (main d') = [v', clone]" using r(4) by (simp add: ex_db_def ex_row_def)
  moreover have "clone ''id'' = IntV 2" using r(5) by (simp add: ex_db_def)
  moreover have "clone ''partner'' = Null" using r(8) o(1) by blast
  moreover have "clone ''c1'' = StrV ''first''" using r(9) o(2) by (simp add: ex_row_def)
  ultimately show ?thesis using h1 h3 h4 h5 h8 r(1,2,3,6,7) by blast
qed

section \<open>Transaction-time intervals under update\<close>

lemma version_Datetime_mem:
  "PointInTimeBaseManager_version rs (Datetime t) = Inr qs \<Longrightarrow>
     r \<in> set qs \<longleftrightarrow>
       r \<in> set rs \<and> (lookup_gt (r ''replaced_at'') t \<or> r ''replaced_at'' = Null)
         \<and> lookup_lte (r ''created_at'') t"
  by (auto simp: PointInTimeBaseManager_version_def PointInTimeQuerySet_version_def
      PointInTimeBaseManager_get_queryset_def isnull_def)

lemma version_Datetime_total:
  "\<exists>qs. PointInTimeBaseManager_version rs (Datetime t) = Inr qs"
  by (simp add: PointInTimeBaseManager_version_def PointInTimeQuerySet_version_def)

text \<open>
  C9, as amended. In an update, the clone's \<open>replaced_at\<close> and the saved version's
  \<open>created_at\<close> are the same captured time, so they are equal: the interval of the
  clone ends where the interval of the saved version begins. And the update keeps the
  query \<open>version\<close> single-valued per row group when the captured time is not earlier
  than the stored \<open>created_at\<close>: when, before the update, \<open>version(t)\<close> returns at
  most one row of each row group for every instant \<open>t\<close>, the stored current row
  belongs to the group of its own key, the instance carries that row id or none, and
  the captured time is at or after the stored \<open>created_at\<close>, then after the update
  \<open>version(t)\<close> again returns at most one row of each row group for every \<open>t\<close>.
\<close>

theorem save_update_intervals:
  assumes dk: "distinct (map (\<lambda>r. r ''id'') (rows (main d)))"
    and fresh: "\<forall>r \<in> set (rows (main d)). r ''id'' \<noteq> IntV (next_id (main d))"
    and pk: "self ''id'' = IntV k" and cur: "self ''replaced_at'' = Null"
    and grp: "self ''row_id'' = IntV k \<or> self ''row_id'' = Null"
    and old: "old \<in> set (rows (main d))" "old ''id'' = IntV k" "old ''replaced_at'' = Null"
    and oldg: "old ''row_id'' = IntV k"
    and oldc: "old ''created_at'' = IntV c" and mono: "c \<le> now"
    and inv: "\<forall>t qs. PointInTimeBaseManager_version (rows (main d)) (Datetime t) = Inr qs \<longrightarrow>
                (\<forall>r1 \<in> set qs. \<forall>r2 \<in> set qs. r1 ''row_id'' = r2 ''row_id'' \<longrightarrow> r1 ''id'' = r2 ''id'')"
  shows "\<exists>d' v' clone.
      save model now user d self = Inr (d', v')
    \<and> rows (main d') = map (\<lambda>r. if r ''id'' = IntV k then v' else r) (rows (main d)) @ [clone]
    \<and> clone ''replaced_at'' = IntV now \<and> v' ''created_at'' = IntV now
    \<and> clone ''replaced_at'' = v' ''created_at''
    \<and> (\<forall>t qs. PointInTimeBaseManager_version (rows (main d')) (Datetime t) = Inr qs \<longrightarrow>
          (\<forall>r1 \<in> set qs. \<forall>r2 \<in> set qs. r1 ''row_id'' = r2 ''row_id'' \<longrightarrow> r1 ''id'' = r2 ''id''))"
proof -
  define clone where "clone = (fold (\<lambda>field_name i. i(field_name := Null))
                        (get_one_to_one_fields model) (old(''id'' := Null)))
                     (''id'' := IntV (next_id (main d)), ''replaced_at'' := IntV now,
                      ''row_id'' := IntV k)"
  from save_update_eq[where d=d and self=self and old=old and k=k and model=model
      and now=now and user=user] dk fresh pk cur old
  obtain v' where sv0: "save model now user d self =
           Inr (d\<lparr>main := (main d)\<lparr>rows := map (\<lambda>r. if r ''id'' = IntV k then v' else r)
                                             (rows (main d)) @ [clone],
                                    next_id := next_id (main d) + 1\<rparr>,
                  referrers := map (move_frozen_relationships_of self clone) (referrers d)\<rparr>, v')"
    and v: "v' ''id'' = IntV k" "v' ''replaced_at'' = Null" "v' ''created_at'' = IntV now"
      "v' ''row_id'' = (if self ''row_id'' = Null then IntV k else self ''row_id'')"
    unfolding clone_def by blast
  define d' where "d' = d\<lparr>main := (main d)\<lparr>rows := map (\<lambda>r. if r ''id'' = IntV k then v' else r)
                                             (rows (main d)) @ [clone],
                                    next_id := next_id (main d) + 1\<rparr>,
                  referrers := map (move_frozen_relationships_of self clone) (referrers d)\<rparr>"
  have sv: "save model now user d self = Inr (d', v')" using sv0 by (simp add: d'_def)
  have rw: "rows (main d') = map (\<lambda>r. if r ''id'' = IntV k then v' else r) (rows (main d)) @ [clone]"
    by (simp add: d'_def)
  have vg: "v' ''row_id'' = IntV k" using v(4) grp by auto
  have cl: "clone ''id'' = IntV (next_id (main d))" "clone ''replaced_at'' = IntV now"
    "clone ''row_id'' = IntV k"
    by (simp_all add: clone_def)
  have clc: "clone ''created_at'' = IntV c \<or> clone ''created_at'' = Null"
    using oldc by (simp add: clone_def fold_null)
  have nek: "next_id (main d) \<noteq> k" using fresh old(1,2) by auto
  \<comment> \<open>the rows of the new table\<close>
  have mem: "\<And>r. r \<in> set (rows (main d')) \<Longrightarrow>
               r = clone \<or> r = v' \<or> (r \<in> set (rows (main d)) \<and> r ''id'' \<noteq> IntV k)"
    unfolding rw by auto
  \<comment> \<open>an unchanged row of the group of \<open>k\<close> never covers an instant that \<open>old\<close> covers\<close>
  have excl: "\<And>r t. r \<in> set (rows (main d)) \<Longrightarrow> r ''id'' \<noteq> IntV k \<Longrightarrow> r ''row_id'' = IntV k \<Longrightarrow>
                 (lookup_gt (r ''replaced_at'') t \<or> r ''replaced_at'' = Null) \<Longrightarrow>
                 lookup_lte (r ''created_at'') t \<Longrightarrow> c \<le> t \<Longrightarrow> False"
  proof -
    fix r t
    assume r: "r \<in> set (rows (main d))" "r ''id'' \<noteq> IntV k" "r ''row_id'' = IntV k"
      "lookup_gt (r ''replaced_at'') t \<or> r ''replaced_at'' = Null"
      "lookup_lte (r ''created_at'') t" "c \<le> t"
    obtain qs where qs: "PointInTimeBaseManager_version (rows (main d)) (Datetime t) = Inr qs"
      using version_Datetime_total by blast
    have "r \<in> set qs" using version_Datetime_mem[OF qs] r by simp
    moreover have "old \<in> set qs"
      using version_Datetime_mem[OF qs] old oldc r(6) by simp
    ultimately have "r ''id'' = old ''id''" using inv qs r(3) oldg by metis
    then show False using r(2) old(2) by simp
  qed
  have after: "\<forall>t qs. PointInTimeBaseManager_version (rows (main d')) (Datetime t) = Inr qs \<longrightarrow>
          (\<forall>r1 \<in> set qs. \<forall>r2 \<in> set qs. r1 ''row_id'' = r2 ''row_id'' \<longrightarrow> r1 ''id'' = r2 ''id'')"
  proof (intro allI impI ballI)
    fix t qs r1 r2
    assume qs: "PointInTimeBaseManager_version (rows (main d')) (Datetime t) = Inr qs"
      and r1: "r1 \<in> set qs" and r2: "r2 \<in> set qs" and g: "r1 ''row_id'' = r2 ''row_id''"
    obtain qs0 where qs0: "PointInTimeBaseManager_version (rows (main d)) (Datetime t) = Inr qs0"
      using version_Datetime_total by blast
    have m1: "r1 \<in> set (rows (main d'))"
      "lookup_gt (r1 ''replaced_at'') t \<or> r1 ''replaced_at'' = Null" "lookup_lte (r1 ''created_at'') t"
      using version_Datetime_mem[OF qs] r1 by simp_all
    have m2: "r2 \<in> set (rows (main d'))"
      "lookup_gt (r2 ''replaced_at'') t \<or> r2 ''replaced_at'' = Null" "lookup_lte (r2 ''created_at'') t"
      using version_Datetime_mem[OF qs] r2 by simp_all
    \<comment> \<open>what covering means for the clone and for the saved version\<close>
    have cov_clone: "\<And>r. r = clone \<Longrightarrow> (lookup_gt (r ''replaced_at'') t \<or> r ''replaced_at'' = Null)
                       \<Longrightarrow> lookup_lte (r ''created_at'') t \<Longrightarrow> c \<le> t \<and> t < now"
      using cl(2) clc by auto
    have cov_v: "\<And>r. r = v' \<Longrightarrow> lookup_lte (r ''created_at'') t \<Longrightarrow> now \<le> t"
      using v(3) by auto
    consider (cc) "r1 = clone" "r2 = clone" | (cv) "r1 = clone" "r2 = v'"
      | (co) "r1 = clone" "r2 \<in> set (rows (main d))" "r2 ''id'' \<noteq> IntV k"
      | (vc) "r1 = v'" "r2 = clone" | (vv) "r1 = v'" "r2 = v'"
      | (vo) "r1 = v'" "r2 \<in> set (rows (main d))" "r2 ''id'' \<noteq> IntV k"
      | (oc) "r1 \<in> set (rows (main d))" "r1 ''id'' \<noteq> IntV k" "r2 = clone"
      | (ov) "r1 \<in> set (rows (main d))" "r1 ''id'' \<noteq> IntV k" "r2 = v'"
      | (oo) "r1 \<in> set (rows (main d))" "r1 ''id'' \<noteq> IntV k"
             "r2 \<in> set (rows (main d))" "r2 ''id'' \<noteq> IntV k"
      using mem[OF m1(1)] mem[OF m2(1)] by blast
    then show "r1 ''id'' = r2 ''id''"
    proof cases
      case cc then show ?thesis by simp
    next
      case cv
      then show ?thesis using cov_clone[OF cv(1) m1(2,3)] cov_v[OF cv(2) m2(3)] by simp
    next
      case co
      have "c \<le> t" using cov_clone[OF co(1) m1(2,3)] by simp
      moreover have "r2 ''row_id'' = IntV k" using g co(1) cl(3) by simp
      ultimately show ?thesis using excl[OF co(2,3) _ m2(2,3)] by blast
    next
      case vc
      then show ?thesis using cov_clone[OF vc(2) m2(2,3)] cov_v[OF vc(1) m1(3)] by simp
    next
      case vv then show ?thesis by simp
    next
      case vo
      have "c \<le> t" using cov_v[OF vo(1) m1(3)] mono by simp
      moreover have "r2 ''row_id'' = IntV k" using g vo(1) vg by simp
      ultimately show ?thesis using excl[OF vo(2,3) _ m2(2,3)] by blast
    next
      case oc
      have "c \<le> t" using cov_clone[OF oc(3) m2(2,3)] by simp
      moreover have "r1 ''row_id'' = IntV k" using g oc(3) cl(3) by simp
      ultimately show ?thesis using excl[OF oc(1,2) _ m1(2,3)] by blast
    next
      case ov
      have "c \<le> t" using cov_v[OF ov(3) m2(3)] mono by simp
      moreover have "r1 ''row_id'' = IntV k" using g ov(3) vg by simp
      ultimately show ?thesis using excl[OF ov(1,2) _ m1(2,3)] by blast
    next
      case oo
      have "r1 \<in> set qs0" using version_Datetime_mem[OF qs0] oo(1) m1(2,3) by simp
      moreover have "r2 \<in> set qs0" using version_Datetime_mem[OF qs0] oo(3) m2(2,3) by simp
      ultimately show ?thesis using inv qs0 g by metis
    qed
  qed
  show ?thesis
    using sv rw cl(2) v(3) after by (intro exI[of _ d'] exI[of _ v'] exI[of _ clone]) simp
qed


theorem save_update_intervals_witness:
  "distinct (map (\<lambda>r. r ''id'') (rows (main ex_db1)))
   \<and> ex_row 1 1 20 Null ''second'' (IntV 7) \<in> set (rows (main ex_db1))
   \<and> (20::int) \<le> 30
   \<and> (\<exists>d' v' clone.
        save ex_meta 30 Null ex_db1 (ex_row 1 1 20 Null ''third'' (IntV 7)) = Inr (d', v')
      \<and> clone ''replaced_at'' = v' ''created_at''
      \<and> (\<forall>t qs. PointInTimeBaseManager_version (rows (main d')) (Datetime t) = Inr qs \<longrightarrow>
            (\<forall>r1 \<in> set qs. \<forall>r2 \<in> set qs. r1 ''row_id'' = r2 ''row_id'' \<longrightarrow> r1 ''id'' = r2 ''id'')))"
proof -
  have h1: "distinct (map (\<lambda>r. r ''id'') (rows (main ex_db1)))"
    by (simp add: ex_db1_def ex_row_def)
  have h2: "\<forall>r \<in> set (rows (main ex_db1)). r ''id'' \<noteq> IntV (next_id (main ex_db1))"
    by (simp add: ex_db1_def ex_row_def)
  have h3: "ex_row 1 1 20 Null ''third'' (IntV 7) ''id'' = IntV 1" by (simp add: ex_row_def)
  have h4: "ex_row 1 1 20 Null ''third'' (IntV 7) ''replaced_at'' = Null"
    by (simp add: ex_row_def)
  have h5: "ex_row 1 1 20 Null ''third'' (IntV 7) ''row_id'' = IntV 1
              \<or> ex_row 1 1 20 Null ''third'' (IntV 7) ''row_id'' = Null"
    by (simp add: ex_row_def)
  have h6: "ex_row 1 1 20 Null ''second'' (IntV 7) \<in> set (rows (main ex_db1))"
    by (simp add: ex_db1_def)
  have h7: "ex_row 1 1 20 Null ''second'' (IntV 7) ''id'' = IntV 1"
    "ex_row 1 1 20 Null ''second'' (IntV 7) ''replaced_at'' = Null"
    "ex_row 1 1 20 Null ''second'' (IntV 7) ''row_id'' = IntV 1"
    "ex_row 1 1 20 Null ''second'' (IntV 7) ''created_at'' = IntV 20"
    by (simp_all add: ex_row_def)
  have h8: "(20::int) \<le> 30" by simp
  have h9: "\<forall>t qs. PointInTimeBaseManager_version (rows (main ex_db1)) (Datetime t) = Inr qs \<longrightarrow>
              (\<forall>r1 \<in> set qs. \<forall>r2 \<in> set qs. r1 ''row_id'' = r2 ''row_id'' \<longrightarrow> r1 ''id'' = r2 ''id'')"
    by (auto simp: PointInTimeBaseManager_version_def PointInTimeQuerySet_version_def
        PointInTimeBaseManager_get_queryset_def isnull_def ex_db1_def ex_row_def
        split: if_splits)
  from save_update_intervals[OF h1 h2 h3 h4 h5 h6 h7 h8 h9, of ex_meta Null]
  show ?thesis using h1 h6 h8 by blast
qed

text \<open>
  The claim as stated fails when the captured time is earlier than the stored
  \<open>created_at\<close>; \<open>save\<close> never compares the two. The current version of key 1 was
  created at 20 and its older version covers the instants from 10 up to 20; before
  the update \<open>version(17)\<close> returns the older version only. An update at the captured
  time 15 gives the current version the interval from 15 on, and the clone the
  interval from 20 to 15; after it \<open>version(17)\<close> returns two versions of row group 1.
\<close>

theorem save_clock_behind_counterexample:
  "(case PointInTimeBaseManager_version (rows (main ex_db1)) (Datetime 17) of
      Inl e \<Rightarrow> False
    | Inr qs \<Rightarrow> map (\<lambda>r. (r ''id'', r ''row_id'')) qs = [(IntV 2, IntV 1)])
   \<and> (case save ex_meta 15 Null ex_db1 (ex_row 1 1 20 Null ''third'' (IntV 7)) of
        Inl e \<Rightarrow> False
      | Inr (d', v') \<Rightarrow>
          map (\<lambda>r. (r ''id'', r ''row_id'', r ''created_at'', r ''replaced_at''))
            (rows (main d'))
            = [(IntV 1, IntV 1, IntV 15, Null), (IntV 2, IntV 1, IntV 10, IntV 20),
               (IntV 3, IntV 1, IntV 20, IntV 15)]
        \<and> (case PointInTimeBaseManager_version (rows (main d')) (Datetime 17) of
             Inl e \<Rightarrow> False
           | Inr qs \<Rightarrow>
               map (\<lambda>r. (r ''id'', r ''row_id'')) qs = [(IntV 1, IntV 1), (IntV 2, IntV 1)]))"
proof -
  have a: "(case PointInTimeBaseManager_version (rows (main ex_db1)) (Datetime 17) of
      Inl e \<Rightarrow> False
    | Inr qs \<Rightarrow> map (\<lambda>r. (r ''id'', r ''row_id'')) qs = [(IntV 2, IntV 1)])"
    by (simp add: PointInTimeBaseManager_version_def PointInTimeQuerySet_version_def
        PointInTimeBaseManager_get_queryset_def isnull_def ex_db1_def ex_row_def)
  have b: "(case save ex_meta 15 Null ex_db1 (ex_row 1 1 20 Null ''third'' (IntV 7)) of
        Inl e \<Rightarrow> False
      | Inr (d', v') \<Rightarrow>
          map (\<lambda>r. (r ''id'', r ''row_id'', r ''created_at'', r ''replaced_at''))
            (rows (main d'))
            = [(IntV 1, IntV 1, IntV 15, Null), (IntV 2, IntV 1, IntV 10, IntV 20),
               (IntV 3, IntV 1, IntV 20, IntV 15)]
        \<and> (case PointInTimeBaseManager_version (rows (main d')) (Datetime 17) of
             Inl e \<Rightarrow> False
           | Inr qs \<Rightarrow>
               map (\<lambda>r. (r ''id'', r ''row_id'')) qs = [(IntV 1, IntV 1), (IntV 2, IntV 1)]))"
    by (simp add: save_def save_tail_def copy_def PointInTimeDefaultManager_copy_def
      PointInTimeDefaultManager_current_def PointInTimeDefaultManager_get_queryset_def
      PointInTimeQuerySet_current_def isnull_def
      move_frozen_relationships_def move_frozen_relationships_of_def
      related_manager_all_def repoint_related_def u_save_def Model_save_def
      get_one_to_one_fields_def PointInTimeBaseManager_version_def
      PointInTimeQuerySet_version_def PointInTimeBaseManager_get_queryset_def
      ex_meta_def ex_db1_def ex_row_def)
  from a b show ?thesis by (rule conjI)
qed

section \<open>Deletion under referential actions\<close>

lemma on_delete_apply_attrs:
  "fk_name (on_delete_apply k rf) = fk_name rf"
  "frozen (on_delete_apply k rf) = frozen rf"
  "is_pita (on_delete_apply k rf) = is_pita rf"
  "on_delete (on_delete_apply k rf) = on_delete rf"
  "db_constraint (on_delete_apply k rf) = db_constraint rf"
  by (simp_all add: on_delete_apply_def split: on_delete.splits)

lemma refuses_on_delete_apply: "refuses (on_delete_apply k rf) = refuses rf"
  by (simp add: refuses_def on_delete_apply_attrs)

lemma on_delete_apply_refuses: "refuses rf \<Longrightarrow> on_delete_apply k rf = rf"
  by (auto simp: refuses_def on_delete_apply_def)

lemma Model_delete_ok:
  assumes "x ''id'' \<noteq> Null" and "\<not> refused d (x ''id'')"
  shows "Model_delete d x =
           Inr (d\<lparr>main := (main d)\<lparr>rows := filter (\<lambda>r. r ''id'' \<noteq> x ''id'') (rows (main d))\<rparr>,
                  referrers := map (on_delete_apply (x ''id'')) (referrers d)\<rparr>)"
proof -
  have n: "\<And>rf. rf \<in> set (referrers d) \<Longrightarrow> refuses rf \<Longrightarrow> related_objects rf (x ''id'') = []"
    using assms(2) unfolding refused_def by blast
  have 1: "\<not> (\<exists>rf \<in> set (referrers d).
                on_delete rf = PROTECT \<and> related_objects rf (x ''id'') \<noteq> [])"
    using n unfolding refuses_def by blast
  have 2: "\<not> (\<exists>rf \<in> set (referrers d).
                on_delete rf = RESTRICT \<and> related_objects rf (x ''id'') \<noteq> [])"
    using n unfolding refuses_def by blast
  have 3: "\<not> (\<exists>rf \<in> set (referrers d).
                on_delete rf = DO_NOTHING \<and> db_constraint rf
                \<and> related_objects rf (x ''id'') \<noteq> [])"
    using n unfolding refuses_def by blast
  show ?thesis unfolding Model_delete_def using assms(1) 1 2 3 by simp
qed

lemma Model_delete_Inr:
  assumes "Model_delete d x = Inr d'"
  shows "x ''id'' \<noteq> Null \<and> \<not> refused d (x ''id'')
       \<and> d' = d\<lparr>main := (main d)\<lparr>rows := filter (\<lambda>r. r ''id'' \<noteq> x ''id'') (rows (main d))\<rparr>,
                  referrers := map (on_delete_apply (x ''id'')) (referrers d)\<rparr>"
proof -
  have k: "x ''id'' \<noteq> Null" using assms by (auto simp: Model_delete_def split: if_splits)
  have 1: "\<not> (\<exists>rf \<in> set (referrers d).
                on_delete rf = PROTECT \<and> related_objects rf (x ''id'') \<noteq> [])"
    using assms k by (auto simp: Model_delete_def split: if_splits)
  have 2: "\<not> (\<exists>rf \<in> set (referrers d).
                on_delete rf = RESTRICT \<and> related_objects rf (x ''id'') \<noteq> [])"
    using assms k 1 by (auto simp: Model_delete_def split: if_splits)
  have 3: "\<not> (\<exists>rf \<in> set (referrers d).
                on_delete rf = DO_NOTHING \<and> db_constraint rf
                \<and> related_objects rf (x ''id'') \<noteq> [])"
    using assms k 1 2 by (auto simp: Model_delete_def split: if_splits)
  have r: "\<not> refused d (x ''id'')"
    unfolding refused_def refuses_def using 1 2 3 by blast
  from Model_delete_ok[where x=x and d=d] k r assms show ?thesis by simp
qed

lemma refused_after_delete:
  "refused (d\<lparr>main := m, referrers := map (on_delete_apply k) (referrers d)\<rparr>) j = refused d j"
proof -
  have e: "\<And>rf. (refuses (on_delete_apply k rf) \<and> related_objects (on_delete_apply k rf) j \<noteq> [])
              = (refuses rf \<and> related_objects rf j \<noteq> [])"
  proof -
    fix rf
    show "(refuses (on_delete_apply k rf) \<and> related_objects (on_delete_apply k rf) j \<noteq> [])
              = (refuses rf \<and> related_objects rf j \<noteq> [])"
    proof (cases "refuses rf")
      case True
      then show ?thesis by (simp add: on_delete_apply_refuses)
    next
      case False
      then show ?thesis by (simp add: refuses_on_delete_apply)
    qed
  qed
  show ?thesis unfolding refused_def by (simp add: e)
qed

lemma filter_keys_cons:
  "filter (\<lambda>x. x ''id'' \<notin> (\<lambda>r. r ''id'') ` set qs) (filter (\<lambda>r. r ''id'' \<noteq> q ''id'') xs)
     = filter (\<lambda>x. (x::row) ''id'' \<notin> (\<lambda>r. r ''id'') ` set (q # qs)) xs"
  by (auto intro!: filter_cong)

lemma delete_each_ok:
  "\<forall>q \<in> set qs. q ''id'' \<noteq> Null \<and> \<not> refused d (q ''id'') \<Longrightarrow>
     \<exists>d'. delete_each qs d = Inr d'
        \<and> main d' = (main d)\<lparr>rows := filter (\<lambda>x. x ''id'' \<notin> (\<lambda>r. r ''id'') ` set qs)
                                        (rows (main d))\<rparr>
        \<and> (\<forall>j. refused d' j = refused d j)"
proof (induction qs arbitrary: d)
  case Nil
  then show ?case by simp
next
  case (Cons q qs)
  define d1 where "d1 = d\<lparr>main := (main d)\<lparr>rows := filter (\<lambda>r. r ''id'' \<noteq> q ''id'') (rows (main d))\<rparr>,
                          referrers := map (on_delete_apply (q ''id'')) (referrers d)\<rparr>"
  have q: "q ''id'' \<noteq> Null" "\<not> refused d (q ''id'')" using Cons.prems by simp_all
  have st: "u_delete d q = Inr d1"
    unfolding u_delete_def d1_def using Model_delete_ok[where x=q and d=d] q by simp
  have rf: "\<And>j. refused d1 j = refused d j" unfolding d1_def by (rule refused_after_delete)
  have "\<forall>x \<in> set qs. x ''id'' \<noteq> Null \<and> \<not> refused d1 (x ''id'')"
    using Cons.prems by (simp add: rf)
  from Cons.IH[OF this] obtain d' where d':
    "delete_each qs d1 = Inr d'"
    "main d' = (main d1)\<lparr>rows := filter (\<lambda>x. x ''id'' \<notin> (\<lambda>r. r ''id'') ` set qs)
                                     (rows (main d1))\<rparr>"
    "\<forall>j. refused d' j = refused d1 j" by blast
  have a: "delete_each (q # qs) d = Inr d'" using st d'(1) by simp
  have m1: "main d1 = (main d)\<lparr>rows := filter (\<lambda>r. r ''id'' \<noteq> q ''id'') (rows (main d))\<rparr>"
    by (simp add: d1_def)
  have b0: "main d' = (main d)\<lparr>rows := filter (\<lambda>x. x ''id'' \<notin> (\<lambda>r. r ''id'') ` set qs)
                                         (filter (\<lambda>r. r ''id'' \<noteq> q ''id'') (rows (main d)))\<rparr>"
    unfolding d'(2) m1 by simp
  have b: "main d' = (main d)\<lparr>rows := filter (\<lambda>x. x ''id'' \<notin> (\<lambda>r. r ''id'') ` set (q # qs))
                                        (rows (main d))\<rparr>"
    using b0 unfolding filter_keys_cons .
  have c: "\<forall>j. refused d' j = refused d j" using d'(3) rf by simp
  from a b c show ?case by blast
qed

lemma delete_each_Inr:
  "delete_each qs d = Inr d' \<Longrightarrow>
     (\<forall>q \<in> set qs. q ''id'' \<noteq> Null)
   \<and> main d' = (main d)\<lparr>rows := filter (\<lambda>x. x ''id'' \<notin> (\<lambda>r. r ''id'') ` set qs)
                                   (rows (main d))\<rparr>
   \<and> referrers d' = map (\<lambda>rf. foldl (\<lambda>a q. on_delete_apply (q ''id'') a) rf qs) (referrers d)"
proof (induction qs arbitrary: d)
  case Nil
  then show ?case by simp
next
  case (Cons q qs)
  from Cons.prems obtain d1 where st: "Model_delete d q = Inr d1" and rest: "delete_each qs d1 = Inr d'"
    by (cases "Model_delete d q") (simp_all add: u_delete_def)
  from Model_delete_Inr[OF st] have q: "q ''id'' \<noteq> Null"
    and d1: "d1 = d\<lparr>main := (main d)\<lparr>rows := filter (\<lambda>r. r ''id'' \<noteq> q ''id'') (rows (main d))\<rparr>,
                    referrers := map (on_delete_apply (q ''id'')) (referrers d)\<rparr>"
    by simp_all
  from Cons.IH[OF rest] have ih:
    "\<forall>x \<in> set qs. x ''id'' \<noteq> Null"
    "main d' = (main d1)\<lparr>rows := filter (\<lambda>x. x ''id'' \<notin> (\<lambda>r. r ''id'') ` set qs)
                                     (rows (main d1))\<rparr>"
    "referrers d' = map (\<lambda>rf. foldl (\<lambda>a q. on_delete_apply (q ''id'') a) rf qs) (referrers d1)"
    by simp_all
  have a: "\<forall>x \<in> set (q # qs). x ''id'' \<noteq> Null" using q ih(1) by simp
  have m1: "main d1 = (main d)\<lparr>rows := filter (\<lambda>r. r ''id'' \<noteq> q ''id'') (rows (main d))\<rparr>"
    by (simp add: d1)
  have b0: "main d' = (main d)\<lparr>rows := filter (\<lambda>x. x ''id'' \<notin> (\<lambda>r. r ''id'') ` set qs)
                                         (filter (\<lambda>r. r ''id'' \<noteq> q ''id'') (rows (main d)))\<rparr>"
    unfolding ih(2) m1 by simp
  have b: "main d' = (main d)\<lparr>rows := filter (\<lambda>x. x ''id'' \<notin> (\<lambda>r. r ''id'') ` set (q # qs))
                                        (rows (main d))\<rparr>"
    using b0 unfolding filter_keys_cons .
  have c: "referrers d' =
             map (\<lambda>rf. foldl (\<lambda>a q. on_delete_apply (q ''id'') a) rf (q # qs)) (referrers d)"
    unfolding ih(3) by (simp add: d1 comp_def)
  from a b c show ?case by (intro conjI)
qed

section \<open>Rollback without a target\<close>







section \<open>Operations on a replaced version\<close>

text \<open>
  C8. \<open>save\<close> and the core revert step refuse a version whose \<open>replaced_at\<close> is set
  (lemmas \<open>save_replaced_fails\<close> and \<open>u_rollback_to_replaced_fails\<close> below), but
  \<open>delete\<close> has no such check: it never fails. On the stored version of key 2, replaced at
  time 20, soft delete at time 40 returns normally and overwrites the stored
  \<open>replaced_at\<close> with 40.
\<close>

theorem delete_replaced_version:
  "ex_row 2 1 10 (IntV 20) ''first'' Null \<in> set (rows (main ex_db1))
   \<and> ex_row 2 1 10 (IntV 20) ''first'' Null ''replaced_at'' = IntV 20
   \<and> map (\<lambda>r. r ''replaced_at'')
        (rows (main (fst (delete 40 ex_db1 (ex_row 2 1 10 (IntV 20) ''first'' Null)))))
       = [Null, IntV 40]
   \<and> snd (delete 40 ex_db1 (ex_row 2 1 10 (IntV 20) ''first'' Null)) ''replaced_at'' = IntV 40"
  by (simp add: delete_def u_save_def Model_save_def ex_db1_def ex_row_def)

lemma delete_never_fails:
  "\<exists>d' v'. delete now d self = (d', v') \<and> v' ''replaced_at'' = IntV now"
  by (auto simp: delete_def u_save_def Model_save_def split: prod.splits if_splits)

lemma save_replaced_fails:
  "self ''id'' \<noteq> Null \<Longrightarrow> self ''replaced_at'' \<noteq> Null \<Longrightarrow>
     save model now user d self = Inl AssertionError"
  by (simp add: save_def)

lemma u_rollback_to_replaced_fails:
  "self ''replaced_at'' \<noteq> Null \<Longrightarrow>
     \<exists>msg. u_rollback_to model d self previous fields' exclude = Inl (PyException msg)"
  by (simp add: u_rollback_to_def)

section \<open>The core revert step\<close>

lemma foldl_revert_keeps_pk:
  "\<forall>f \<in> set fs. name f = n \<longrightarrow> primary_key f \<Longrightarrow>
     foldl (revert_field F E p) s fs n = s n"
  by (induction fs arbitrary: s) (auto simp: revert_field_def)

lemma foldl_revert_same:
  "p n = s n \<Longrightarrow> foldl (revert_field F E p) s fs n = s n"
proof (induction fs arbitrary: s)
  case Nil
  then show ?case by simp
next
  case (Cons f fs)
  have st: "revert_field F E p s f n = s n"
    using Cons.prems by (auto simp: revert_field_def)
  then have "p n = revert_field F E p s f n" using Cons.prems by simp
  with Cons.IH[of "revert_field F E p s f"] st show ?case by simp
qed

lemma Model_save_keyed_rows:
  assumes "x ''id'' \<noteq> Null"
  shows "snd (Model_save t x) = x
       \<and> x \<in> set (rows (fst (Model_save t x)))
       \<and> (\<forall>r. r \<in> set (rows (fst (Model_save t x))) \<longrightarrow> r = x \<or> r \<in> set (rows t))
       \<and> (\<forall>r. r \<in> set (rows t) \<longrightarrow> r ''id'' \<noteq> x ''id'' \<longrightarrow> r \<in> set (rows (fst (Model_save t x))))"
  using assms by (auto simp: Model_save_def)

lemma u_rollback_to_Inr:
  assumes "u_rollback_to model d self previous fields' exclude = Inr (d', v')"
  shows "\<exists>c p d1 d2.
      self ''id'' \<noteq> previous ''id'' \<and> self ''replaced_at'' = Null
    \<and> self ''created_at'' = IntV c \<and> previous ''created_at'' = IntV p \<and> p < c
    \<and> move_frozen_relationships d previous
         ((revert_fields model fields' exclude previous self)
            (''replaced_at'' := Null, ''created_at'' := IntV p)) = Inr d1
    \<and> delete_each
         (filter (\<lambda>r. lookup_gte (r ''created_at'') p
                    \<and> r ''row_id'' = (revert_fields model fields' exclude previous self) ''row_id''
                    \<and> r ''id'' \<noteq> (revert_fields model fields' exclude previous self) ''id'')
            (rows (main d1)))
         d1 = Inr d2
    \<and> u_save (main d2) ((revert_fields model fields' exclude previous self)
                    (''replaced_at'' := Null, ''created_at'' := IntV p)) = (main d', v')
    \<and> d' = d2\<lparr>main := main d'\<rparr>"
proof -
  from assms have a: "self ''id'' \<noteq> previous ''id''" "self ''replaced_at'' = Null"
    by (auto simp: u_rollback_to_def split: if_splits)
  from assms a obtain c p where cp: "self ''created_at'' = IntV c" "previous ''created_at'' = IntV p"
    by (cases "self ''created_at''"; cases "previous ''created_at''")
       (auto simp: u_rollback_to_def)
  from assms a cp have lt: "p < c"
    by (auto simp: u_rollback_to_def split: if_splits)
  define S where "S = (revert_fields model fields' exclude previous self)
                        (''replaced_at'' := Null, ''created_at'' := IntV p)"
  from assms a cp lt have b:
    "(case move_frozen_relationships d previous S of
        Inl e \<Rightarrow> Inl e
      | Inr d1 \<Rightarrow>
          (case delete_each
                  (filter (\<lambda>r. lookup_gte (r ''created_at'') p
                     \<and> r ''row_id'' = (revert_fields model fields' exclude previous self) ''row_id''
                     \<and> r ''id'' \<noteq> (revert_fields model fields' exclude previous self) ''id'')
                     (PointInTimeBaseManager_get_queryset (rows (main d1))))
                  d1 of
             Inl e \<Rightarrow> Inl e
           | Inr d2 \<Rightarrow>
               (case u_save (main d2) S of (t3, self') \<Rightarrow> Inr (d2\<lparr>main := t3\<rparr>, self'))))
      = Inr (d', v')"
    unfolding S_def by (simp add: u_rollback_to_def)
  then obtain d1 where d1: "move_frozen_relationships d previous S = Inr d1"
    by (cases "move_frozen_relationships d previous S") auto
  with b obtain d2 where d2: "delete_each
                  (filter (\<lambda>r. lookup_gte (r ''created_at'') p
                     \<and> r ''row_id'' = (revert_fields model fields' exclude previous self) ''row_id''
                     \<and> r ''id'' \<noteq> (revert_fields model fields' exclude previous self) ''id'')
                     (rows (main d1)))
                  d1 = Inr d2"
    by (auto simp: PointInTimeBaseManager_get_queryset_def split: sum.splits)
  obtain t3 s' where us: "u_save (main d2) S = (t3, s')" by (cases "u_save (main d2) S")
  from b d1 d2 us have "Inr (d2\<lparr>main := t3\<rparr>, s') = Inr (d', v')"
    by (simp add: PointInTimeBaseManager_get_queryset_def)
  then have e: "d' = d2\<lparr>main := t3\<rparr>" "v' = s'" by simp_all
  then have "main d' = t3" by simp
  with us e have "u_save (main d2) S = (main d', v')" "d' = d2\<lparr>main := main d'\<rparr>" by simp_all
  with a cp lt d1 d2 show ?thesis unfolding S_def by blast
qed


lemma move_frozen_relationships_main:
  "move_frozen_relationships d a b = Inr d1 \<Longrightarrow> main d1 = main d"
  by (auto simp: move_frozen_relationships_def split: if_splits)

lemma distinct_key_eq:
  "distinct (map key xs) \<Longrightarrow> x \<in> set xs \<Longrightarrow> y \<in> set xs \<Longrightarrow> key x = key y \<Longrightarrow> x = y"
  by (meson distinct_map inj_onD)

text \<open>
  C2. Let the core revert step succeed on a version \<open>self\<close> that has a key, with a
  target \<open>previous\<close> of the same row group, on a table with distinct keys, for a model
  whose field \<open>id\<close> is its primary key. Then the reverted version \<open>v'\<close> is stored, has
  \<open>replaced_at\<close> null, the target's \<open>created_at\<close>, and the key and row group of
  \<open>self\<close>; no row of the group with \<open>created_at\<close> at or after the target's remains
  but the one under the key of \<open>self\<close>; and every other old row under another key is
  still in the table, as it was: a row is removed only if it is of the group and was
  created at or after the target. So the target and the versions between are
  destroyed and the older versions are untouched.
\<close>

theorem core_revert:
  assumes ok: "u_rollback_to model d self previous fields' exclude = Inr (d', v')"
    and grp: "previous ''row_id'' = self ''row_id''"
    and pkf: "\<forall>f \<in> set (concrete_fields model @ private_fields model).
                name f = ''id'' \<longrightarrow> primary_key f"
    and pk: "self ''id'' \<noteq> Null"
    and dk: "distinct (map (\<lambda>r. r ''id'') (rows (main d)))"
  shows "v' ''replaced_at'' = Null \<and> v' ''created_at'' = previous ''created_at''
    \<and> v' ''id'' = self ''id'' \<and> v' ''row_id'' = self ''row_id''
    \<and> v' \<in> set (rows (main d'))
    \<and> (\<exists>p. previous ''created_at'' = IntV p
         \<and> (\<forall>r \<in> set (rows (main d')).
               r ''row_id'' = self ''row_id'' \<and> lookup_gte (r ''created_at'') p
                 \<longrightarrow> r ''id'' = self ''id'')
         \<and> (\<forall>r \<in> set (rows (main d)). r ''id'' \<noteq> self ''id'' \<longrightarrow>
               (r \<in> set (rows (main d')) \<longleftrightarrow>
                  \<not> (r ''row_id'' = self ''row_id'' \<and> lookup_gte (r ''created_at'') p))))"
proof -
  define R where "R = revert_fields model fields' exclude previous self"
  from u_rollback_to_Inr[where model=model and d=d and self=self and previous=previous
      and fields'=fields' and exclude=exclude and d'=d' and v'=v'] ok
  obtain c p d1 d2 where
    cp: "previous ''created_at'' = IntV p"
    and mv: "move_frozen_relationships d previous
               (R(''replaced_at'' := Null, ''created_at'' := IntV p)) = Inr d1"
    and de: "delete_each
               (filter (\<lambda>r. lookup_gte (r ''created_at'') p \<and> r ''row_id'' = R ''row_id''
                          \<and> r ''id'' \<noteq> R ''id'') (rows (main d1)))
               d1 = Inr d2"
    and us0: "u_save (main d2) (R(''replaced_at'' := Null, ''created_at'' := IntV p))
                = (main d', v')"
    unfolding R_def by blast
  define t2 where "t2 = main d2"
  have us: "u_save t2 (R(''replaced_at'' := Null, ''created_at'' := IntV p)) = (main d', v')"
    using us0 by (simp add: t2_def)
  define S where "S = R(''replaced_at'' := Null, ''created_at'' := IntV p)"
  have Rid: "R ''id'' = self ''id''"
    unfolding R_def revert_fields_def
    using foldl_revert_keeps_pk[where n="''id''" and s=self
        and fs="concrete_fields model @ private_fields model"] pkf
    by (simp del: foldl_append)
  have Rg: "R ''row_id'' = self ''row_id''"
    unfolding R_def revert_fields_def
    using foldl_revert_same[where p=previous and s=self and n="''row_id''"] grp
    by (simp del: foldl_append)
  have S: "S ''id'' = self ''id''" "S ''row_id'' = self ''row_id''" "S ''replaced_at'' = Null"
    "S ''created_at'' = IntV p"
    using Rid Rg by (simp_all add: S_def)
  have m: "main d1 = main d"
    using move_frozen_relationships_main[where d=d and ?d1.0=d1] mv by blast
  define qs where "qs = filter (\<lambda>r. lookup_gte (r ''created_at'') p
                                 \<and> r ''row_id'' = self ''row_id'' \<and> r ''id'' \<noteq> self ''id'')
                          (rows (main d))"
  have de': "delete_each qs d1 = Inr d2" using de by (simp add: m Rid Rg qs_def)
  have t2: "rows t2 = filter (\<lambda>x. x ''id'' \<notin> (\<lambda>r. r ''id'') ` set qs) (rows (main d))"
    using delete_each_Inr[where qs=qs and d=d1 and d'=d2] de' by (simp add: t2_def m)
  have sv: "Model_save t2 S = (main d', v')" using us by (simp add: u_save_def S_def)
  have Sk: "S ''id'' \<noteq> Null" using S(1) pk by simp
  from Model_save_keyed_rows[where t=t2 and x=S] Sk
  have ms: "v' = S \<and> S \<in> set (rows (main d'))
       \<and> (\<forall>r. r \<in> set (rows (main d')) \<longrightarrow> r = S \<or> r \<in> set (rows t2))
       \<and> (\<forall>r. r \<in> set (rows t2) \<longrightarrow> r ''id'' \<noteq> S ''id'' \<longrightarrow> r \<in> set (rows (main d')))"
    unfolding sv by simp
  have v: "v' = S" using ms by simp
  have vin: "S \<in> set (rows (main d'))" using ms by simp
  have sub: "\<And>r. r \<in> set (rows (main d')) \<Longrightarrow> r = S \<or> r \<in> set (rows t2)" using ms by blast
  have keep: "\<And>r. r \<in> set (rows t2) \<Longrightarrow> r ''id'' \<noteq> S ''id'' \<Longrightarrow> r \<in> set (rows (main d'))"
    using ms by blast
  have gone: "\<forall>r \<in> set (rows (main d')).
               r ''row_id'' = self ''row_id'' \<and> lookup_gte (r ''created_at'') p
                 \<longrightarrow> r ''id'' = self ''id''"
  proof (intro ballI impI)
    fix r assume r: "r \<in> set (rows (main d'))"
      and c: "r ''row_id'' = self ''row_id'' \<and> lookup_gte (r ''created_at'') p"
    show "r ''id'' = self ''id''"
    proof (rule ccontr)
      assume ne: "r ''id'' \<noteq> self ''id''"
      then have "r \<noteq> S" using S(1) by auto
      with sub[OF r] have rt: "r \<in> set (rows t2)" by simp
      then have "r \<in> set qs" using c ne by (simp add: t2 qs_def)
      then have "r ''id'' \<in> (\<lambda>r. r ''id'') ` set qs" by (rule imageI)
      with rt show False by (simp add: t2)
    qed
  qed
  have rest: "\<forall>r \<in> set (rows (main d)). r ''id'' \<noteq> self ''id'' \<longrightarrow>
               (r \<in> set (rows (main d')) \<longleftrightarrow>
                  \<not> (r ''row_id'' = self ''row_id'' \<and> lookup_gte (r ''created_at'') p))"
  proof (intro ballI impI iffI)
    fix r assume r: "r \<in> set (rows (main d))" and ne: "r ''id'' \<noteq> self ''id''"
    { assume "r \<in> set (rows (main d'))"
      then show "\<not> (r ''row_id'' = self ''row_id'' \<and> lookup_gte (r ''created_at'') p)"
        using gone ne by blast }
    { assume n: "\<not> (r ''row_id'' = self ''row_id'' \<and> lookup_gte (r ''created_at'') p)"
      have "r ''id'' \<notin> (\<lambda>r. r ''id'') ` set qs"
      proof
        assume "r ''id'' \<in> (\<lambda>r. r ''id'') ` set qs"
        then obtain q where q: "q \<in> set qs" "q ''id'' = r ''id''" by auto
        then have "q \<in> set (rows (main d))" by (simp add: qs_def)
        with distinct_key_eq[where key="\<lambda>r. r ''id''" and xs="rows (main d)" and x=q and y=r]
          dk r q(2) have "q = r" by simp
        with q(1) n show False by (simp add: qs_def)
      qed
      with r have "r \<in> set (rows t2)" by (simp add: t2)
      then show "r \<in> set (rows (main d'))" using keep ne S(1) by simp }
  qed
  have v1: "v' ''replaced_at'' = Null" "v' ''created_at'' = previous ''created_at''"
    "v' ''id'' = self ''id''" "v' ''row_id'' = self ''row_id''" "v' \<in> set (rows (main d'))"
    using v S vin cp by simp_all
  from cp gone rest
  have ex: "\<exists>p. previous ''created_at'' = IntV p
         \<and> (\<forall>r \<in> set (rows (main d')).
               r ''row_id'' = self ''row_id'' \<and> lookup_gte (r ''created_at'') p
                 \<longrightarrow> r ''id'' = self ''id'')
         \<and> (\<forall>r \<in> set (rows (main d)). r ''id'' \<noteq> self ''id'' \<longrightarrow>
               (r \<in> set (rows (main d')) \<longleftrightarrow>
                  \<not> (r ''row_id'' = self ''row_id'' \<and> lookup_gte (r ''created_at'') p)))"
    by (intro exI[of _ p] conjI)
  from v1 ex show ?thesis by (intro conjI)
qed


text \<open>The step succeeds when the versions are distinct, the current one is not
  replaced and was created after the target, stored rows have keys, and no key refuses
  removal.\<close>

lemma u_rollback_to_succeeds:
  assumes "self ''id'' \<noteq> previous ''id''" and "self ''replaced_at'' = Null"
    and "self ''created_at'' = IntV c" and "previous ''created_at'' = IntV p" and "p < c"
    and "previous ''id'' \<noteq> Null"
    and "\<forall>r \<in> set (rows (main d)). r ''id'' \<noteq> Null"
    and "\<forall>rf \<in> set (referrers d). \<not> refuses rf"
  shows "\<exists>d' v'. u_rollback_to model d self previous fields' exclude = Inr (d', v')"
proof -
  define S where "S = (revert_fields model fields' exclude previous self)
                        (''replaced_at'' := Null, ''created_at'' := IntV p)"
  define d1 where "d1 = d\<lparr>referrers := map (move_frozen_relationships_of previous S) (referrers d)\<rparr>"
  define qs where "qs = filter (\<lambda>r. lookup_gte (r ''created_at'') p
            \<and> r ''row_id'' = (revert_fields model fields' exclude previous self) ''row_id''
            \<and> r ''id'' \<noteq> (revert_fields model fields' exclude previous self) ''id'')
                          (rows (main d1))"
  have mv: "move_frozen_relationships d previous S = Inr d1"
    using assms(6) by (simp add: move_frozen_relationships_def d1_def)
  have st: "\<And>rf. refuses (move_frozen_relationships_of previous S rf) = refuses rf"
    by (simp add: move_frozen_relationships_of_def refuses_def)
  have nr: "\<And>k. \<not> refused d1 k"
    using assms(8) by (simp add: refused_def d1_def st)
  have "\<forall>q \<in> set qs. q ''id'' \<noteq> Null \<and> \<not> refused d1 (q ''id'')"
    using assms(7) nr by (simp add: qs_def d1_def)
  from delete_each_ok[OF this]
  obtain d2 where de: "delete_each qs d1 = Inr d2" by blast
  obtain t3 s' where us: "u_save (main d2) S = (t3, s')" by (cases "u_save (main d2) S")
  have "u_rollback_to model d self previous fields' exclude = Inr (d2\<lparr>main := t3\<rparr>, s')"
    using assms(1-5) mv de us
    unfolding u_rollback_to_def S_def qs_def PointInTimeBaseManager_get_queryset_def
    by simp
  then show ?thesis by blast
qed

lemma sum_case_Inr:
  "(case x of Inl e \<Rightarrow> False | Inr r \<Rightarrow> True) \<Longrightarrow> \<exists>d v. x = Inr (d, v)"
  by (cases x) auto

text \<open>On the example database the step succeeds although a frozen key with
  \<open>on_delete=PROTECT\<close> points at the target: the reference is moved to the current
  version before the target is removed.\<close>

lemma ex_db1_revert_ok:
  "\<exists>d' v'. u_rollback_to ex_meta ex_db1 (ex_row 1 1 20 Null ''second'' (IntV 7))
             (ex_row 2 1 10 (IntV 20) ''first'' Null) None None = Inr (d', v')"
proof -
  have "(case u_rollback_to ex_meta ex_db1 (ex_row 1 1 20 Null ''second'' (IntV 7))
             (ex_row 2 1 10 (IntV 20) ''first'' Null) None None of
           Inl e \<Rightarrow> False | Inr r \<Rightarrow> True)"
    by (simp add: u_rollback_to_def move_frozen_relationships_def
      move_frozen_relationships_of_def related_manager_all_def repoint_related_def u_save_def
      Model_save_def u_delete_def Model_delete_def related_objects_def on_delete_apply_def
      revert_fields_def revert_field_def get_one_to_one_fields_def
      PointInTimeBaseManager_get_queryset_def ex_meta_def ex_db1_def ex_row_def)
  then show ?thesis by (rule sum_case_Inr)
qed

lemma ex_db1_revert_some_ok:
  "\<exists>d' v'. u_rollback_to ex_meta ex_db1 (ex_row 1 1 20 Null ''second'' (IntV 7))
             (ex_row 2 1 10 (IntV 20) ''first'' Null) (Some [''c1'', ''start_at''])
             (Some [''c1'']) = Inr (d', v')"
proof -
  have "(case u_rollback_to ex_meta ex_db1 (ex_row 1 1 20 Null ''second'' (IntV 7))
             (ex_row 2 1 10 (IntV 20) ''first'' Null) (Some [''c1'', ''start_at''])
             (Some [''c1'']) of
           Inl e \<Rightarrow> False | Inr r \<Rightarrow> True)"
    by (simp add: u_rollback_to_def move_frozen_relationships_def
      move_frozen_relationships_of_def related_manager_all_def repoint_related_def u_save_def
      Model_save_def u_delete_def Model_delete_def related_objects_def on_delete_apply_def
      revert_fields_def revert_field_def get_one_to_one_fields_def
      PointInTimeBaseManager_get_queryset_def ex_meta_def ex_db1_def ex_row_def)
  then show ?thesis by (rule sum_case_Inr)
qed

theorem core_revert_witness:
  "\<exists>d' v'. u_rollback_to ex_meta ex_db1 (ex_row 1 1 20 Null ''second'' (IntV 7))
             (ex_row 2 1 10 (IntV 20) ''first'' Null) None None = Inr (d', v')
      \<and> v' ''replaced_at'' = Null \<and> v' ''created_at'' = IntV 10 \<and> v' ''id'' = IntV 1
      \<and> v' \<in> set (rows (main d'))
      \<and> ex_row 2 1 10 (IntV 20) ''first'' Null \<notin> set (rows (main d'))"
proof -
  have s4: "ex_row 2 1 10 (IntV 20) ''first'' Null ''created_at'' = IntV 10"
    by (simp add: ex_row_def)
  from ex_db1_revert_ok
  obtain d' v' where ok: "u_rollback_to ex_meta ex_db1 (ex_row 1 1 20 Null ''second'' (IntV 7))
             (ex_row 2 1 10 (IntV 20) ''first'' Null) None None = Inr (d', v')"
    by (elim exE)
  have h2: "ex_row 2 1 10 (IntV 20) ''first'' Null ''row_id''
              = ex_row 1 1 20 Null ''second'' (IntV 7) ''row_id''"
    by (simp add: ex_row_def)
  have h3: "\<forall>f \<in> set (concrete_fields ex_meta @ private_fields ex_meta).
              name f = ''id'' \<longrightarrow> primary_key f"
    by (simp add: ex_meta_def)
  have h4: "ex_row 1 1 20 Null ''second'' (IntV 7) ''id'' \<noteq> Null" by (simp add: ex_row_def)
  have h5: "distinct (map (\<lambda>r. r ''id'') (rows (main ex_db1)))"
    by (simp add: ex_db1_def ex_row_def)
  note cr = core_revert[where model=ex_meta and d=ex_db1
      and self="ex_row 1 1 20 Null ''second'' (IntV 7)"
      and previous="ex_row 2 1 10 (IntV 20) ''first'' Null" and fields'=None and exclude=None
      and d'=d' and v'=v']
  from cr ok h2 h3 h4 h5
  have c1: "v' ''replaced_at'' = Null"
    and c2: "v' ''created_at'' = ex_row 2 1 10 (IntV 20) ''first'' Null ''created_at''"
    and c3: "v' ''id'' = ex_row 1 1 20 Null ''second'' (IntV 7) ''id''"
    and c5: "v' \<in> set (rows (main d'))"
    and c6: "\<exists>p. ex_row 2 1 10 (IntV 20) ''first'' Null ''created_at'' = IntV p
         \<and> (\<forall>r \<in> set (rows (main d')).
               r ''row_id'' = ex_row 1 1 20 Null ''second'' (IntV 7) ''row_id''
                 \<and> lookup_gte (r ''created_at'') p
                 \<longrightarrow> r ''id'' = ex_row 1 1 20 Null ''second'' (IntV 7) ''id'')
         \<and> (\<forall>r \<in> set (rows (main ex_db1)).
               r ''id'' \<noteq> ex_row 1 1 20 Null ''second'' (IntV 7) ''id'' \<longrightarrow>
               (r \<in> set (rows (main d')) \<longleftrightarrow>
                  \<not> (r ''row_id'' = ex_row 1 1 20 Null ''second'' (IntV 7) ''row_id''
                     \<and> lookup_gte (r ''created_at'') p)))"
    by simp_all
  from c6 s4 have c7: "\<forall>r \<in> set (rows (main d')).
               r ''row_id'' = ex_row 1 1 20 Null ''second'' (IntV 7) ''row_id''
                 \<and> lookup_gte (r ''created_at'') 10
                 \<longrightarrow> r ''id'' = ex_row 1 1 20 Null ''second'' (IntV 7) ''id''"
    by simp
  have gone: "ex_row 2 1 10 (IntV 20) ''first'' Null \<notin> set (rows (main d'))"
  proof
    assume "ex_row 2 1 10 (IntV 20) ''first'' Null \<in> set (rows (main d'))"
    with c7 have "ex_row 2 1 10 (IntV 20) ''first'' Null ''row_id''
                     = ex_row 1 1 20 Null ''second'' (IntV 7) ''row_id''
                 \<and> lookup_gte (ex_row 2 1 10 (IntV 20) ''first'' Null ''created_at'') 10
                 \<longrightarrow> ex_row 2 1 10 (IntV 20) ''first'' Null ''id''
                     = ex_row 1 1 20 Null ''second'' (IntV 7) ''id''"
      by (rule bspec)
    then show False by (simp add: ex_row_def)
  qed
  have c2': "v' ''created_at'' = IntV 10" using c2 s4 by simp
  have c3': "v' ''id'' = IntV 1" using c3 by (simp add: ex_row_def)
  show ?thesis
    by (intro exI[of _ d'] exI[of _ v'] conjI) (rule ok c1 c2' c3' c5 gone)+
qed

subsection \<open>The fields of the reverted version\<close>

text \<open>
  C3, as amended. Field names of a model are distinct, the field \<open>id\<close> is its primary
  key and \<open>self\<close> has a key. Let the core revert step succeed and return \<open>v'\<close>. Then
  \<open>v'\<close> is stored, and for every concrete field \<open>f\<close> other than \<open>created_at\<close> and
  \<open>replaced_at\<close> it holds the target's value of \<open>f\<close> when \<open>f\<close> is not the primary key,
  not a one-to-one field, not named in \<open>exclude\<close>, and \<open>fields\<close> is absent or names \<open>f\<close>;
  and the current version's own value otherwise. So a field named in both collections
  is not reverted, and the primary key never is. Whatever the two collections name,
  \<open>created_at\<close> is the target's and \<open>replaced_at\<close> is null.
\<close>

theorem core_revert_fields:
  assumes ok: "u_rollback_to model d self previous fields' exclude = Inr (d', v')"
    and dn: "distinct (map name (get_fields model))"
    and sub: "set (concrete_fields model) \<subseteq> set (get_fields model)"
    and dc: "distinct (map name (concrete_fields model @ private_fields model))"
    and pkf: "\<forall>f \<in> set (concrete_fields model @ private_fields model).
                name f = ''id'' \<longrightarrow> primary_key f"
    and pk: "self ''id'' \<noteq> Null"
    and f: "f \<in> set (concrete_fields model)"
  shows "v' \<in> set (rows (main d'))
    \<and> (name f \<noteq> ''created_at'' \<and> name f \<noteq> ''replaced_at'' \<longrightarrow>
         v' (name f) =
           (if \<not> primary_key f \<and> \<not> one_to_one f
               \<and> name f \<notin> set (case exclude of None \<Rightarrow> [] | Some ex \<Rightarrow> ex)
               \<and> (fields' = None \<or> name f \<in> set (the fields'))
            then previous (name f) else self (name f)))
    \<and> v' ''created_at'' = previous ''created_at'' \<and> v' ''replaced_at'' = Null"
proof -
  define R where "R = revert_fields model fields' exclude previous self"
  from u_rollback_to_Inr[where model=model and d=d and self=self and previous=previous
      and fields'=fields' and exclude=exclude and d'=d' and v'=v'] ok
  obtain c p d1 d2 where
    cp: "previous ''created_at'' = IntV p"
    and mv: "move_frozen_relationships d previous
               (R(''replaced_at'' := Null, ''created_at'' := IntV p)) = Inr d1"
    and de: "delete_each
               (filter (\<lambda>r. lookup_gte (r ''created_at'') p \<and> r ''row_id'' = R ''row_id''
                          \<and> r ''id'' \<noteq> R ''id'') (rows (main d1)))
               d1 = Inr d2"
    and us0: "u_save (main d2) (R(''replaced_at'' := Null, ''created_at'' := IntV p))
                = (main d', v')"
    unfolding R_def by blast
  define S where "S = R(''replaced_at'' := Null, ''created_at'' := IntV p)"
  have Rid: "R ''id'' = self ''id''"
    unfolding R_def revert_fields_def
    using foldl_revert_keeps_pk[where n="''id''" and s=self
        and fs="concrete_fields model @ private_fields model"] pkf
    by (simp del: foldl_append)
  have Sk: "S ''id'' \<noteq> Null" using Rid pk by (simp add: S_def)
  have sv: "Model_save (main d2) S = (main d', v')" using us0 by (simp add: u_save_def S_def)
  from Model_save_keyed_rows[where t="main d2" and x=S] Sk
  have ms: "v' = S \<and> S \<in> set (rows (main d'))" unfolding sv by simp
  have v: "v' = S" using ms by simp
  have a: "v' \<in> set (rows (main d'))" using ms by simp
  have Rf: "R (name f) =
           (if \<not> primary_key f \<and> \<not> one_to_one f
               \<and> name f \<notin> set (case exclude of None \<Rightarrow> [] | Some ex \<Rightarrow> ex)
               \<and> (fields' = None \<or> name f \<in> set (the fields'))
            then previous (name f) else self (name f))"
    unfolding R_def by (rule revert_fields_at[OF dn sub dc f])
  have b: "name f \<noteq> ''created_at'' \<and> name f \<noteq> ''replaced_at'' \<longrightarrow>
         v' (name f) =
           (if \<not> primary_key f \<and> \<not> one_to_one f
               \<and> name f \<notin> set (case exclude of None \<Rightarrow> [] | Some ex \<Rightarrow> ex)
               \<and> (fields' = None \<or> name f \<in> set (the fields'))
            then previous (name f) else self (name f))"
  proof
    assume n: "name f \<noteq> ''created_at'' \<and> name f \<noteq> ''replaced_at''"
    then have "v' (name f) = R (name f)" unfolding v S_def by simp
    then show "v' (name f) =
           (if \<not> primary_key f \<and> \<not> one_to_one f
               \<and> name f \<notin> set (case exclude of None \<Rightarrow> [] | Some ex \<Rightarrow> ex)
               \<and> (fields' = None \<or> name f \<in> set (the fields'))
            then previous (name f) else self (name f))"
      unfolding Rf .
  qed
  have c: "v' ''created_at'' = previous ''created_at''" "v' ''replaced_at'' = Null"
    unfolding v S_def cp by simp_all
  from a b c show ?thesis by (intro conjI)
qed

text \<open>
  The claim as stated fails on the result of the step for the two time fields. With
  \<open>created_at\<close> named in \<open>exclude\<close> the reverted version still gets the target's
  \<open>created_at\<close>, 10 instead of its own 20. With \<open>replaced_at\<close> named in \<open>fields\<close> and
  not excluded, the reverted version does not get the target's \<open>replaced_at\<close>, 20, but
  null.
\<close>

theorem core_revert_times_counterexample:
  "ex_row 1 1 20 Null ''second'' (IntV 7) ''created_at'' = IntV 20
   \<and> ex_row 2 1 10 (IntV 20) ''first'' Null ''created_at'' = IntV 10
   \<and> (case u_rollback_to ex_meta ex_db1 (ex_row 1 1 20 Null ''second'' (IntV 7))
             (ex_row 2 1 10 (IntV 20) ''first'' Null) None (Some [''created_at'']) of
        Inl e \<Rightarrow> False
      | Inr (d', v') \<Rightarrow>
          v' ''created_at'' = IntV 10
        \<and> map (\<lambda>r. (r ''id'', r ''created_at'')) (rows (main d')) = [(IntV 1, IntV 10)])
   \<and> ex_row 2 1 10 (IntV 20) ''first'' Null ''replaced_at'' = IntV 20
   \<and> (case u_rollback_to ex_meta ex_db1 (ex_row 1 1 20 Null ''second'' (IntV 7))
             (ex_row 2 1 10 (IntV 20) ''first'' Null) (Some [''replaced_at'']) None of
        Inl e \<Rightarrow> False
      | Inr (d', v') \<Rightarrow>
          v' ''replaced_at'' = Null
        \<and> map (\<lambda>r. (r ''id'', r ''replaced_at'')) (rows (main d')) = [(IntV 1, Null)])"
proof -
  have a: "ex_row 1 1 20 Null ''second'' (IntV 7) ''created_at'' = IntV 20"
    "ex_row 2 1 10 (IntV 20) ''first'' Null ''created_at'' = IntV 10"
    "ex_row 2 1 10 (IntV 20) ''first'' Null ''replaced_at'' = IntV 20"
    by (simp_all add: ex_row_def)
  have b: "(case u_rollback_to ex_meta ex_db1 (ex_row 1 1 20 Null ''second'' (IntV 7))
             (ex_row 2 1 10 (IntV 20) ''first'' Null) None (Some [''created_at'']) of
        Inl e \<Rightarrow> False
      | Inr (d', v') \<Rightarrow>
          v' ''created_at'' = IntV 10
        \<and> map (\<lambda>r. (r ''id'', r ''created_at'')) (rows (main d')) = [(IntV 1, IntV 10)])"
    by (simp add: u_rollback_to_def move_frozen_relationships_def
      move_frozen_relationships_of_def related_manager_all_def repoint_related_def u_save_def
      Model_save_def u_delete_def Model_delete_def related_objects_def on_delete_apply_def
      revert_fields_def revert_field_def get_one_to_one_fields_def
      PointInTimeBaseManager_get_queryset_def ex_meta_def ex_db1_def ex_row_def)
  have c: "(case u_rollback_to ex_meta ex_db1 (ex_row 1 1 20 Null ''second'' (IntV 7))
             (ex_row 2 1 10 (IntV 20) ''first'' Null) (Some [''replaced_at'']) None of
        Inl e \<Rightarrow> False
      | Inr (d', v') \<Rightarrow>
          v' ''replaced_at'' = Null
        \<and> map (\<lambda>r. (r ''id'', r ''replaced_at'')) (rows (main d')) = [(IntV 1, Null)])"
    by (simp add: u_rollback_to_def move_frozen_relationships_def
      move_frozen_relationships_of_def related_manager_all_def repoint_related_def u_save_def
      Model_save_def u_delete_def Model_delete_def related_objects_def on_delete_apply_def
      revert_fields_def revert_field_def get_one_to_one_fields_def
      PointInTimeBaseManager_get_queryset_def ex_meta_def ex_db1_def ex_row_def)
  from a b c show ?thesis by (intro conjI)
qed

theorem core_revert_fields_witness:
  "(\<exists>d' v'. u_rollback_to ex_meta ex_db1 (ex_row 1 1 20 Null ''second'' (IntV 7))
             (ex_row 2 1 10 (IntV 20) ''first'' Null) (Some [''c1'', ''start_at''])
             (Some [''c1'']) = Inr (d', v')
      \<and> v' \<in> set (rows (main d')) \<and> v' ''c1'' = StrV ''second''
      \<and> v' ''created_at'' = IntV 10 \<and> v' ''replaced_at'' = Null)
   \<and> (\<exists>d' v'. u_rollback_to ex_meta ex_db1 (ex_row 1 1 20 Null ''second'' (IntV 7))
             (ex_row 2 1 10 (IntV 20) ''first'' Null) None None = Inr (d', v')
      \<and> v' \<in> set (rows (main d')) \<and> v' ''c1'' = StrV ''first'')"
proof -
  have h1: "distinct (map name (get_fields ex_meta))" by (simp add: ex_meta_def)
  have h2: "set (concrete_fields ex_meta) \<subseteq> set (get_fields ex_meta)" by (simp add: ex_meta_def)
  have h3: "distinct (map name (concrete_fields ex_meta @ private_fields ex_meta))"
    by (simp add: ex_meta_def)
  have h4: "\<forall>f \<in> set (concrete_fields ex_meta @ private_fields ex_meta).
              name f = ''id'' \<longrightarrow> primary_key f"
    by (simp add: ex_meta_def)
  have h5: "ex_row 1 1 20 Null ''second'' (IntV 7) ''id'' \<noteq> Null" by (simp add: ex_row_def)
  have h6: "\<lparr>name = ''c1'', primary_key = False, one_to_one = False\<rparr>
              \<in> set (concrete_fields ex_meta)"
    by (simp add: ex_meta_def)
  from ex_db1_revert_some_ok
  obtain d1 v1 where ok1: "u_rollback_to ex_meta ex_db1 (ex_row 1 1 20 Null ''second'' (IntV 7))
             (ex_row 2 1 10 (IntV 20) ''first'' Null) (Some [''c1'', ''start_at''])
             (Some [''c1'']) = Inr (d1, v1)"
    by (elim exE)
  from ex_db1_revert_ok
  obtain d2 v2 where ok2: "u_rollback_to ex_meta ex_db1 (ex_row 1 1 20 Null ''second'' (IntV 7))
             (ex_row 2 1 10 (IntV 20) ''first'' Null) None None = Inr (d2, v2)"
    by (elim exE)
  note A = core_revert_fields[where model=ex_meta and d=ex_db1
      and self="ex_row 1 1 20 Null ''second'' (IntV 7)"
      and previous="ex_row 2 1 10 (IntV 20) ''first'' Null"
      and fields'="Some [''c1'', ''start_at'']" and exclude="Some [''c1'']"
      and d'=d1 and v'=v1
      and f="\<lparr>name = ''c1'', primary_key = False, one_to_one = False\<rparr>"]
  from A ok1 h1 h2 h3 h4 h5 h6
  have a1: "v1 \<in> set (rows (main d1))"
    and a2: "v1 ''c1'' = ex_row 1 1 20 Null ''second'' (IntV 7) ''c1''"
    and a3: "v1 ''created_at'' = ex_row 2 1 10 (IntV 20) ''first'' Null ''created_at''"
    and a4: "v1 ''replaced_at'' = Null"
    by simp_all
  have a2': "v1 ''c1'' = StrV ''second''" using a2 by (simp add: ex_row_def)
  have a3': "v1 ''created_at'' = IntV 10" using a3 by (simp add: ex_row_def)
  note B = core_revert_fields[where model=ex_meta and d=ex_db1
      and self="ex_row 1 1 20 Null ''second'' (IntV 7)"
      and previous="ex_row 2 1 10 (IntV 20) ''first'' Null"
      and fields'=None and exclude=None and d'=d2 and v'=v2
      and f="\<lparr>name = ''c1'', primary_key = False, one_to_one = False\<rparr>"]
  from B ok2 h1 h2 h3 h4 h5 h6
  have b1: "v2 \<in> set (rows (main d2))"
    and b2: "v2 ''c1'' = ex_row 2 1 10 (IntV 20) ''first'' Null ''c1''"
    by simp_all
  have b2': "v2 ''c1'' = StrV ''first''" using b2 by (simp add: ex_row_def)
  show ?thesis
  proof (intro conjI)
    show "\<exists>d' v'. u_rollback_to ex_meta ex_db1 (ex_row 1 1 20 Null ''second'' (IntV 7))
             (ex_row 2 1 10 (IntV 20) ''first'' Null) (Some [''c1'', ''start_at''])
             (Some [''c1'']) = Inr (d', v')
      \<and> v' \<in> set (rows (main d')) \<and> v' ''c1'' = StrV ''second''
      \<and> v' ''created_at'' = IntV 10 \<and> v' ''replaced_at'' = Null"
      by (intro exI[of _ d1] exI[of _ v1] conjI) (rule ok1 a1 a2' a3' a4)+
    show "\<exists>d' v'. u_rollback_to ex_meta ex_db1 (ex_row 1 1 20 Null ''second'' (IntV 7))
             (ex_row 2 1 10 (IntV 20) ''first'' Null) None None = Inr (d', v')
      \<and> v' \<in> set (rows (main d')) \<and> v' ''c1'' = StrV ''first''"
      by (intro exI[of _ d2] exI[of _ v2] conjI) (rule ok2 b1 b2')+
  qed
qed

section \<open>Midnight timestamps at the request boundary\<close>

lemma rollback_to_at_prepared:
  assumes eq: "get_prep_value time1 = get_prep_value time2"
  shows "rollback_to_at model d self time1 fields' exclude
       = rollback_to_at model d self time2 fields' exclude"
  unfolding rollback_to_at_def eq by (rule refl)

lemma midnight_reading:
  "time_is_min (d * usec_per_day)" "date_of (d * usec_per_day) = d"
  by (simp_all add: time_is_min_def date_of_def usec_per_day_def)

lemma rollback_at_date:
  "rollback_to_at model d self (as_pytime (PyDate day)) fields' exclude
     = rollback_to_at model d self (Datetime (day * usec_per_day)) fields' exclude"
  by (rule rollback_to_at_prepared) (simp add: get_prep_value_def as_pytime_def)

text \<open>
  C10, as amended. \<open>date_or_datetime\<close> turns a datetime whose time of day, read on its
  own clock, is midnight into the pure date of that day and leaves every other
  datetime as it is; so after parsing, a midnight timestamp and a date-only input
  (which \<open>datetime_from_web\<close> reads as midnight in the active zone) are the same value.
  A pure date that reaches \<open>version\<close> or \<open>active\<close> is taken there as the last instant
  of its day. The rollback action does not normalize to the end of the day: with a
  time that reads exactly midnight of day \<open>d\<close>, given as an ISO string, as a date or
  as a naive datetime object, it behaves as \<open>rollback_to_at\<close> at midnight at the start
  of day \<open>d\<close> in the default time zone. That is the supplied instant exactly when the
  value's zone has the offset of the default zone. (The read path of \<open>get_queryset\<close>
  calls a manager method \<open>past\<close> and passes \<open>active\<close> a keyword \<open>time\<close>; \<open>models.py\<close>
  defines neither, and that path is not part of this statement.)
\<close>

theorem midnight_is_date:
  "(time_is_min w \<longrightarrow>
      date_or_datetime (Some (PyDatetime w off)) = Inr (Some (PyDate (date_of w))))
   \<and> (\<not> time_is_min w \<longrightarrow>
        date_or_datetime (Some (PyDatetime w off)) = Inr (Some (PyDatetime w off)))
   \<and> datetime_from_web fromisoformat tz (WebDate d)
       = Inr (Some (PyDatetime (d * usec_per_day) (Some tz)))
   \<and> date_or_datetime (Some (PyDatetime (d * usec_per_day) off)) = Inr (Some (PyDate d))
   \<and> PointInTimeBaseManager_version tbl (as_pytime (PyDate d))
       = PointInTimeBaseManager_version tbl (Datetime (combine_time_max d))
   \<and> PointInTimeQuerySet_active now tbl (Some (as_pytime (PyDate d)))
       = PointInTimeQuerySet_active now tbl (Some (Datetime (combine_time_max d)))
   \<and> (fromisoformat s = Some (d * usec_per_day, off) \<longrightarrow>
        PointInTimeModelViewSet_rollback fromisoformat tz model db0 inst (WebStr s)
            fields' exclude
          = rollback_to_at model db0 inst (Datetime (d * usec_per_day)) fields' exclude)
   \<and> PointInTimeModelViewSet_rollback fromisoformat tz model db0 inst (WebDate d)
         fields' exclude
       = rollback_to_at model db0 inst (Datetime (d * usec_per_day)) fields' exclude
   \<and> PointInTimeModelViewSet_rollback fromisoformat tz model db0 inst
         (WebDatetime (d * usec_per_day) None) fields' exclude
       = rollback_to_at model db0 inst (Datetime (d * usec_per_day)) fields' exclude
   \<and> (instant (d * usec_per_day) (Some x) = d * usec_per_day \<longleftrightarrow> x = 0)"
proof -
  note m = midnight_reading[of d]
  have c1: "time_is_min w \<longrightarrow>
      date_or_datetime (Some (PyDatetime w off)) = Inr (Some (PyDate (date_of w)))"
    by (simp add: date_or_datetime_def)
  have c2: "\<not> time_is_min w \<longrightarrow>
        date_or_datetime (Some (PyDatetime w off)) = Inr (Some (PyDatetime w off))"
    by (simp add: date_or_datetime_def)
  have c3: "datetime_from_web fromisoformat tz (WebDate d)
       = Inr (Some (PyDatetime (d * usec_per_day) (Some tz)))"
    by (simp add: datetime_from_web_def make_aware_def)
  have c4: "\<And>o'. date_or_datetime (Some (PyDatetime (d * usec_per_day) o')) = Inr (Some (PyDate d))"
    using m by (simp add: date_or_datetime_def)
  have c5: "PointInTimeBaseManager_version tbl (as_pytime (PyDate d))
       = PointInTimeBaseManager_version tbl (Datetime (combine_time_max d))"
    by (simp add: PointInTimeBaseManager_version_def PointInTimeQuerySet_version_def
        as_pytime_def)
  have c6: "PointInTimeQuerySet_active now tbl (Some (as_pytime (PyDate d)))
       = PointInTimeQuerySet_active now tbl (Some (Datetime (combine_time_max d)))"
    by (simp add: PointInTimeQuerySet_active_def as_pytime_def)
  have c7: "fromisoformat s = Some (d * usec_per_day, off) \<longrightarrow>
        PointInTimeModelViewSet_rollback fromisoformat tz model db0 inst (WebStr s)
            fields' exclude
          = rollback_to_at model db0 inst (Datetime (d * usec_per_day)) fields' exclude"
  proof
    assume p: "fromisoformat s = Some (d * usec_per_day, off)"
    have "PointInTimeModelViewSet_rollback fromisoformat tz model db0 inst (WebStr s)
            fields' exclude
          = rollback_to_at model db0 inst (as_pytime (PyDate d)) fields' exclude"
      by (cases off)
         (simp_all add: PointInTimeModelViewSet_rollback_def datetime_from_web_def
           make_aware_def p c4)
    then show "PointInTimeModelViewSet_rollback fromisoformat tz model db0 inst (WebStr s)
            fields' exclude
          = rollback_to_at model db0 inst (Datetime (d * usec_per_day)) fields' exclude"
      unfolding rollback_at_date .
  qed
  have "PointInTimeModelViewSet_rollback fromisoformat tz model db0 inst (WebDate d)
         fields' exclude
       = rollback_to_at model db0 inst (as_pytime (PyDate d)) fields' exclude"
    by (simp add: PointInTimeModelViewSet_rollback_def c3 c4)
  then have c8: "PointInTimeModelViewSet_rollback fromisoformat tz model db0 inst (WebDate d)
         fields' exclude
       = rollback_to_at model db0 inst (Datetime (d * usec_per_day)) fields' exclude"
    unfolding rollback_at_date .
  have "PointInTimeModelViewSet_rollback fromisoformat tz model db0 inst
         (WebDatetime (d * usec_per_day) None) fields' exclude
       = rollback_to_at model db0 inst (as_pytime (PyDate d)) fields' exclude"
    by (simp add: PointInTimeModelViewSet_rollback_def datetime_from_web_def make_aware_def c4)
  then have c9: "PointInTimeModelViewSet_rollback fromisoformat tz model db0 inst
         (WebDatetime (d * usec_per_day) None) fields' exclude
       = rollback_to_at model db0 inst (Datetime (d * usec_per_day)) fields' exclude"
    unfolding rollback_at_date .
  have c10: "instant (d * usec_per_day) (Some x) = d * usec_per_day \<longleftrightarrow> x = 0"
    by (simp add: instant_def)
  from c1 c2 c3 c4[of off] c5 c6 c7 c8 c9 c10 show ?thesis by (intro conjI)
qed

theorem midnight_is_date_witness:
  "time_is_min 0 \<and> \<not> time_is_min 5
   \<and> date_or_datetime (Some (PyDatetime 0 (Some 3600000000))) = Inr (Some (PyDate 0))
   \<and> date_or_datetime (Some (PyDatetime 5 None)) = Inr (Some (PyDatetime 5 None))
   \<and> PointInTimeModelViewSet_rollback
         (\<lambda>s. if s = ''1970-01-01'' then Some (0, None) else None) 0 ex_meta ex_db0
         (ex_row 1 1 20 Null ''second'' (IntV 7)) (WebStr ''1970-01-01'') None None
       = rollback_to_at ex_meta ex_db0 (ex_row 1 1 20 Null ''second'' (IntV 7))
           (Datetime 0) None None"
proof -
  have h1: "time_is_min 0" by (simp add: time_is_min_def)
  have h2: "\<not> time_is_min 5" by (simp add: time_is_min_def usec_per_day_def)
  have h3: "date_of 0 = 0" by (simp add: date_of_def)
  have h4: "(\<lambda>s. if s = ''1970-01-01'' then Some (0, None) else None) ''1970-01-01''
              = Some (0 * usec_per_day, None)"
    by simp
  from midnight_is_date[of 0 "Some 3600000000" "\<lambda>_. None" 0 0 "[]" 0 "[]" ex_meta ex_db0
      "\<lambda>_. Null" None None 0] h1 h3
  have a: "date_or_datetime (Some (PyDatetime 0 (Some 3600000000))) = Inr (Some (PyDate 0))"
    by simp
  from midnight_is_date[of 5 None "\<lambda>_. None" 0 0 "[]" 0 "[]" ex_meta ex_db0
      "\<lambda>_. Null" None None 0] h2
  have b: "date_or_datetime (Some (PyDatetime 5 None)) = Inr (Some (PyDatetime 5 None))"
    by simp
  from midnight_is_date[of 0 None "\<lambda>s. if s = ''1970-01-01'' then Some (0, None) else None"
      0 0 "[]" 0 "''1970-01-01''" ex_meta ex_db0 "ex_row 1 1 20 Null ''second'' (IntV 7)"
      None None 0] h4
  have c: "PointInTimeModelViewSet_rollback
         (\<lambda>s. if s = ''1970-01-01'' then Some (0, None) else None) 0 ex_meta ex_db0
         (ex_row 1 1 20 Null ''second'' (IntV 7)) (WebStr ''1970-01-01'') None None
       = rollback_to_at ex_meta ex_db0 (ex_row 1 1 20 Null ''second'' (IntV 7))
           (Datetime 0) None None"
    by simp
  from h1 h2 a b c show ?thesis by (intro conjI)
qed

text \<open>
  The claim as stated fails for rollback. The current version of key 1 was created at
  instant 20 of day 0 and has one older version, created at instant 10; nothing
  refers to them. Rolling back to the last instant of day 0 selects the current
  version and changes nothing. The rollback action with the string for midnight of
  day 0 finds no version at or before that instant and purges the row group.
\<close>

theorem rollback_midnight_counterexample:
  "rollback_to_at ex_meta ex_db0 (ex_row 1 1 20 Null ''second'' (IntV 7))
       (Datetime (combine_time_max 0)) None None
     = Inr (ex_db0, ex_row 1 1 20 Null ''second'' (IntV 7))
   \<and> PointInTimeModelViewSet_rollback
         (\<lambda>s. if s = ''1970-01-01T00:00:00'' then Some (0, None) else None) 0 ex_meta ex_db0
         (ex_row 1 1 20 Null ''second'' (IntV 7)) (WebStr ''1970-01-01T00:00:00'') None None
       = Inr (\<lparr>main = \<lparr>rows = [], next_id = 3\<rparr>, referrers = []\<rparr>,
              ex_row 1 1 20 Null ''second'' (IntV 7))"
proof -
  have A: "rollback_to_at ex_meta ex_db0 (ex_row 1 1 20 Null ''second'' (IntV 7))
       (Datetime (combine_time_max 0)) None None
     = Inr (ex_db0, ex_row 1 1 20 Null ''second'' (IntV 7))"
    by (simp add: rollback_to_at_def get_prep_value_def combine_time_max_def usec_per_day_def
        PointInTimeBaseManager_get_queryset_def order_by_desc_first_def sorts_before_def
        ex_db0_def ex_row_def)
  have r: "PointInTimeModelViewSet_rollback
         (\<lambda>s. if s = ''1970-01-01T00:00:00'' then Some (0, None) else None) 0 ex_meta ex_db0
         (ex_row 1 1 20 Null ''second'' (IntV 7)) (WebStr ''1970-01-01T00:00:00'') None None
         = rollback_to_at ex_meta ex_db0 (ex_row 1 1 20 Null ''second'' (IntV 7))
             (as_pytime (PyDate 0)) None None"
    by (simp add: PointInTimeModelViewSet_rollback_def datetime_from_web_def make_aware_def
        date_or_datetime_def time_is_min_def date_of_def)
  have B: "rollback_to_at ex_meta ex_db0 (ex_row 1 1 20 Null ''second'' (IntV 7))
             (as_pytime (PyDate 0)) None None
       = Inr (\<lparr>main = \<lparr>rows = [], next_id = 3\<rparr>, referrers = []\<rparr>,
              ex_row 1 1 20 Null ''second'' (IntV 7))"
    by (simp add: rollback_to_at_def get_prep_value_def as_pytime_def purge_def
        PointInTimeBaseManager_get_queryset_def order_by_desc_first_def u_delete_def
        Model_delete_def related_objects_def usec_per_day_def ex_db0_def ex_row_def)
  show ?thesis
    by (intro conjI) (rule A, simp only: r B)
qed

section \<open>Frozen references\<close>

lemma repoint_related_save:
  "repoint_related rf target t related =
     fst (Model_save t (related(fk_name rf := target ''id'')))"
  by (simp add: repoint_related_def u_save_def)

lemma repoint_one:
  assumes dk: "distinct (map (\<lambda>r. r ''id'') (rows t))"
    and q: "q \<in> set (rows t)" "q ''id'' \<noteq> Null" and fk: "fk_name rf \<noteq> ''id''"
  shows "repoint_related rf target t q =
           t\<lparr>rows := map (\<lambda>e. if e = q then q(fk_name rf := target ''id'') else e) (rows t)\<rparr>"
proof -
  define q' where "q' = q(fk_name rf := target ''id'')"
  have id: "q' ''id'' = q ''id''" using fk by (simp add: q'_def)
  have nn: "q' ''id'' \<noteq> Null" using id q(2) by simp
  have qq: "q ''id'' = q' ''id''" using id by simp
  have "Model_save t q' = (t\<lparr>rows := map (\<lambda>r. if r ''id'' = q' ''id'' then q' else r) (rows t)\<rparr>, q')"
    using nn q(1) qq by (rule Model_save_update)
  moreover have "map (\<lambda>r. if r ''id'' = q' ''id'' then q' else r) (rows t)
                   = map (\<lambda>e. if e = q then q' else e) (rows t)"
  proof (rule map_cong[OF refl])
    fix e assume e: "e \<in> set (rows t)"
    have "e ''id'' = q ''id'' \<Longrightarrow> e = q"
      by (rule distinct_key_eq[where key="\<lambda>r. r ''id''", OF dk e q(1)])
    then have "e ''id'' = q ''id'' \<longleftrightarrow> e = q" by (intro iffI) simp_all
    then show "(if e ''id'' = q' ''id'' then q' else e) = (if e = q then q' else e)"
      using id by simp
  qed
  ultimately show ?thesis by (simp add: repoint_related_save q'_def)
qed

lemma foldl_repoint:
  assumes "distinct (map (\<lambda>r. r ''id'') (rows t))" and "\<forall>q \<in> set rel. q ''id'' \<noteq> Null"
    and "set rel \<subseteq> set (rows t)" and "distinct rel" and fk: "fk_name rf \<noteq> ''id''"
  shows "foldl (repoint_related rf target) t rel =
           t\<lparr>rows := map (\<lambda>e. if e \<in> set rel then e(fk_name rf := target ''id'') else e)
                         (rows t)\<rparr>"
  using assms(1-4)
proof (induction rel arbitrary: t)
  case Nil
  then show ?case by simp
next
  case (Cons q rel)
  define q' where "q' = q(fk_name rf := target ''id'')"
  define t1 where "t1 = t\<lparr>rows := map (\<lambda>e. if e = q then q' else e) (rows t)\<rparr>"
  have qin: "q \<in> set (rows t)" and qk: "q ''id'' \<noteq> Null" and qn: "q \<notin> set rel"
    using Cons.prems by auto
  have id: "q' ''id'' = q ''id''" using fk by (simp add: q'_def)
  have step: "repoint_related rf target t q = t1"
    using repoint_one[where t=t and q=q and rf=rf and target=target] Cons.prems(1) qin qk fk
    by (simp add: t1_def q'_def)
  have keys: "map (\<lambda>r. r ''id'') (rows t1) = map (\<lambda>r. r ''id'') (rows t)"
    using id by (simp add: t1_def comp_def)
  have d1: "distinct (map (\<lambda>r. r ''id'') (rows t1))" using keys Cons.prems(1) by simp
  have k1: "\<forall>x \<in> set rel. x ''id'' \<noteq> Null" using Cons.prems(2) by simp
  have s1: "set rel \<subseteq> set (rows t1)"
  proof
    fix x assume x: "x \<in> set rel"
    then have xr: "x \<in> set (rows t)" and xq: "x \<noteq> q" using Cons.prems(3) qn by auto
    have "x \<in> (\<lambda>e. if e = q then q' else e) ` set (rows t)"
      by (rule image_eqI[OF _ xr]) (simp add: xq)
    then show "x \<in> set (rows t1)" by (simp add: t1_def)
  qed
  have dr: "distinct rel" using Cons.prems(4) by simp
  have q'n: "q' \<notin> set rel"
  proof
    assume a: "q' \<in> set rel"
    then have "q' \<in> set (rows t)" using Cons.prems(3) by auto
    then have "q' = q"
      using distinct_key_eq[where key="\<lambda>r. r ''id''" and xs="rows t" and x=q' and y=q]
        Cons.prems(1) qin id by simp
    with a qn show False by simp
  qed
  have "foldl (repoint_related rf target) t (q # rel) = foldl (repoint_related rf target) t1 rel"
    using step by simp
  also have "\<dots> = t1\<lparr>rows := map (\<lambda>e. if e \<in> set rel then e(fk_name rf := target ''id'') else e)
                                (rows t1)\<rparr>"
    using Cons.IH[OF d1 k1 s1 dr] .
  also have "map (\<lambda>e. if e \<in> set rel then e(fk_name rf := target ''id'') else e) (rows t1)
             = map (\<lambda>e. if e \<in> set (q # rel) then e(fk_name rf := target ''id'') else e) (rows t)"
  proof -
    have "\<And>e. (if (if e = q then q' else e) \<in> set rel
                then (if e = q then q' else e)(fk_name rf := target ''id'')
                else (if e = q then q' else e))
             = (if e \<in> set (q # rel) then e(fk_name rf := target ''id'') else e)"
      using q'n qn by (simp add: q'_def)
    then show ?thesis by (simp add: t1_def comp_def)
  qed
  finally show ?case by (simp add: t1_def)
qed

lemma move_frozen_relationships_of_rows:
  assumes "distinct (map (\<lambda>r. r ''id'') (rows (ref_table rf)))"
    and "\<forall>r \<in> set (rows (ref_table rf)). r ''id'' \<noteq> Null" and "fk_name rf \<noteq> ''id''"
    and "frozen rf"
  shows "move_frozen_relationships_of self target rf =
           rf\<lparr>ref_table := (ref_table rf)\<lparr>rows :=
                map (\<lambda>e. if e (fk_name rf) = self ''id''
                             \<and> (is_pita rf \<longrightarrow> e ''replaced_at'' = Null)
                          then e(fk_name rf := target ''id'') else e)
                  (rows (ref_table rf))\<rparr>\<rparr>"
proof -
  define rel where "rel = related_manager_all rf self"
  have mem: "\<And>e. e \<in> set rel \<longleftrightarrow> e \<in> set (rows (ref_table rf)) \<and> e (fk_name rf) = self ''id''
                        \<and> (is_pita rf \<longrightarrow> e ''replaced_at'' = Null)"
    by (auto simp: rel_def related_manager_all_def PointInTimeDefaultManager_get_queryset_def
        PointInTimeQuerySet_current_def isnull_def)
  have dr: "distinct (rows (ref_table rf))" using assms(1) by (simp add: distinct_map)
  have "distinct rel"
    using dr by (simp add: rel_def related_manager_all_def
        PointInTimeDefaultManager_get_queryset_def PointInTimeQuerySet_current_def)
  moreover have "set rel \<subseteq> set (rows (ref_table rf))" using mem by auto
  moreover have "\<forall>q \<in> set rel. q ''id'' \<noteq> Null" using mem assms(2) by auto
  ultimately have "foldl (repoint_related rf target) (ref_table rf) rel =
       (ref_table rf)\<lparr>rows := map (\<lambda>e. if e \<in> set rel then e(fk_name rf := target ''id'') else e)
                         (rows (ref_table rf))\<rparr>"
    using foldl_repoint[where t="ref_table rf" and rel=rel and rf=rf and target=target] assms(1,3)
    by simp
  moreover have "map (\<lambda>e. if e \<in> set rel then e(fk_name rf := target ''id'') else e)
                         (rows (ref_table rf))
       = map (\<lambda>e. if e (fk_name rf) = self ''id'' \<and> (is_pita rf \<longrightarrow> e ''replaced_at'' = Null)
                          then e(fk_name rf := target ''id'') else e) (rows (ref_table rf))"
    by (rule map_cong[OF refl]) (simp add: mem)
  ultimately show ?thesis
    using assms(4) by (simp add: move_frozen_relationships_of_def rel_def)
qed

lemma move_frozen_relationships_of_attrs:
  "fk_name (move_frozen_relationships_of self target rf) = fk_name rf"
  by (simp add: move_frozen_relationships_of_def)

lemma list_all2_map_same:
  "(\<And>x. x \<in> set xs \<Longrightarrow> P x (g x)) \<Longrightarrow> list_all2 P xs (map g xs)"
  by (induction xs) simp_all

text \<open>One frozen relation after the move, row by row: each row keeps its key; a row
  that the reverse manager selects points at the target when it pointed at \<open>self\<close>, and
  is as it was otherwise.\<close>

lemma move_frozen_relationships_of_rel:
  assumes w: "distinct (map (\<lambda>r. r ''id'') (rows (ref_table rf)))"
    "\<forall>r \<in> set (rows (ref_table rf)). r ''id'' \<noteq> Null" "fk_name rf \<noteq> ''id''"
  shows "if frozen rf then
           fk_name (move_frozen_relationships_of self target rf) = fk_name rf
         \<and> list_all2
             (\<lambda>e e'. e' ''id'' = e ''id''
                \<and> ((is_pita rf \<longrightarrow> e ''replaced_at'' = Null) \<longrightarrow>
                     e' = (if e (fk_name rf) = self ''id''
                           then e(fk_name rf := target ''id'') else e)))
             (rows (ref_table rf))
             (rows (ref_table (move_frozen_relationships_of self target rf)))
         else move_frozen_relationships_of self target rf = rf"
proof (cases "frozen rf")
  case False
  then show ?thesis by (simp add: move_frozen_relationships_of_def)
next
  case True
  have r: "rows (ref_table (move_frozen_relationships_of self target rf)) =
             map (\<lambda>e. if e (fk_name rf) = self ''id''
                             \<and> (is_pita rf \<longrightarrow> e ''replaced_at'' = Null)
                          then e(fk_name rf := target ''id'') else e)
                  (rows (ref_table rf))"
    unfolding move_frozen_relationships_of_rows[where rf=rf and self=self and target=target,
        OF w True]
    by simp
  have "list_all2
             (\<lambda>e e'. e' ''id'' = e ''id''
                \<and> ((is_pita rf \<longrightarrow> e ''replaced_at'' = Null) \<longrightarrow>
                     e' = (if e (fk_name rf) = self ''id''
                           then e(fk_name rf := target ''id'') else e)))
             (rows (ref_table rf))
             (rows (ref_table (move_frozen_relationships_of self target rf)))"
    unfolding r
  proof (rule list_all2_map_same)
    fix e
    show "(if e (fk_name rf) = self ''id'' \<and> (is_pita rf \<longrightarrow> e ''replaced_at'' = Null)
           then e(fk_name rf := target ''id'') else e) ''id'' = e ''id''
        \<and> ((is_pita rf \<longrightarrow> e ''replaced_at'' = Null) \<longrightarrow>
             (if e (fk_name rf) = self ''id'' \<and> (is_pita rf \<longrightarrow> e ''replaced_at'' = Null)
              then e(fk_name rf := target ''id'') else e)
             = (if e (fk_name rf) = self ''id'' then e(fk_name rf := target ''id'') else e))"
      using w(3) by simp
  qed
  with True show ?thesis by (simp add: move_frozen_relationships_of_attrs)
qed

lemma save_update_edges:
  assumes dk: "distinct (map (\<lambda>r. r ''id'') (rows (main d)))"
    and fresh: "\<forall>r \<in> set (rows (main d)). r ''id'' \<noteq> IntV (next_id (main d))"
    and pk: "self ''id'' = IntV k" and cur: "self ''replaced_at'' = Null"
    and old: "old \<in> set (rows (main d))" "old ''id'' = IntV k" "old ''replaced_at'' = Null"
    and rwf: "\<forall>rf \<in> set (referrers d).
                distinct (map (\<lambda>r. r ''id'') (rows (ref_table rf)))
              \<and> (\<forall>r \<in> set (rows (ref_table rf)). r ''id'' \<noteq> Null)
              \<and> fk_name rf \<noteq> ''id''"
  shows "\<exists>d' v' clone.
      save model now user d self = Inr (d', v')
    \<and> clone \<in> set (rows (main d')) \<and> clone ''id'' = IntV (next_id (main d))
    \<and> (\<forall>n. n \<notin> set (get_one_to_one_fields model) \<union> {''id'', ''row_id'', ''replaced_at''}
           \<longrightarrow> clone n = old n)
    \<and> list_all2
        (\<lambda>rf rf'. if frozen rf then
             fk_name rf' = fk_name rf
           \<and> list_all2
               (\<lambda>e e'. e' ''id'' = e ''id''
                  \<and> ((is_pita rf \<longrightarrow> e ''replaced_at'' = Null) \<longrightarrow>
                       e' = (if e (fk_name rf) = IntV k
                             then e(fk_name rf := IntV (next_id (main d))) else e)))
               (rows (ref_table rf)) (rows (ref_table rf'))
           else rf' = rf)
        (referrers d) (referrers d')"
proof -
  define clone where "clone = (fold (\<lambda>field_name i. i(field_name := Null))
                        (get_one_to_one_fields model) (old(''id'' := Null)))
                     (''id'' := IntV (next_id (main d)), ''replaced_at'' := IntV now,
                      ''row_id'' := IntV k)"
  from save_update_eq[where d=d and self=self and old=old and k=k and model=model
      and now=now and user=user] dk fresh pk cur old
  obtain v' where sv0: "save model now user d self =
           Inr (d\<lparr>main := (main d)\<lparr>rows := map (\<lambda>r. if r ''id'' = IntV k then v' else r)
                                             (rows (main d)) @ [clone],
                                    next_id := next_id (main d) + 1\<rparr>,
                  referrers := map (move_frozen_relationships_of self clone) (referrers d)\<rparr>, v')"
    unfolding clone_def by blast
  define d' where "d' = d\<lparr>main := (main d)\<lparr>rows := map (\<lambda>r. if r ''id'' = IntV k then v' else r)
                                             (rows (main d)) @ [clone],
                                    next_id := next_id (main d) + 1\<rparr>,
                  referrers := map (move_frozen_relationships_of self clone) (referrers d)\<rparr>"
  have sv: "save model now user d self = Inr (d', v')" using sv0 by (simp add: d'_def)
  have c1: "clone \<in> set (rows (main d'))" "clone ''id'' = IntV (next_id (main d))"
    by (simp_all add: d'_def clone_def)
  have c3: "\<forall>n. n \<notin> set (get_one_to_one_fields model) \<union> {''id'', ''row_id'', ''replaced_at''}
           \<longrightarrow> clone n = old n"
    by (auto simp: clone_def fold_null)
  have rd: "referrers d' = map (move_frozen_relationships_of self clone) (referrers d)"
    by (simp add: d'_def)
  have rf: "list_all2
        (\<lambda>rf rf'. if frozen rf then
             fk_name rf' = fk_name rf
           \<and> list_all2
               (\<lambda>e e'. e' ''id'' = e ''id''
                  \<and> ((is_pita rf \<longrightarrow> e ''replaced_at'' = Null) \<longrightarrow>
                       e' = (if e (fk_name rf) = IntV k
                             then e(fk_name rf := IntV (next_id (main d))) else e)))
               (rows (ref_table rf)) (rows (ref_table rf'))
           else rf' = rf)
        (referrers d) (referrers d')"
    unfolding rd
  proof (rule list_all2_map_same)
    fix rf assume "rf \<in> set (referrers d)"
    with rwf have w: "distinct (map (\<lambda>r. r ''id'') (rows (ref_table rf)))"
      "\<forall>r \<in> set (rows (ref_table rf)). r ''id'' \<noteq> Null" "fk_name rf \<noteq> ''id''"
      by auto
    from move_frozen_relationships_of_rel[where rf=rf and self=self and target=clone, OF w]
    show "if frozen rf then
             fk_name (move_frozen_relationships_of self clone rf) = fk_name rf
           \<and> list_all2
               (\<lambda>e e'. e' ''id'' = e ''id''
                  \<and> ((is_pita rf \<longrightarrow> e ''replaced_at'' = Null) \<longrightarrow>
                       e' = (if e (fk_name rf) = IntV k
                             then e(fk_name rf := IntV (next_id (main d))) else e)))
               (rows (ref_table rf))
               (rows (ref_table (move_frozen_relationships_of self clone rf)))
           else move_frozen_relationships_of self clone rf = rf"
      unfolding pk c1(2) .
  qed
  show ?thesis
    by (intro exI[of _ d'] exI[of _ v'] exI[of _ clone] conjI) (rule sv c1 c3 rf)+
qed

subsection \<open>Referencing rows through the removals of a revert\<close>

lemma foldl_on_delete_fk:
  "fk_name (foldl (\<lambda>a q. on_delete_apply (q ''id'') a) rf qs) = fk_name rf"
  by (induction qs arbitrary: rf) (simp_all add: on_delete_apply_attrs)

lemma on_delete_apply_keeps:
  assumes "e \<in> set (rows (ref_table rf))" and "e (fk_name rf) \<noteq> k"
  shows "e \<in> set (rows (ref_table (on_delete_apply k rf)))"
proof (cases "on_delete rf")
  case CASCADE
  then show ?thesis using assms by (simp add: on_delete_apply_def)
next
  case (SET_TO v)
  have "e \<in> (\<lambda>r. if r (fk_name rf) = k then r(fk_name rf := v) else r) ` set (rows (ref_table rf))"
    by (rule image_eqI[OF _ assms(1)]) (simp add: assms(2))
  then show ?thesis using SET_TO by (simp add: on_delete_apply_def)
next
  case PROTECT
  then show ?thesis using assms by (simp add: on_delete_apply_def)
next
  case RESTRICT
  then show ?thesis using assms by (simp add: on_delete_apply_def)
next
  case DO_NOTHING
  then show ?thesis using assms by (simp add: on_delete_apply_def)
qed

lemma foldl_on_delete_keeps:
  "e \<in> set (rows (ref_table rf)) \<Longrightarrow> \<forall>q \<in> set qs. e (fk_name rf) \<noteq> q ''id'' \<Longrightarrow>
     e \<in> set (rows (ref_table (foldl (\<lambda>a q. on_delete_apply (q ''id'') a) rf qs)))"
proof (induction qs arbitrary: rf)
  case Nil
  then show ?case by simp
next
  case (Cons q qs)
  have ne: "e (fk_name rf) \<noteq> q ''id''" using Cons.prems(2) by simp
  have a: "e \<in> set (rows (ref_table (on_delete_apply (q ''id'') rf)))"
    using on_delete_apply_keeps[where e=e and rf=rf and k="q ''id''"] Cons.prems(1) ne by simp
  have b: "\<forall>x \<in> set qs. e (fk_name (on_delete_apply (q ''id'') rf)) \<noteq> x ''id''"
    using Cons.prems(2) by (simp add: on_delete_apply_attrs)
  from Cons.IH[OF a b] show ?case by simp
qed

lemma on_delete_apply_ids:
  assumes "fk_name rf \<noteq> ''id''"
  shows "(\<lambda>e. e ''id'') ` set (rows (ref_table (on_delete_apply k rf)))
           \<subseteq> (\<lambda>e. e ''id'') ` set (rows (ref_table rf))"
proof (cases "on_delete rf")
  case CASCADE
  then show ?thesis by (auto simp: on_delete_apply_def)
next
  case (SET_TO v)
  have "map (\<lambda>e. e ''id'')
          (map (\<lambda>r. if r (fk_name rf) = k then r(fk_name rf := v) else r) (rows (ref_table rf)))
        = map (\<lambda>e. e ''id'') (rows (ref_table rf))"
    using assms by (simp add: comp_def)
  then have "(\<lambda>e. e ''id'') ` set (map (\<lambda>r. if r (fk_name rf) = k then r(fk_name rf := v) else r)
                                     (rows (ref_table rf)))
             = (\<lambda>e. e ''id'') ` set (rows (ref_table rf))"
    by (metis set_map)
  then show ?thesis using SET_TO by (simp add: on_delete_apply_def)
next
  case PROTECT
  then show ?thesis by (simp add: on_delete_apply_def)
next
  case RESTRICT
  then show ?thesis by (simp add: on_delete_apply_def)
next
  case DO_NOTHING
  then show ?thesis by (simp add: on_delete_apply_def)
qed

lemma foldl_on_delete_ids:
  "fk_name rf \<noteq> ''id'' \<Longrightarrow>
     (\<lambda>e. e ''id'') ` set (rows (ref_table (foldl (\<lambda>a q. on_delete_apply (q ''id'') a) rf qs)))
       \<subseteq> (\<lambda>e. e ''id'') ` set (rows (ref_table rf))"
proof (induction qs arbitrary: rf)
  case Nil
  then show ?case by simp
next
  case (Cons q qs)
  have f: "fk_name (on_delete_apply (q ''id'') rf) \<noteq> ''id''"
    using Cons.prems by (simp add: on_delete_apply_attrs)
  have "(\<lambda>e. e ''id'') ` set (rows (ref_table
            (foldl (\<lambda>a q. on_delete_apply (q ''id'') a) (on_delete_apply (q ''id'') rf) qs)))
          \<subseteq> (\<lambda>e. e ''id'') ` set (rows (ref_table (on_delete_apply (q ''id'') rf)))"
    by (rule Cons.IH[OF f])
  also have "\<dots> \<subseteq> (\<lambda>e. e ''id'') ` set (rows (ref_table rf))"
    by (rule on_delete_apply_ids[OF Cons.prems])
  finally show ?case by simp
qed

text \<open>One relation through a successful core revert: first the move of the frozen
  references from the target to the current version, then the removals.\<close>

lemma revert_relation:
  assumes w: "distinct (map (\<lambda>r. r ''id'') (rows (ref_table rf)))"
    "\<forall>r \<in> set (rows (ref_table rf)). r ''id'' \<noteq> Null" "fk_name rf \<noteq> ''id''"
    and ne: "sid \<noteq> previous ''id''" and tid: "target ''id'' = sid"
    and qs: "\<forall>q \<in> set qs. q ''id'' \<noteq> sid"
  defines "rf' \<equiv> foldl (\<lambda>a q. on_delete_apply (q ''id'') a)
                     (move_frozen_relationships_of previous target rf) qs"
  shows "fk_name rf' = fk_name rf
       \<and> (\<forall>e \<in> set (rows (ref_table rf)).
             (frozen rf \<and> e (fk_name rf) = previous ''id''
                \<and> (is_pita rf \<longrightarrow> e ''replaced_at'' = Null)
              \<longrightarrow> e(fk_name rf := sid) \<in> set (rows (ref_table rf')))
           \<and> (e (fk_name rf) = sid \<longrightarrow> e \<in> set (rows (ref_table rf'))))
       \<and> (\<lambda>e. e ''id'') ` set (rows (ref_table rf')) \<subseteq> (\<lambda>e. e ''id'') ` set (rows (ref_table rf))"
proof -
  define rf1 where "rf1 = move_frozen_relationships_of previous target rf"
  define h where "h = (\<lambda>e. if e (fk_name rf) = previous ''id''
                             \<and> (is_pita rf \<longrightarrow> e ''replaced_at'' = Null)
                          then e(fk_name rf := sid) else e)"
  have fk1: "fk_name rf1 = fk_name rf"
    by (simp add: rf1_def move_frozen_relationships_of_attrs)
  have r1: "rows (ref_table rf1) = (if frozen rf then map h (rows (ref_table rf))
                                     else rows (ref_table rf))"
  proof (cases "frozen rf")
    case True
    have "rf1 = rf\<lparr>ref_table := (ref_table rf)\<lparr>rows :=
                map (\<lambda>e. if e (fk_name rf) = previous ''id''
                             \<and> (is_pita rf \<longrightarrow> e ''replaced_at'' = Null)
                          then e(fk_name rf := target ''id'') else e)
                  (rows (ref_table rf))\<rparr>\<rparr>"
      unfolding rf1_def
      by (rule move_frozen_relationships_of_rows[where rf=rf and self=previous
            and target=target, OF w True])
    then have "rows (ref_table rf1) =
                map (\<lambda>e. if e (fk_name rf) = previous ''id''
                             \<and> (is_pita rf \<longrightarrow> e ''replaced_at'' = Null)
                          then e(fk_name rf := target ''id'') else e)
                  (rows (ref_table rf))"
      by simp
    then have "rows (ref_table rf1) = map h (rows (ref_table rf))"
      unfolding h_def tid .
    then show ?thesis by (simp only: True if_True)
  next
    case False
    then show ?thesis by (simp add: rf1_def move_frozen_relationships_of_def)
  qed
  have rf': "rf' = foldl (\<lambda>a q. on_delete_apply (q ''id'') a) rf1 qs"
    by (simp add: rf'_def rf1_def)
  have a: "fk_name rf' = fk_name rf" unfolding rf' by (simp add: foldl_on_delete_fk fk1)
  have keep: "\<And>x. x \<in> set (rows (ref_table rf1)) \<Longrightarrow> x (fk_name rf) = sid
                  \<Longrightarrow> x \<in> set (rows (ref_table rf'))"
  proof -
    fix x assume x: "x \<in> set (rows (ref_table rf1))" and xs: "x (fk_name rf) = sid"
    have "\<forall>q \<in> set qs. x (fk_name rf1) \<noteq> q ''id''"
    proof
      fix q assume "q \<in> set qs"
      with qs have "q ''id'' \<noteq> sid" by (rule bspec)
      then show "x (fk_name rf1) \<noteq> q ''id''" unfolding fk1 xs by simp
    qed
    with x show "x \<in> set (rows (ref_table rf'))"
      unfolding rf' by (rule foldl_on_delete_keeps)
  qed
  have b: "\<forall>e \<in> set (rows (ref_table rf)).
             (frozen rf \<and> e (fk_name rf) = previous ''id''
                \<and> (is_pita rf \<longrightarrow> e ''replaced_at'' = Null)
              \<longrightarrow> e(fk_name rf := sid) \<in> set (rows (ref_table rf')))
           \<and> (e (fk_name rf) = sid \<longrightarrow> e \<in> set (rows (ref_table rf')))"
  proof (intro ballI conjI impI)
    fix e assume e: "e \<in> set (rows (ref_table rf))"
    { assume s: "frozen rf \<and> e (fk_name rf) = previous ''id''
                \<and> (is_pita rf \<longrightarrow> e ''replaced_at'' = Null)"
      have he: "h e = e(fk_name rf := sid)" using s by (simp add: h_def)
      have "h e \<in> h ` set (rows (ref_table rf))" using e by (rule imageI)
      then have "e(fk_name rf := sid) \<in> set (rows (ref_table rf1))"
        unfolding r1 he using s by simp
      moreover have "(e(fk_name rf := sid)) (fk_name rf) = sid" by simp
      ultimately show "e(fk_name rf := sid) \<in> set (rows (ref_table rf'))" by (rule keep) }
    { assume s: "e (fk_name rf) = sid"
      have he: "h e = e" using s ne by (simp add: h_def)
      have "h e \<in> h ` set (rows (ref_table rf))" using e by (rule imageI)
      then have "e \<in> h ` set (rows (ref_table rf))" unfolding he .
      then have "e \<in> set (rows (ref_table rf1))" unfolding r1 using e by simp
      then show "e \<in> set (rows (ref_table rf'))" using s by (rule keep) }
  qed
  have ids1: "(\<lambda>e. e ''id'') ` set (rows (ref_table rf1)) = (\<lambda>e. e ''id'') ` set (rows (ref_table rf))"
  proof (cases "frozen rf")
    case True
    have "map (\<lambda>e. e ''id'') (map h (rows (ref_table rf))) = map (\<lambda>e. e ''id'') (rows (ref_table rf))"
      using w(3) by (simp add: h_def comp_def)
    then have "(\<lambda>e. e ''id'') ` set (map h (rows (ref_table rf)))
                 = (\<lambda>e. e ''id'') ` set (rows (ref_table rf))"
      by (metis set_map)
    then show ?thesis unfolding r1 using True by simp
  next
    case False
    then show ?thesis unfolding r1 by simp
  qed
  have "fk_name rf1 \<noteq> ''id''" using fk1 w(3) by simp
  then have "(\<lambda>e. e ''id'') ` set (rows (ref_table rf'))
               \<subseteq> (\<lambda>e. e ''id'') ` set (rows (ref_table rf1))"
    unfolding rf' by (rule foldl_on_delete_ids)
  then have c: "(\<lambda>e. e ''id'') ` set (rows (ref_table rf'))
                  \<subseteq> (\<lambda>e. e ''id'') ` set (rows (ref_table rf))"
    unfolding ids1 .
  from a b c show ?thesis by (intro conjI)
qed

lemma core_revert_edges:
  assumes ok: "u_rollback_to model d self previous fields' exclude = Inr (d', v')"
    and pkf: "\<forall>f \<in> set (concrete_fields model @ private_fields model).
                name f = ''id'' \<longrightarrow> primary_key f"
    and rwf: "\<forall>rf \<in> set (referrers d).
                distinct (map (\<lambda>r. r ''id'') (rows (ref_table rf)))
              \<and> (\<forall>r \<in> set (rows (ref_table rf)). r ''id'' \<noteq> Null)
              \<and> fk_name rf \<noteq> ''id''"
  shows "list_all2
        (\<lambda>rf rf'. fk_name rf' = fk_name rf
           \<and> (\<forall>e \<in> set (rows (ref_table rf)).
                 (frozen rf \<and> e (fk_name rf) = previous ''id''
                    \<and> (is_pita rf \<longrightarrow> e ''replaced_at'' = Null)
                  \<longrightarrow> e(fk_name rf := self ''id'') \<in> set (rows (ref_table rf')))
               \<and> (e (fk_name rf) = self ''id'' \<longrightarrow> e \<in> set (rows (ref_table rf'))))
           \<and> (\<lambda>e. e ''id'') ` set (rows (ref_table rf'))
                \<subseteq> (\<lambda>e. e ''id'') ` set (rows (ref_table rf)))
        (referrers d) (referrers d')"
proof -
  define R where "R = revert_fields model fields' exclude previous self"
  from u_rollback_to_Inr[where model=model and d=d and self=self and previous=previous
      and fields'=fields' and exclude=exclude and d'=d' and v'=v'] ok
  obtain c p d1 d2 where
    ne: "self ''id'' \<noteq> previous ''id''"
    and mv: "move_frozen_relationships d previous
               (R(''replaced_at'' := Null, ''created_at'' := IntV p)) = Inr d1"
    and de: "delete_each
               (filter (\<lambda>r. lookup_gte (r ''created_at'') p \<and> r ''row_id'' = R ''row_id''
                          \<and> r ''id'' \<noteq> R ''id'') (rows (main d1)))
               d1 = Inr d2"
    and d': "d' = d2\<lparr>main := main d'\<rparr>"
    unfolding R_def by blast
  define S where "S = R(''replaced_at'' := Null, ''created_at'' := IntV p)"
  define qs where "qs = filter (\<lambda>r. lookup_gte (r ''created_at'') p \<and> r ''row_id'' = R ''row_id''
                          \<and> r ''id'' \<noteq> R ''id'') (rows (main d1))"
  have Rid: "R ''id'' = self ''id''"
    unfolding R_def revert_fields_def
    using foldl_revert_keeps_pk[where n="''id''" and s=self
        and fs="concrete_fields model @ private_fields model"] pkf
    by (simp del: foldl_append)
  have Sid: "S ''id'' = self ''id''" using Rid by (simp add: S_def)
  have q: "\<forall>q \<in> set qs. q ''id'' \<noteq> self ''id''" by (simp add: qs_def Rid)
  have r1: "referrers d1 = map (move_frozen_relationships_of previous S) (referrers d)"
    using mv by (auto simp: move_frozen_relationships_def S_def split: if_splits)
  have r2: "referrers d2 = map (\<lambda>rf. foldl (\<lambda>a q. on_delete_apply (q ''id'') a) rf qs)
                             (referrers d1)"
    using delete_each_Inr[where qs=qs and d=d1 and d'=d2] de by (simp add: qs_def)
  have "referrers d' = referrers d2"
    using d' by (metis db.select_convs(2) db.surjective db.update_convs(1))
  then have r3: "referrers d' =
                   map (\<lambda>rf. foldl (\<lambda>a q. on_delete_apply (q ''id'') a)
                               (move_frozen_relationships_of previous S rf) qs)
                     (referrers d)"
    by (simp add: r2 r1 comp_def)
  show ?thesis
    unfolding r3
  proof (rule list_all2_map_same)
    fix rf assume "rf \<in> set (referrers d)"
    with rwf have w: "distinct (map (\<lambda>r. r ''id'') (rows (ref_table rf)))"
      "\<forall>r \<in> set (rows (ref_table rf)). r ''id'' \<noteq> Null" "fk_name rf \<noteq> ''id''"
      by auto
    show "fk_name (foldl (\<lambda>a q. on_delete_apply (q ''id'') a)
                     (move_frozen_relationships_of previous S rf) qs) = fk_name rf
       \<and> (\<forall>e \<in> set (rows (ref_table rf)).
             (frozen rf \<and> e (fk_name rf) = previous ''id''
                \<and> (is_pita rf \<longrightarrow> e ''replaced_at'' = Null)
              \<longrightarrow> e(fk_name rf := self ''id'')
                    \<in> set (rows (ref_table (foldl (\<lambda>a q. on_delete_apply (q ''id'') a)
                                 (move_frozen_relationships_of previous S rf) qs))))
           \<and> (e (fk_name rf) = self ''id''
              \<longrightarrow> e \<in> set (rows (ref_table (foldl (\<lambda>a q. on_delete_apply (q ''id'') a)
                                 (move_frozen_relationships_of previous S rf) qs)))))
       \<and> (\<lambda>e. e ''id'') ` set (rows (ref_table (foldl (\<lambda>a q. on_delete_apply (q ''id'') a)
                                 (move_frozen_relationships_of previous S rf) qs)))
            \<subseteq> (\<lambda>e. e ''id'') ` set (rows (ref_table rf))"
      by (rule revert_relation[where rf=rf and sid="self ''id''" and previous=previous
            and target=S and qs=qs, OF w ne Sid q])
  qed
qed

subsection \<open>Success of the core revert step under protecting keys\<close>

text \<open>The step succeeds also where keys refuse removal, as long as every row of such
  a key that refers to a version to be removed is a frozen reference to the target
  that the move takes away first.\<close>

lemma u_rollback_to_succeeds_protected:
  assumes ne: "self ''id'' \<noteq> previous ''id''" and cur: "self ''replaced_at'' = Null"
    and c: "self ''created_at'' = IntV c" and p: "previous ''created_at'' = IntV p"
    and lt: "p < c" and pid: "previous ''id'' \<noteq> Null"
    and keys: "\<forall>r \<in> set (rows (main d)). r ''id'' \<noteq> Null"
    and grp: "previous ''row_id'' = self ''row_id''"
    and pkf: "\<forall>f \<in> set (concrete_fields model @ private_fields model).
                name f = ''id'' \<longrightarrow> primary_key f"
    and rwf: "\<forall>rf \<in> set (referrers d).
                distinct (map (\<lambda>r. r ''id'') (rows (ref_table rf)))
              \<and> (\<forall>r \<in> set (rows (ref_table rf)). r ''id'' \<noteq> Null)
              \<and> fk_name rf \<noteq> ''id''"
    and nb: "\<forall>rf \<in> set (referrers d). refuses rf \<longrightarrow>
               (\<forall>e \<in> set (rows (ref_table rf)). \<forall>r \<in> set (rows (main d)).
                  r ''row_id'' = self ''row_id'' \<and> r ''id'' \<noteq> self ''id''
                  \<and> lookup_gte (r ''created_at'') p \<and> e (fk_name rf) = r ''id''
                  \<longrightarrow> frozen rf \<and> r ''id'' = previous ''id''
                      \<and> (is_pita rf \<longrightarrow> e ''replaced_at'' = Null))"
  shows "\<exists>d' v'. u_rollback_to model d self previous fields' exclude = Inr (d', v')"
proof -
  define R where "R = revert_fields model fields' exclude previous self"
  define S where "S = R(''replaced_at'' := Null, ''created_at'' := IntV p)"
  define d1 where "d1 = d\<lparr>referrers := map (move_frozen_relationships_of previous S) (referrers d)\<rparr>"
  define qs where "qs = filter (\<lambda>r. lookup_gte (r ''created_at'') p
            \<and> r ''row_id'' = R ''row_id'' \<and> r ''id'' \<noteq> R ''id'') (rows (main d1))"
  have Rid: "R ''id'' = self ''id''"
    unfolding R_def revert_fields_def
    using foldl_revert_keeps_pk[where n="''id''" and s=self
        and fs="concrete_fields model @ private_fields model"] pkf
    by (simp del: foldl_append)
  have Rg: "R ''row_id'' = self ''row_id''"
    unfolding R_def revert_fields_def
    using foldl_revert_same[where p=previous and s=self and n="''row_id''"] grp
    by (simp del: foldl_append)
  have Sid: "S ''id'' = self ''id''" using Rid by (simp add: S_def)
  have mv: "move_frozen_relationships d previous S = Inr d1"
    using pid by (simp add: move_frozen_relationships_def d1_def)
  have nr: "\<not> refused d1 (q ''id'')" if qin: "q \<in> set qs" for q
  proof
    assume "refused d1 (q ''id'')"
    then obtain rf where rf: "rf \<in> set (referrers d)"
      and rr: "refuses (move_frozen_relationships_of previous S rf)"
      and ro: "related_objects (move_frozen_relationships_of previous S rf) (q ''id'') \<noteq> []"
      unfolding refused_def d1_def by auto
    define rf1 where "rf1 = move_frozen_relationships_of previous S rf"
    have fk1: "fk_name rf1 = fk_name rf"
      by (simp add: rf1_def move_frozen_relationships_of_attrs)
    have ref: "refuses rf"
      using rr by (simp add: move_frozen_relationships_of_def refuses_def split: if_splits)
    from rwf rf have w: "distinct (map (\<lambda>r. r ''id'') (rows (ref_table rf)))"
      "\<forall>r \<in> set (rows (ref_table rf)). r ''id'' \<noteq> Null" "fk_name rf \<noteq> ''id''"
      by auto
    have q: "q \<in> set (rows (main d))" "lookup_gte (q ''created_at'') p"
      "q ''row_id'' = self ''row_id''" "q ''id'' \<noteq> self ''id''"
      using qin by (simp_all add: qs_def d1_def Rid Rg)
    from ro obtain x where x: "x \<in> set (rows (ref_table rf1))" "x (fk_name rf) = q ''id''"
      unfolding rf1_def[symmetric] related_objects_def fk1
      by (auto simp: filter_empty_conv)
    have nbq: "\<And>e. e \<in> set (rows (ref_table rf)) \<Longrightarrow> e (fk_name rf) = q ''id''
                 \<Longrightarrow> frozen rf \<and> q ''id'' = previous ''id''
                      \<and> (is_pita rf \<longrightarrow> e ''replaced_at'' = Null)"
      using nb rf ref q by blast
    show False
    proof (cases "frozen rf")
      case False
      then have "rf1 = rf" by (simp add: rf1_def move_frozen_relationships_of_def)
      with x have "x \<in> set (rows (ref_table rf))" by simp
      from nbq[OF this x(2)] False show False by simp
    next
      case True
      have "rf1 = rf\<lparr>ref_table := (ref_table rf)\<lparr>rows :=
                map (\<lambda>e. if e (fk_name rf) = previous ''id''
                             \<and> (is_pita rf \<longrightarrow> e ''replaced_at'' = Null)
                          then e(fk_name rf := S ''id'') else e)
                  (rows (ref_table rf))\<rparr>\<rparr>"
        unfolding rf1_def
        by (rule move_frozen_relationships_of_rows[where rf=rf and self=previous
              and target=S, OF w True])
      then have "rows (ref_table rf1) =
                map (\<lambda>e. if e (fk_name rf) = previous ''id''
                             \<and> (is_pita rf \<longrightarrow> e ''replaced_at'' = Null)
                          then e(fk_name rf := S ''id'') else e)
                  (rows (ref_table rf))"
        by simp
      with x(1) obtain e where e: "e \<in> set (rows (ref_table rf))"
        and xe: "x = (if e (fk_name rf) = previous ''id''
                             \<and> (is_pita rf \<longrightarrow> e ''replaced_at'' = Null)
                          then e(fk_name rf := S ''id'') else e)"
        by auto
      define sel where "sel \<longleftrightarrow> e (fk_name rf) = previous ''id''
                             \<and> (is_pita rf \<longrightarrow> e ''replaced_at'' = Null)"
      have xs: "x = (if sel then e(fk_name rf := S ''id'') else e)"
        using xe unfolding sel_def .
      show False
      proof (cases sel)
        case True
        with xs have "x = e(fk_name rf := S ''id'')" by simp
        then have "x (fk_name rf) = S ''id''" by simp
        then show False using x(2) Sid q(4) by simp
      next
        case False
        with xs have "x = e" by simp
        then have ek: "e (fk_name rf) = q ''id''" using x(2) by simp
        from nbq[OF e ek] have "q ''id'' = previous ''id''"
          "is_pita rf \<longrightarrow> e ''replaced_at'' = Null" by simp_all
        with ek have sel unfolding sel_def by simp
        with False show False by simp
      qed
    qed
  qed
  have "\<forall>q \<in> set qs. q ''id'' \<noteq> Null \<and> \<not> refused d1 (q ''id'')"
  proof
    fix q assume qin: "q \<in> set qs"
    then have "q \<in> set (rows (main d))" by (simp add: qs_def d1_def)
    with keys have "q ''id'' \<noteq> Null" by (rule bspec)
    with nr[OF qin] show "q ''id'' \<noteq> Null \<and> \<not> refused d1 (q ''id'')" by simp
  qed
  from delete_each_ok[OF this]
  obtain d2 where de: "delete_each qs d1 = Inr d2" by blast
  obtain t3 s' where us: "u_save (main d2) S = (t3, s')" by (cases "u_save (main d2) S")
  have "u_rollback_to model d self previous fields' exclude = Inr (d2\<lparr>main := t3\<rparr>, s')"
    using ne cur c p lt mv de us
    unfolding u_rollback_to_def S_def qs_def R_def PointInTimeBaseManager_get_queryset_def
    by simp
  then show ?thesis by blast
qed

text \<open>
  C5, as amended. Referencing tables have distinct keys, their rows have keys, and the
  foreign key is not the key field. On an update of the stored current row \<open>old\<close> of
  key \<open>k\<close>, each table of a frozen key is rewritten row by row in place, every row
  keeping its key; a row of a referencing model that is not versioned, or a current
  row of one that is, points at the clone afterwards when it pointed at \<open>k\<close> and is as
  it was otherwise; the tables of other keys are as they were; and the clone holds
  the stored values of \<open>old\<close> in every field but the key, \<open>row_id\<close>, \<open>replaced_at\<close> and
  the one-to-one fields. On a successful core revert, every such row of a frozen key
  that pointed at the target is in its table pointing at the reverted current row;
  every referencing row that pointed at the current row is still there as it was; and
  no referencing table has a key that it did not have. The replaced versions of a
  versioned referencing model are not part of this statement.
\<close>

theorem frozen_edges_repointed:
  "(distinct (map (\<lambda>r. r ''id'') (rows (main d)))
      \<and> (\<forall>r \<in> set (rows (main d)). r ''id'' \<noteq> IntV (next_id (main d)))
      \<and> self ''id'' = IntV k \<and> self ''replaced_at'' = Null
      \<and> old \<in> set (rows (main d)) \<and> old ''id'' = IntV k \<and> old ''replaced_at'' = Null
      \<and> (\<forall>rf \<in> set (referrers d).
            distinct (map (\<lambda>r. r ''id'') (rows (ref_table rf)))
          \<and> (\<forall>r \<in> set (rows (ref_table rf)). r ''id'' \<noteq> Null)
          \<and> fk_name rf \<noteq> ''id'')
    \<longrightarrow> (\<exists>d' v' clone.
          save model now user d self = Inr (d', v')
        \<and> clone \<in> set (rows (main d')) \<and> clone ''id'' = IntV (next_id (main d))
        \<and> (\<forall>n. n \<notin> set (get_one_to_one_fields model) \<union> {''id'', ''row_id'', ''replaced_at''}
               \<longrightarrow> clone n = old n)
        \<and> list_all2
            (\<lambda>rf rf'. if frozen rf then
                 fk_name rf' = fk_name rf
               \<and> list_all2
                   (\<lambda>e e'. e' ''id'' = e ''id''
                      \<and> ((is_pita rf \<longrightarrow> e ''replaced_at'' = Null) \<longrightarrow>
                           e' = (if e (fk_name rf) = IntV k
                                 then e(fk_name rf := IntV (next_id (main d))) else e)))
                   (rows (ref_table rf)) (rows (ref_table rf'))
               else rf' = rf)
            (referrers d) (referrers d')))
   \<and> (u_rollback_to model2 d2 self2 previous fields' exclude = Inr (d2', v2')
      \<and> (\<forall>f \<in> set (concrete_fields model2 @ private_fields model2).
            name f = ''id'' \<longrightarrow> primary_key f)
      \<and> (\<forall>rf \<in> set (referrers d2).
            distinct (map (\<lambda>r. r ''id'') (rows (ref_table rf)))
          \<and> (\<forall>r \<in> set (rows (ref_table rf)). r ''id'' \<noteq> Null)
          \<and> fk_name rf \<noteq> ''id'')
    \<longrightarrow> list_all2
          (\<lambda>rf rf'. fk_name rf' = fk_name rf
             \<and> (\<forall>e \<in> set (rows (ref_table rf)).
                   (frozen rf \<and> e (fk_name rf) = previous ''id''
                      \<and> (is_pita rf \<longrightarrow> e ''replaced_at'' = Null)
                    \<longrightarrow> e(fk_name rf := self2 ''id'') \<in> set (rows (ref_table rf')))
                 \<and> (e (fk_name rf) = self2 ''id'' \<longrightarrow> e \<in> set (rows (ref_table rf'))))
             \<and> (\<lambda>e. e ''id'') ` set (rows (ref_table rf'))
                  \<subseteq> (\<lambda>e. e ''id'') ` set (rows (ref_table rf)))
          (referrers d2) (referrers d2'))"
proof (intro conjI impI)
  assume a: "distinct (map (\<lambda>r. r ''id'') (rows (main d)))
      \<and> (\<forall>r \<in> set (rows (main d)). r ''id'' \<noteq> IntV (next_id (main d)))
      \<and> self ''id'' = IntV k \<and> self ''replaced_at'' = Null
      \<and> old \<in> set (rows (main d)) \<and> old ''id'' = IntV k \<and> old ''replaced_at'' = Null
      \<and> (\<forall>rf \<in> set (referrers d).
            distinct (map (\<lambda>r. r ''id'') (rows (ref_table rf)))
          \<and> (\<forall>r \<in> set (rows (ref_table rf)). r ''id'' \<noteq> Null)
          \<and> fk_name rf \<noteq> ''id'')"
  show "\<exists>d' v' clone.
          save model now user d self = Inr (d', v')
        \<and> clone \<in> set (rows (main d')) \<and> clone ''id'' = IntV (next_id (main d))
        \<and> (\<forall>n. n \<notin> set (get_one_to_one_fields model) \<union> {''id'', ''row_id'', ''replaced_at''}
               \<longrightarrow> clone n = old n)
        \<and> list_all2
            (\<lambda>rf rf'. if frozen rf then
                 fk_name rf' = fk_name rf
               \<and> list_all2
                   (\<lambda>e e'. e' ''id'' = e ''id''
                      \<and> ((is_pita rf \<longrightarrow> e ''replaced_at'' = Null) \<longrightarrow>
                           e' = (if e (fk_name rf) = IntV k
                                 then e(fk_name rf := IntV (next_id (main d))) else e)))
                   (rows (ref_table rf)) (rows (ref_table rf'))
               else rf' = rf)
            (referrers d) (referrers d')"
    using save_update_edges[where d=d and self=self and k=k and old=old and model=model
        and now=now and user=user] a
    by simp
next
  assume b: "u_rollback_to model2 d2 self2 previous fields' exclude = Inr (d2', v2')
      \<and> (\<forall>f \<in> set (concrete_fields model2 @ private_fields model2).
            name f = ''id'' \<longrightarrow> primary_key f)
      \<and> (\<forall>rf \<in> set (referrers d2).
            distinct (map (\<lambda>r. r ''id'') (rows (ref_table rf)))
          \<and> (\<forall>r \<in> set (rows (ref_table rf)). r ''id'' \<noteq> Null)
          \<and> fk_name rf \<noteq> ''id'')"
  show "list_all2
          (\<lambda>rf rf'. fk_name rf' = fk_name rf
             \<and> (\<forall>e \<in> set (rows (ref_table rf)).
                   (frozen rf \<and> e (fk_name rf) = previous ''id''
                      \<and> (is_pita rf \<longrightarrow> e ''replaced_at'' = Null)
                    \<longrightarrow> e(fk_name rf := self2 ''id'') \<in> set (rows (ref_table rf')))
                 \<and> (e (fk_name rf) = self2 ''id'' \<longrightarrow> e \<in> set (rows (ref_table rf'))))
             \<and> (\<lambda>e. e ''id'') ` set (rows (ref_table rf'))
                  \<subseteq> (\<lambda>e. e ''id'') ` set (rows (ref_table rf)))
          (referrers d2) (referrers d2')"
    using core_revert_edges[where model=model2 and d=d2 and self=self2 and previous=previous
        and fields'=fields' and exclude=exclude and d'=d2' and v'=v2'] b
    by simp
qed

text \<open>
  The claim as stated fails in two ways that the code is built for. A reference to
  the current version of key 1, which holds \<open>second\<close>, still points at key 1 after
  \<open>rollback_latest\<close>, and key 1 then holds \<open>first\<close>: a rollback discards the values of
  the current version. And a reference to key 1, whose one-to-one field \<open>partner\<close>
  holds 7, points after an update at the clone of key 2, whose \<open>partner\<close> is null: the
  clone never takes the one-to-one fields.
\<close>

theorem frozen_payload_counterexample:
  "map (\<lambda>r. (r ''id'', r ''c1'')) (rows (main ex_db2))
     = [(IntV 1, StrV ''second''), (IntV 2, StrV ''first'')]
   \<and> map (\<lambda>rf. map (\<lambda>e. e ''frozen'') (rows (ref_table rf))) (referrers ex_db2) = [[IntV 1]]
   \<and> (case rollback_latest ex_meta ex_db2 (ex_row 1 1 20 Null ''second'' (IntV 7)) None None of
        Inl e \<Rightarrow> False
      | Inr (d', v') \<Rightarrow>
          map (\<lambda>r. (r ''id'', r ''c1'')) (rows (main d')) = [(IntV 1, StrV ''first'')]
        \<and> map (\<lambda>rf. map (\<lambda>e. e ''frozen'') (rows (ref_table rf))) (referrers d') = [[IntV 1]])
   \<and> map (\<lambda>r. (r ''id'', r ''partner'')) (rows (main ex_db)) = [(IntV 1, IntV 7)]
   \<and> map (\<lambda>rf. map (\<lambda>e. e ''frozen'') (rows (ref_table rf))) (referrers ex_db) = [[IntV 1]]
   \<and> (case save ex_meta 20 Null ex_db (ex_row 1 1 10 Null ''second'' (IntV 7)) of
        Inl e \<Rightarrow> False
      | Inr (d', v') \<Rightarrow>
          map (\<lambda>r. (r ''id'', r ''partner'')) (rows (main d'))
            = [(IntV 1, IntV 7), (IntV 2, Null)]
        \<and> map (\<lambda>rf. map (\<lambda>e. e ''frozen'') (rows (ref_table rf))) (referrers d') = [[IntV 2]])"
proof -
  have a0: "map (\<lambda>r. (r ''id'', r ''c1'')) (rows (main ex_db2))
     = [(IntV 1, StrV ''second''), (IntV 2, StrV ''first'')]"
    "map (\<lambda>rf. map (\<lambda>e. e ''frozen'') (rows (ref_table rf))) (referrers ex_db2) = [[IntV 1]]"
    by (simp_all add: ex_db2_def ex_row_def)
  have a1: "(case rollback_latest ex_meta ex_db2 (ex_row 1 1 20 Null ''second'' (IntV 7)) None None of
        Inl e \<Rightarrow> False
      | Inr (d', v') \<Rightarrow>
          map (\<lambda>r. (r ''id'', r ''c1'')) (rows (main d')) = [(IntV 1, StrV ''first'')]
        \<and> map (\<lambda>rf. map (\<lambda>e. e ''frozen'') (rows (ref_table rf))) (referrers d') = [[IntV 1]])"
    by (simp add: rollback_latest_def order_by_desc_first_def sorts_before_def
      u_rollback_to_def move_frozen_relationships_def move_frozen_relationships_of_def
      related_manager_all_def repoint_related_def u_save_def Model_save_def u_delete_def
      Model_delete_def related_objects_def on_delete_apply_def
      revert_fields_def revert_field_def get_one_to_one_fields_def
      PointInTimeBaseManager_get_queryset_def ex_meta_def ex_db2_def ex_row_def)
  have b0: "map (\<lambda>r. (r ''id'', r ''partner'')) (rows (main ex_db)) = [(IntV 1, IntV 7)]"
    "map (\<lambda>rf. map (\<lambda>e. e ''frozen'') (rows (ref_table rf))) (referrers ex_db) = [[IntV 1]]"
    by (simp_all add: ex_db_def ex_row_def)
  have b1: "(case save ex_meta 20 Null ex_db (ex_row 1 1 10 Null ''second'' (IntV 7)) of
        Inl e \<Rightarrow> False
      | Inr (d', v') \<Rightarrow>
          map (\<lambda>r. (r ''id'', r ''partner'')) (rows (main d'))
            = [(IntV 1, IntV 7), (IntV 2, Null)]
        \<and> map (\<lambda>rf. map (\<lambda>e. e ''frozen'') (rows (ref_table rf))) (referrers d') = [[IntV 2]])"
    by (simp add: save_def save_tail_def copy_def PointInTimeDefaultManager_copy_def
      PointInTimeDefaultManager_current_def PointInTimeDefaultManager_get_queryset_def
      PointInTimeQuerySet_current_def isnull_def
      move_frozen_relationships_def move_frozen_relationships_of_def
      related_manager_all_def repoint_related_def u_save_def Model_save_def
      get_one_to_one_fields_def ex_meta_def ex_db_def ex_row_def)
  from a0 a1 b0 b1 show ?thesis by (intro conjI)
qed

text \<open>
  Apart from that, the docstring of \<open>move_frozen_relationships\<close> says that any frozen
  key pointing at the instance is moved, but the reverse manager of a versioned
  referencing model selects its current rows only. The referencing model is versioned;
  its current row and its replaced row both point at key 1, which holds \<open>first\<close>. An
  update of key 1 moves the current referencing row to the clone and leaves the
  replaced one pointing at key 1, which then holds \<open>second\<close>.
\<close>

lemma replaced_referencer_not_moved:
  "map (\<lambda>r. (r ''id'', r ''c1'')) (rows (main ex_db3)) = [(IntV 1, StrV ''first'')]
   \<and> map (\<lambda>rf. map (\<lambda>e. (e ''frozen'', e ''replaced_at'')) (rows (ref_table rf)))
        (referrers ex_db3) = [[(IntV 1, Null), (IntV 1, IntV 12)]]
   \<and> (case save ex_meta 20 Null ex_db3 (ex_row 1 1 10 Null ''second'' (IntV 7)) of
        Inl e \<Rightarrow> False
      | Inr (d', v') \<Rightarrow>
          map (\<lambda>r. (r ''id'', r ''c1'')) (rows (main d'))
            = [(IntV 1, StrV ''second''), (IntV 2, StrV ''first'')]
        \<and> map (\<lambda>rf. map (\<lambda>e. (e ''frozen'', e ''replaced_at'')) (rows (ref_table rf)))
             (referrers d') = [[(IntV 2, Null), (IntV 1, IntV 12)]])"
proof -
  have b0: "map (\<lambda>r. (r ''id'', r ''c1'')) (rows (main ex_db3)) = [(IntV 1, StrV ''first'')]"
    "map (\<lambda>rf. map (\<lambda>e. (e ''frozen'', e ''replaced_at'')) (rows (ref_table rf)))
        (referrers ex_db3) = [[(IntV 1, Null), (IntV 1, IntV 12)]]"
    by (simp_all add: ex_db3_def ex_row_def)
  have b1: "(case save ex_meta 20 Null ex_db3 (ex_row 1 1 10 Null ''second'' (IntV 7)) of
        Inl e \<Rightarrow> False
      | Inr (d', v') \<Rightarrow>
          map (\<lambda>r. (r ''id'', r ''c1'')) (rows (main d'))
            = [(IntV 1, StrV ''second''), (IntV 2, StrV ''first'')]
        \<and> map (\<lambda>rf. map (\<lambda>e. (e ''frozen'', e ''replaced_at'')) (rows (ref_table rf)))
             (referrers d') = [[(IntV 2, Null), (IntV 1, IntV 12)]])"
    by (simp add: save_def save_tail_def copy_def PointInTimeDefaultManager_copy_def
      PointInTimeDefaultManager_current_def PointInTimeDefaultManager_get_queryset_def
      PointInTimeQuerySet_current_def isnull_def
      move_frozen_relationships_def move_frozen_relationships_of_def
      related_manager_all_def repoint_related_def u_save_def Model_save_def
      get_one_to_one_fields_def ex_meta_def ex_db3_def ex_row_def)
  from b0 b1 show ?thesis by (intro conjI)
qed

theorem frozen_edges_repointed_witness:
  "(\<exists>d' v' clone.
      save ex_meta 20 Null ex_db (ex_row 1 1 10 Null ''second'' (IntV 7)) = Inr (d', v')
    \<and> clone \<in> set (rows (main d')) \<and> clone ''id'' = IntV 2 \<and> clone ''c1'' = StrV ''first''
    \<and> map (\<lambda>rf. map (\<lambda>e. e ''frozen'') (rows (ref_table rf))) (referrers d') = [[IntV 2]])
   \<and> (\<exists>d' v' rf'.
      u_rollback_to ex_meta ex_db1 (ex_row 1 1 20 Null ''second'' (IntV 7))
        (ex_row 2 1 10 (IntV 20) ''first'' Null) None None = Inr (d', v')
    \<and> referrers d' = [rf']
    \<and> ((\<lambda>_. Null)(''id'' := IntV 1, ''frozen'' := IntV 2))(''frozen'' := IntV 1)
         \<in> set (rows (ref_table rf')))"
proof -
  have h1: "distinct (map (\<lambda>r. r ''id'') (rows (main ex_db)))" by (simp add: ex_db_def)
  have h2: "\<forall>r \<in> set (rows (main ex_db)). r ''id'' \<noteq> IntV (next_id (main ex_db))"
    by (simp add: ex_db_def ex_row_def)
  have h3: "ex_row 1 1 10 Null ''second'' (IntV 7) ''id'' = IntV 1" by (simp add: ex_row_def)
  have h4: "ex_row 1 1 10 Null ''second'' (IntV 7) ''replaced_at'' = Null"
    by (simp add: ex_row_def)
  have h5: "ex_row 1 1 10 Null ''first'' (IntV 7) \<in> set (rows (main ex_db))"
    by (simp add: ex_db_def)
  have h6: "ex_row 1 1 10 Null ''first'' (IntV 7) ''id'' = IntV 1" by (simp add: ex_row_def)
  have h7: "ex_row 1 1 10 Null ''first'' (IntV 7) ''replaced_at'' = Null"
    by (simp add: ex_row_def)
  have h8: "\<forall>rf \<in> set (referrers ex_db).
            distinct (map (\<lambda>r. r ''id'') (rows (ref_table rf)))
          \<and> (\<forall>r \<in> set (rows (ref_table rf)). r ''id'' \<noteq> Null)
          \<and> fk_name rf \<noteq> ''id''"
    by (simp add: ex_db_def)
  note U0 = frozen_edges_repointed[where d=ex_db and self="ex_row 1 1 10 Null ''second'' (IntV 7)"
      and k=1 and old="ex_row 1 1 10 Null ''first'' (IntV 7)" and model=ex_meta and now=20
      and user=Null, THEN conjunct1, rule_format, OF conjI, OF h1 conjI, OF h2 conjI,
      OF h3 conjI, OF h4 conjI, OF h5 conjI, OF h6 conjI, OF h7 h8]
  from U0 obtain d' v' clone where U:
    "save ex_meta 20 Null ex_db (ex_row 1 1 10 Null ''second'' (IntV 7)) = Inr (d', v')"
    "clone \<in> set (rows (main d'))" "clone ''id'' = IntV (next_id (main ex_db))"
    "\<forall>n. n \<notin> set (get_one_to_one_fields ex_meta) \<union> {''id'', ''row_id'', ''replaced_at''}
           \<longrightarrow> clone n = ex_row 1 1 10 Null ''first'' (IntV 7) n"
    "list_all2
        (\<lambda>rf rf'. if frozen rf then
             fk_name rf' = fk_name rf
           \<and> list_all2
               (\<lambda>e e'. e' ''id'' = e ''id''
                  \<and> ((is_pita rf \<longrightarrow> e ''replaced_at'' = Null) \<longrightarrow>
                       e' = (if e (fk_name rf) = IntV 1
                             then e(fk_name rf := IntV (next_id (main ex_db))) else e)))
               (rows (ref_table rf)) (rows (ref_table rf'))
           else rf' = rf)
        (referrers ex_db) (referrers d')"
    by (elim exE conjE)
  have u3: "clone ''id'' = IntV 2" using U(3) by (simp add: ex_db_def)
  have "''c1'' \<notin> set (get_one_to_one_fields ex_meta) \<union> {''id'', ''row_id'', ''replaced_at''}"
    by (simp add: get_one_to_one_fields_def ex_meta_def)
  with U(4) have "clone ''c1'' = ex_row 1 1 10 Null ''first'' (IntV 7) ''c1''" by simp
  then have u4: "clone ''c1'' = StrV ''first''" by (simp add: ex_row_def)
  have u5: "map (\<lambda>rf. map (\<lambda>e. e ''frozen'') (rows (ref_table rf))) (referrers d') = [[IntV 2]]"
    using U(5) by (clarsimp simp: ex_db_def list_all2_Cons1)
  from ex_db1_revert_ok
  obtain d2' v2' where ok:
    "u_rollback_to ex_meta ex_db1 (ex_row 1 1 20 Null ''second'' (IntV 7))
             (ex_row 2 1 10 (IntV 20) ''first'' Null) None None = Inr (d2', v2')"
    by (elim exE)
  have r2: "\<forall>f \<in> set (concrete_fields ex_meta @ private_fields ex_meta).
              name f = ''id'' \<longrightarrow> primary_key f"
    by (simp add: ex_meta_def)
  have r3: "\<forall>rf \<in> set (referrers ex_db1).
            distinct (map (\<lambda>r. r ''id'') (rows (ref_table rf)))
          \<and> (\<forall>r \<in> set (rows (ref_table rf)). r ''id'' \<noteq> Null)
          \<and> fk_name rf \<noteq> ''id''"
    by (simp add: ex_db1_def)
  note R0 = frozen_edges_repointed[where ?d2.0=ex_db1
      and ?self2.0="ex_row 1 1 20 Null ''second'' (IntV 7)"
      and previous="ex_row 2 1 10 (IntV 20) ''first'' Null" and ?model2.0=ex_meta
      and fields'=None and exclude=None and ?d2'.0=d2' and ?v2'.0=v2',
      THEN conjunct2, rule_format, OF conjI, OF ok conjI, OF r2 r3]
  have r5: "\<exists>rf'. referrers d2' = [rf']
      \<and> ((\<lambda>_. Null)(''id'' := IntV 1, ''frozen'' := IntV 2))(''frozen'' := IntV 1)
           \<in> set (rows (ref_table rf'))"
    using R0 by (clarsimp simp: ex_db1_def ex_row_def list_all2_Cons1)
  then obtain rf' where r6: "referrers d2' = [rf']"
      "((\<lambda>_. Null)(''id'' := IntV 1, ''frozen'' := IntV 2))(''frozen'' := IntV 1)
           \<in> set (rows (ref_table rf'))"
    by (elim exE conjE)
  show ?thesis
  proof (intro conjI)
    show "\<exists>d' v' clone.
      save ex_meta 20 Null ex_db (ex_row 1 1 10 Null ''second'' (IntV 7)) = Inr (d', v')
    \<and> clone \<in> set (rows (main d')) \<and> clone ''id'' = IntV 2 \<and> clone ''c1'' = StrV ''first''
    \<and> map (\<lambda>rf. map (\<lambda>e. e ''frozen'') (rows (ref_table rf))) (referrers d') = [[IntV 2]]"
      by (intro exI[of _ d'] exI[of _ v'] exI[of _ clone] conjI) (rule U(1) U(2) u3 u4 u5)+
    show "\<exists>d' v' rf'.
      u_rollback_to ex_meta ex_db1 (ex_row 1 1 20 Null ''second'' (IntV 7))
        (ex_row 2 1 10 (IntV 20) ''first'' Null) None None = Inr (d', v')
    \<and> referrers d' = [rf']
    \<and> ((\<lambda>_. Null)(''id'' := IntV 1, ''frozen'' := IntV 2))(''frozen'' := IntV 1)
         \<in> set (rows (ref_table rf'))"
      by (intro exI[of _ d2'] exI[of _ v2'] exI[of _ rf'] conjI) (rule ok r6)+
  qed
qed

end
